(* ===== verification/Shr_Prelude.thy ===== *)
theory Shr_Prelude
  imports Main "HOL-Library.Word" "HOL-Library.Multiset"
begin

text \<open>
  Shared vocabulary of the development: bytes and machine integers, the collections of
  simplification rules the component theories extend, conversions between bytes and
  characters, decimal and hexadecimal digits, and generic facts on lists, association lists
  and keyed tables (lists of rows with a primary key) that several components use.
\<close>

unbundle bit_operations_syntax

type_synonym byte = "8 word"
type_synonym u16 = "16 word"
type_synonym u32 = "32 word"
type_synonym u64 = "64 word"
type_synonym bytes = "byte list"

named_theorems io_simps \<open>effects of the environment primitives on the fields of the world\<close>
named_theorems db_simps \<open>effects of the database statements on the tables\<close>
named_theorems net_simps \<open>effects of the socket operations\<close>

section \<open>Characters, bytes and digits\<close>

definition byte_of_char :: "char \<Rightarrow> byte" where
  "byte_of_char c = word_of_nat (of_char c)"

definition char_of_byte :: "byte \<Rightarrow> char" where
  "char_of_byte b = char_of (unat b)"

lemma of_char_nat_less: "(of_char c :: nat) < 256"
  by simp

lemma char_of_byte_of_char [simp]: "char_of_byte (byte_of_char c) = c"
  by (simp add: char_of_byte_def byte_of_char_def unat_of_nat)

lemma byte_of_char_of_byte [simp]: "byte_of_char (char_of_byte b) = b"
proof -
  have "unat b < 256"
    using unsigned_less [of b, where ?'a = nat] by simp
  then show ?thesis
    by (simp add: char_of_byte_def byte_of_char_def)
qed

lemma map_byte_char_inverse [simp]:
  "map byte_of_char (map char_of_byte bs) = bs"
  "map char_of_byte (map byte_of_char s) = s"
  by (simp_all add: map_idI)

lemma byte_char_comp [simp]:
  "char_of_byte \<circ> byte_of_char = id" "byte_of_char \<circ> char_of_byte = id"
  by (simp_all add: fun_eq_iff)

text \<open>One digit of a number in base 16 (lower case), as an output stream in \<open>std::hex\<close> mode
  prints it.\<close>

definition hex_digit :: "nat \<Rightarrow> char" where
  "hex_digit n = (if n < 10 then char_of (48 + n) else char_of (87 + n))"

definition hex_value :: "char \<Rightarrow> nat option" where
  "hex_value c =
     (let n = of_char c :: nat in
      if 48 \<le> n \<and> n \<le> 57 then Some (n - 48)
      else if 97 \<le> n \<and> n \<le> 102 then Some (n - 87)
      else if 65 \<le> n \<and> n \<le> 70 then Some (n - 55)
      else None)"

lemma hex_value_digit [simp]: "n < 16 \<Longrightarrow> hex_value (hex_digit n) = Some n"
  by (auto simp: hex_value_def hex_digit_def Let_def)

lemma hex_digit_inject: "m < 16 \<Longrightarrow> n < 16 \<Longrightarrow> hex_digit m = hex_digit n \<longleftrightarrow> m = n"
  by (metis hex_value_digit option.inject)

text \<open>Decimal representation, \<open>std::to_string\<close> and \<open>operator<<\<close> on unsigned and signed
  integers.\<close>

fun show_nat :: "nat \<Rightarrow> string" where
  "show_nat n = (if n < 10 then [char_of (48 + n)]
                 else show_nat (n div 10) @ [char_of (48 + n mod 10)])"

declare show_nat.simps [simp del]

definition show_int :: "int \<Rightarrow> string" where
  "show_int i = (if i < 0 then CHR ''-'' # show_nat (nat (- i)) else show_nat (nat i))"

text \<open>\<open>c_str\<close>: a C++ string read through a NUL-terminated pointer.\<close>

definition c_str :: "string \<Rightarrow> string" where
  "c_str s = takeWhile (\<lambda>c. c \<noteq> CHR 0x00) s"

definition nul_free :: "string \<Rightarrow> bool" where
  "nul_free s \<longleftrightarrow> CHR 0x00 \<notin> set s"

lemma c_str_nul_free [simp]: "nul_free (c_str s)"
  by (auto simp: nul_free_def c_str_def dest: set_takeWhileD)

lemma c_str_append: "nul_free s \<Longrightarrow> c_str (s @ t) = s @ c_str t"
  by (auto simp: nul_free_def c_str_def takeWhile_append)

lemma c_str_cut: "\<not> nul_free s \<Longrightarrow> c_str (s @ t) = c_str s"
  by (auto simp: nul_free_def c_str_def takeWhile_append)

lemma c_str_id [simp]: "nul_free s \<Longrightarrow> c_str s = s"
  by (auto simp: nul_free_def c_str_def takeWhile_eq_all_conv)

lemma c_str_idem: "c_str (c_str s) = c_str s"
  by simp

lemma c_str_Nil [simp]: "c_str [] = []"
  by (simp add: c_str_def)

section \<open>Casts\<close>

text \<open>\<open>static_cast<int>\<close> of a size, and the \<open>size_t\<close> a system call sees when it is passed that
  \<open>int\<close>.\<close>

definition cast_int :: "nat \<Rightarrow> int" where
  "cast_int n = sint (word_of_nat n :: 32 word)"

definition int_size :: "nat \<Rightarrow> nat" where
  "int_size n = (let c = cast_int n in if 0 \<le> c then nat c else nat (2 ^ 64 + c))"

lemma cast_int_id: "n < 2 ^ 31 \<Longrightarrow> cast_int n = int n"
  by (simp add: cast_int_def signed_of_nat signed_take_bit_int_eq_self)

lemma int_size_pos: "0 < n \<Longrightarrow> n < 2 ^ 32 \<Longrightarrow> 0 < int_size n"
proof -
  assume n: "0 < n" "n < 2 ^ 32"
  have "(word_of_nat n :: 32 word) \<noteq> 0"
  proof
    assume "(word_of_nat n :: 32 word) = 0"
    then have "unat (word_of_nat n :: 32 word) = 0" by simp
    with n show False by (simp add: unat_of_nat)
  qed
  then have "cast_int n \<noteq> 0" unfolding cast_int_def by (simp only: signed_eq_0_iff not_False_eq_True)
  moreover have "- (2 ^ 31) \<le> cast_int n" using sint_greater_eq [of "word_of_nat n :: 32 word"] by (simp add: cast_int_def)
  ultimately show ?thesis by (simp add: int_size_def Let_def)
qed

section \<open>UTF-8\<close>

text \<open>Well-formed UTF-8: no stray continuation byte, no overlong form, no surrogate, nothing above
  U+10FFFF.\<close>

definition utf8_tail :: "byte \<Rightarrow> bool" where
  "utf8_tail b \<longleftrightarrow> 0x80 \<le> b \<and> b \<le> 0xBF"

fun utf8_bytes :: "bytes \<Rightarrow> bool" where
  "utf8_bytes [] = True"
| "utf8_bytes (a # r) =
     (if a < 0x80 then utf8_bytes r
      else if 0xC2 \<le> a \<and> a \<le> 0xDF then
        (case r of b # r \<Rightarrow> utf8_tail b \<and> utf8_bytes r | [] \<Rightarrow> False)
      else if 0xE0 \<le> a \<and> a \<le> 0xEF then
        (case r of
           b # c # r \<Rightarrow> utf8_tail b \<and> utf8_tail c \<and> (a = 0xE0 \<longrightarrow> 0xA0 \<le> b) \<and> (a = 0xED \<longrightarrow> b \<le> 0x9F) \<and> utf8_bytes r
         | _ \<Rightarrow> False)
      else if 0xF0 \<le> a \<and> a \<le> 0xF4 then
        (case r of
           b # c # d # r \<Rightarrow> utf8_tail b \<and> utf8_tail c \<and> utf8_tail d \<and> (a = 0xF0 \<longrightarrow> 0x90 \<le> b)
             \<and> (a = 0xF4 \<longrightarrow> b \<le> 0x8F) \<and> utf8_bytes r
         | _ \<Rightarrow> False)
      else False)"

definition utf8 :: "string \<Rightarrow> bool" where
  "utf8 s \<longleftrightarrow> utf8_bytes (map byte_of_char s)"

lemma utf8_ascii: "(\<And>c. c \<in> set s \<Longrightarrow> byte_of_char c < 0x80) \<Longrightarrow> utf8 s"
  by (induction s) (auto simp: utf8_def)

section \<open>Keyed tables\<close>

text \<open>
  A table with a primary key is a list of rows. The four statement forms of the program on
  such a table: INSERT OR REPLACE, INSERT OR IGNORE, UPDATE and DELETE by key, and the
  lookup by key.
\<close>

definition tbl_replace :: "('r \<Rightarrow> 'k) \<Rightarrow> 'r \<Rightarrow> 'r list \<Rightarrow> 'r list" where
  "tbl_replace key r rows = filter (\<lambda>x. key x \<noteq> key r) rows @ [r]"

definition tbl_ignore :: "('r \<Rightarrow> 'k) \<Rightarrow> 'r \<Rightarrow> 'r list \<Rightarrow> 'r list" where
  "tbl_ignore key r rows = (if key r \<in> key ` set rows then rows else rows @ [r])"

definition tbl_update :: "('r \<Rightarrow> 'k) \<Rightarrow> 'k \<Rightarrow> ('r \<Rightarrow> 'r) \<Rightarrow> 'r list \<Rightarrow> 'r list" where
  "tbl_update key k f rows = map (\<lambda>x. if key x = k then f x else x) rows"

definition tbl_delete :: "('r \<Rightarrow> 'k) \<Rightarrow> 'k \<Rightarrow> 'r list \<Rightarrow> 'r list" where
  "tbl_delete key k rows = filter (\<lambda>x. key x \<noteq> k) rows"

definition tbl_find :: "('r \<Rightarrow> 'k) \<Rightarrow> 'k \<Rightarrow> 'r list \<Rightarrow> 'r option" where
  "tbl_find key k rows = find (\<lambda>x. key x = k) rows"

definition tbl_keys_distinct :: "('r \<Rightarrow> 'k) \<Rightarrow> 'r list \<Rightarrow> bool" where
  "tbl_keys_distinct key rows \<longleftrightarrow> distinct (map key rows)"

lemma find_filter_neq:
  "find (\<lambda>x. key x = k) (filter (\<lambda>x. key x \<noteq> k') rows) =
     (if k = k' then None else find (\<lambda>x. key x = k) rows)"
  by (induction rows) auto

lemma find_append:
  "find P (xs @ ys) = (case find P xs of None \<Rightarrow> find P ys | Some x \<Rightarrow> Some x)"
  by (induction xs) auto

lemma tbl_find_key: "tbl_find key k rows = Some r \<Longrightarrow> key r = k \<and> r \<in> set rows"
  by (auto simp: tbl_find_def find_Some_iff)

lemma tbl_find_None: "tbl_find key k rows = None \<longleftrightarrow> k \<notin> key ` set rows"
  by (auto simp: tbl_find_def find_None_iff)

lemma tbl_find_Nil [db_simps]: "tbl_find key k [] = None"
  by (simp add: tbl_find_def)

lemma tbl_find_replace [db_simps]:
  "tbl_find key k (tbl_replace key r rows) = (if k = key r then Some r else tbl_find key k rows)"
  by (auto simp: tbl_find_def tbl_replace_def find_append find_filter_neq split: option.split)

lemma tbl_find_ignore [db_simps]:
  "tbl_find key k (tbl_ignore key r rows) =
     (case tbl_find key k rows of
        Some x \<Rightarrow> Some x
      | None \<Rightarrow> if k = key r then Some r else None)"
proof (cases "key r \<in> key ` set rows")
  case True
  then show ?thesis
    using tbl_find_None [of key "key r" rows] by (auto simp: tbl_ignore_def split: option.split)
next
  case False
  then show ?thesis
    by (simp add: tbl_ignore_def tbl_find_def find_append split: option.split)
qed

lemma tbl_find_delete [db_simps]:
  "tbl_find key k (tbl_delete key k' rows) = (if k = k' then None else tbl_find key k rows)"
  by (simp add: tbl_find_def tbl_delete_def find_filter_neq)

lemma tbl_find_update [db_simps]:
  assumes "\<And>r. key r = k' \<Longrightarrow> key (f r) = k'"
  shows "tbl_find key k (tbl_update key k' f rows) =
    (if k = k' then map_option f (tbl_find key k rows) else tbl_find key k rows)"
  using assms by (induction rows) (auto simp: tbl_find_def tbl_update_def)

lemma tbl_keys_replace: "tbl_keys_distinct key rows \<Longrightarrow> tbl_keys_distinct key (tbl_replace key r rows)"
  by (auto simp: tbl_keys_distinct_def tbl_replace_def distinct_map inj_on_def)

lemma tbl_keys_ignore: "tbl_keys_distinct key rows \<Longrightarrow> tbl_keys_distinct key (tbl_ignore key r rows)"
  by (auto simp: tbl_keys_distinct_def tbl_ignore_def)

lemma tbl_keys_delete: "tbl_keys_distinct key rows \<Longrightarrow> tbl_keys_distinct key (tbl_delete key k rows)"
  by (auto simp: tbl_keys_distinct_def tbl_delete_def distinct_map_filter)

lemma tbl_keys_filter: "tbl_keys_distinct key rows \<Longrightarrow> tbl_keys_distinct key (filter P rows)"
  by (simp add: tbl_keys_distinct_def distinct_map_filter)

lemma tbl_keys_update:
  assumes "\<And>r. key r = k \<Longrightarrow> key (f r) = k" and "tbl_keys_distinct key rows"
  shows "tbl_keys_distinct key (tbl_update key k f rows)"
proof -
  have "map key (tbl_update key k f rows) = map key rows"
    using assms(1) by (auto simp: tbl_update_def)
  with assms(2) show ?thesis by (simp add: tbl_keys_distinct_def)
qed

lemma set_tbl_replace: "set (tbl_replace key r rows) = insert r {x \<in> set rows. key x \<noteq> key r}"
  by (auto simp: tbl_replace_def)

lemma tbl_find_iff:
  "tbl_keys_distinct key rows \<Longrightarrow> tbl_find key k rows = Some r \<longleftrightarrow> r \<in> set rows \<and> key r = k"
  by (induction rows) (auto simp: tbl_keys_distinct_def tbl_find_def)

lemma tbl_key_unique:
  "tbl_keys_distinct key rows \<Longrightarrow> r \<in> set rows \<Longrightarrow> key r = k \<Longrightarrow> filter (\<lambda>x. key x = k) rows = [r]"
proof (induction rows)
  case (Cons x rows)
  then show ?case
  proof (cases "key x = k")
    case True
    with Cons.prems have "\<forall>y \<in> set rows. key y \<noteq> k"
      by (simp add: tbl_keys_distinct_def) (metis image_eqI)
    moreover from this Cons.prems have "r = x" by auto
    ultimately show ?thesis using True by (simp add: filter_empty_conv)
  qed (auto simp: tbl_keys_distinct_def)
qed simp

lemma tbl_find_filter:
  "tbl_keys_distinct key rows \<Longrightarrow> tbl_find key k (filter P rows) =
     (case tbl_find key k rows of None \<Rightarrow> None | Some r \<Rightarrow> if P r then Some r else None)"
proof (cases "tbl_find key k rows")
  case None
  then show ?thesis using tbl_find_None [of key k rows] tbl_find_None [of key k "filter P rows"] by auto
next
  case (Some r)
  assume d: "tbl_keys_distinct key rows"
  with Some have r: "r \<in> set rows" "key r = k" using tbl_find_iff [OF d, of k r] by simp_all
  have u: "x = r" if "x \<in> set rows" "key x = k" for x using that Some tbl_find_iff [OF d, of k x] by simp
  show ?thesis
  proof (cases "P r")
    case True
    then show ?thesis using Some r tbl_find_iff [OF tbl_keys_filter [OF d], of k P r] by simp
  next
    case False
    then have "k \<notin> key ` set (filter P rows)" using u by auto
    then have "tbl_find key k (filter P rows) = None" by (simp only: tbl_find_None not_False_eq_True)
    with False Some show ?thesis by simp
  qed
qed

lemma tbl_ignore_present: "tbl_find key (key r) rows = Some x \<Longrightarrow> tbl_ignore key r rows = rows"
  by (metis image_eqI tbl_find_key tbl_ignore_def)

lemmas tbl_keys_intros = tbl_keys_replace tbl_keys_ignore tbl_keys_delete tbl_keys_filter tbl_keys_update

end
