(* ===== verification/Shr_Types.thy ===== *)
theory Shr_Types
  imports Shr_Prelude
begin

text \<open>
  The data model of \<open>include/types.h\<close>: protocol constants, the enumerations with their
  numeric codes and texts, and the structures for peers, messages, transfers, packets and the
  41-byte packet header.
\<close>

section \<open>Constants\<close>

definition SHR_PORT_MIN :: u16 where "SHR_PORT_MIN = 60000"
definition SHR_PORT_MAX :: u16 where "SHR_PORT_MAX = 61000"
definition SHR_DEFAULT_PORT :: u16 where "SHR_DEFAULT_PORT = 60000"
definition SHR_CHUNK_SIZE :: nat where "SHR_CHUNK_SIZE = 1024 * 1024"
definition SHR_MAX_CONCURRENT :: int where "SHR_MAX_CONCURRENT = 5"
definition SHR_CONNECT_TIMEOUT_SEC :: int where "SHR_CONNECT_TIMEOUT_SEC = 10"
definition SHR_RETRY_LIMIT :: nat where "SHR_RETRY_LIMIT = 5"
definition SHR_RETRY_DELAY_MS :: int where "SHR_RETRY_DELAY_MS = 2000"
definition SHR_VERSION :: string where "SHR_VERSION = ''1.0.0''"
definition SHR_PROTOCOL_MAGIC :: string where "SHR_PROTOCOL_MAGIC = ''SHR1''"

lemma SHR_CHUNK_SIZE_pos [simp]: "0 < SHR_CHUNK_SIZE"
  by (simp add: SHR_CHUNK_SIZE_def)

lemma SHR_CHUNK_SIZE_nz [simp]: "SHR_CHUNK_SIZE \<noteq> 0"
  by (simp add: SHR_CHUNK_SIZE_def)

section \<open>Enumerations\<close>

datatype TransferState = Pending | InProgress | Paused | Completed | Failed | Cancelled

fun transfer_state_str :: "TransferState \<Rightarrow> string" where
  "transfer_state_str Pending = ''pending''"
| "transfer_state_str InProgress = ''in_progress''"
| "transfer_state_str Paused = ''paused''"
| "transfer_state_str Completed = ''completed''"
| "transfer_state_str Failed = ''failed''"
| "transfer_state_str Cancelled = ''cancelled''"

lemma transfer_state_str_inject [simp]:
  "transfer_state_str s = transfer_state_str t \<longleftrightarrow> s = t"
  by (cases s; cases t) auto

lemma transfer_state_str_nul_free [simp]: "nul_free (transfer_state_str s)"
  by (cases s) (auto simp: nul_free_def)

text \<open>
  \<open>PacketType\<close> has the fixed underlying type \<open>uint8_t\<close>, so \<open>static_cast<PacketType>\<close> of a
  byte that no enumerator lists is still a value of the type: the constructor \<open>Unlisted\<close>.
\<close>

datatype PacketType =
    Handshake | HandshakeAck
  | FileOffer | FileAccept | FileReject | FileChunk | FileChunkAck | FileComplete | FileResume
  | MsgSend | MsgAck
  | PeerDiscover | PeerAnnounce | PeerList
  | Ping | Pong
  | PktError
  | Unlisted byte

fun packet_type_code :: "PacketType \<Rightarrow> byte" where
  "packet_type_code Handshake = 0x01"
| "packet_type_code HandshakeAck = 0x02"
| "packet_type_code FileOffer = 0x10"
| "packet_type_code FileAccept = 0x11"
| "packet_type_code FileReject = 0x12"
| "packet_type_code FileChunk = 0x13"
| "packet_type_code FileChunkAck = 0x14"
| "packet_type_code FileComplete = 0x15"
| "packet_type_code FileResume = 0x16"
| "packet_type_code MsgSend = 0x20"
| "packet_type_code MsgAck = 0x21"
| "packet_type_code PeerDiscover = 0x30"
| "packet_type_code PeerAnnounce = 0x31"
| "packet_type_code PeerList = 0x32"
| "packet_type_code Ping = 0x40"
| "packet_type_code Pong = 0x41"
| "packet_type_code PktError = 0xFF"
| "packet_type_code (Unlisted b) = b"

definition listed_types :: "PacketType list" where
  "listed_types = [Handshake, HandshakeAck, FileOffer, FileAccept, FileReject, FileChunk,
     FileChunkAck, FileComplete, FileResume, MsgSend, MsgAck, PeerDiscover, PeerAnnounce,
     PeerList, Ping, Pong, PktError]"

text \<open>\<open>static_cast<PacketType>(b)\<close>.\<close>

definition packet_type_of :: "byte \<Rightarrow> PacketType" where
  "packet_type_of b =
     (case find (\<lambda>t. packet_type_code t = b) listed_types of
        Some t \<Rightarrow> t
      | None \<Rightarrow> Unlisted b)"

lemma packet_type_code_of [simp]: "packet_type_code (packet_type_of b) = b"
  by (auto simp: packet_type_of_def find_Some_iff split: option.split)

lemma listed_types_cast:
  "list_all (\<lambda>t. packet_type_of (packet_type_code t) = t) listed_types"
  by code_simp

lemma packet_type_of_code: "t \<in> set listed_types \<Longrightarrow> packet_type_of (packet_type_code t) = t"
  using listed_types_cast by (simp add: list_all_iff)

lemma packet_type_of_code_simps [simp]:
  "packet_type_of 0x10 = FileOffer" "packet_type_of 0x11 = FileAccept"
  "packet_type_of 0x13 = FileChunk" "packet_type_of 0x14 = FileChunkAck"
  "packet_type_of 0x15 = FileComplete" "packet_type_of 0x16 = FileResume"
  "packet_type_of 0x20 = MsgSend" "packet_type_of 0x21 = MsgAck"
  "packet_type_of 0x40 = Ping" "packet_type_of 0x41 = Pong"
  "packet_type_of 0x30 = PeerDiscover" "packet_type_of 0x31 = PeerAnnounce"
  by (simp_all add: packet_type_of_def listed_types_def)

section \<open>Structures\<close>

record PeerInfo =
  p_id :: string
  p_ip :: string
  p_port :: u16
  p_online :: bool
  p_last_seen :: int
  p_alias :: string

record TransferRecord =
  t_id :: string
  t_peer_id :: string
  t_filename :: string
  t_filepath :: string
  t_total_bytes :: u64
  t_transferred_bytes :: u64
  t_state :: TransferState
  t_checksum :: string
  t_created_at :: int
  t_updated_at :: int
  t_outbound :: bool

record Message =
  m_id :: string
  m_sender_id :: string
  m_recipient_id :: string
  m_content :: string
  m_timestamp :: int
  m_read :: bool

text \<open>The packed header: 4 + 1 + 4 + 32 bytes.\<close>

record PacketHeader =
  h_magic :: string
  h_type :: byte
  h_payload_len :: u32
  h_hmac :: bytes

record RawPacket =
  k_type :: PacketType
  k_payload :: bytes
  k_peer_ip :: string
  k_peer_port :: u16

end
