(* ===== verification/Shr_World.thy ===== *)
theory Shr_World
  imports Shr_Types
begin

text \<open>
  The state of one \<open>shr\<close> process and what lies outside the sources.

  \<^item> \<open>lib\<close> collects the third-party functions the sources call (nlohmann/json, OpenSSL) as
    parameters; \<open>env\<close> extends it with the answers of the operating system and of SQLite.
    Every answer that may differ from call to call is a function of the number of
    environment calls made before it, the field \<open>tick\<close> of the world. The predicates below
    the records state the documented behaviour that some theorems rely on.
  \<^item> \<open>world\<close> is the state of the process: one field per singleton of the program
    (\<open>Config\<close>, \<open>Identity\<close>, \<open>Logger\<close>, \<open>Database\<close>, \<open>Crypto\<close>, \<open>Network\<close>, \<open>Transfer\<close>,
    \<open>Peers\<close>), the files, the open sockets and the console.
\<close>

section \<open>JSON values\<close>

datatype json =
    JNull
  | JBool bool
  | JInt int
  | JUInt u64
  | JStr string
  | JObj "(string \<times> json) list"

section \<open>Third-party libraries\<close>

record lib =
  to_cbor :: "json \<Rightarrow> bytes"
  from_cbor :: "bytes \<Rightarrow> json option"
  value_str :: "json \<Rightarrow> string \<Rightarrow> string \<Rightarrow> string option"
  value_u64 :: "json \<Rightarrow> string \<Rightarrow> u64 \<Rightarrow> u64 option"
  value_u16 :: "json \<Rightarrow> string \<Rightarrow> u16 \<Rightarrow> u16 option"
  value_i64 :: "json \<Rightarrow> string \<Rightarrow> int \<Rightarrow> int option"
  json_parse :: "bytes \<Rightarrow> json option"
  json_dump :: "json \<Rightarrow> bytes option"
  json_contains :: "json \<Rightarrow> string \<Rightarrow> bool"
  json_get_str :: "json \<Rightarrow> string \<Rightarrow> string option"
  json_get_u16 :: "json \<Rightarrow> string \<Rightarrow> u16 option"
  json_get_int :: "json \<Rightarrow> string \<Rightarrow> int option"
  json_get_bool :: "json \<Rightarrow> string \<Rightarrow> bool option"
  md_init :: bytes
  md_update :: "bytes \<Rightarrow> bytes \<Rightarrow> bytes"
  md_final :: "bytes \<Rightarrow> bytes"
  b64_write :: "bytes \<Rightarrow> string"
  b64_read :: "string \<Rightarrow> nat \<Rightarrow> bytes"
  hmac_fn :: "bytes \<Rightarrow> bytes \<Rightarrow> bytes"
  x25519_derive :: "bytes \<Rightarrow> bytes \<Rightarrow> bytes"
  gcm_seal :: "bytes \<Rightarrow> bytes \<Rightarrow> bytes \<Rightarrow> int \<Rightarrow> bytes \<times> bytes"
  gcm_open :: "bytes \<Rightarrow> bytes \<Rightarrow> bytes \<Rightarrow> int \<Rightarrow> bytes \<Rightarrow> bytes option"

text \<open>
  The members of a flat object that was written with \<open>to_cbor\<close> and read back with
  \<open>from_cbor\<close> are found again by \<open>value\<close>; an absent member gives the default.
\<close>

definition member_ok :: "'x lib_scheme \<Rightarrow> json \<Rightarrow> string \<Rightarrow> json option \<Rightarrow> bool" where
  "member_ok L j k v =
     (case v of
        None \<Rightarrow> (\<forall>d. value_str L j k d = Some d) \<and> (\<forall>d. value_u64 L j k d = Some d)
               \<and> (\<forall>d. value_u16 L j k d = Some d) \<and> (\<forall>d. value_i64 L j k d = Some d)
      | Some (JStr s) \<Rightarrow> (\<forall>d. value_str L j k d = Some s)
      | Some (JUInt n) \<Rightarrow> (\<forall>d. value_u64 L j k d = Some n) \<and> (\<forall>d. value_u16 L j k d = Some (ucast n))
      | Some (JInt i) \<Rightarrow> - (2 ^ 63) \<le> i \<and> i < 2 ^ 63 \<longrightarrow> (\<forall>d. value_i64 L j k d = Some i)
      | _ \<Rightarrow> True)"

definition cbor_laws :: "'x lib_scheme \<Rightarrow> bool" where
  "cbor_laws L \<longleftrightarrow>
     (\<forall>kvs. distinct (map fst kvs) \<longrightarrow>
        (\<exists>j. from_cbor L (to_cbor L (JObj kvs)) = Some j \<and> (\<forall>k. member_ok L j k (map_of kvs k))))"

text \<open>The configuration file: a flat object whose texts are UTF-8 is dumped, and its members are
  found again after parsing; with any other text \<open>dump\<close> throws (\<open>None\<close>).\<close>

definition flat_members :: "(string \<times> json) list \<Rightarrow> bool" where
  "flat_members kvs = list_all (\<lambda>(k, v). case v of JObj _ \<Rightarrow> False | _ \<Rightarrow> True) kvs"

definition texts_utf8 :: "(string \<times> json) list \<Rightarrow> bool" where
  "texts_utf8 kvs = list_all (\<lambda>(k, v). utf8 k \<and> (case v of JStr s \<Rightarrow> utf8 s | _ \<Rightarrow> True)) kvs"

definition get_ok :: "'x lib_scheme \<Rightarrow> json \<Rightarrow> string \<Rightarrow> json \<Rightarrow> bool" where
  "get_ok L j k v =
     (case v of
        JStr s \<Rightarrow> json_get_str L j k = Some s
      | JUInt n \<Rightarrow> json_get_u16 L j k = Some (ucast n)
      | JInt i \<Rightarrow> - (2 ^ 31) \<le> i \<and> i < 2 ^ 31 \<longrightarrow> json_get_int L j k = Some i
      | JBool b \<Rightarrow> json_get_bool L j k = Some b
      | _ \<Rightarrow> True)"

definition json_text_laws :: "'x lib_scheme \<Rightarrow> bool" where
  "json_text_laws L \<longleftrightarrow>
     (\<forall>kvs. distinct (map fst kvs) \<longrightarrow> flat_members kvs \<longrightarrow>
        (if texts_utf8 kvs then
           (\<exists>text j. json_dump L (JObj kvs) = Some text \<and> json_parse L text = Some j
              \<and> (\<forall>k. json_contains L j k \<longleftrightarrow> k \<in> fst ` set kvs)
              \<and> (\<forall>(k, v) \<in> set kvs. get_ok L j k v))
         else json_dump L (JObj kvs) = None))"

text \<open>The incremental digest does not depend on how the input was cut into pieces.\<close>

definition digest_laws :: "'x lib_scheme \<Rightarrow> bool" where
  "digest_laws L \<longleftrightarrow>
     (\<forall>ds. md_final L (fold (\<lambda>d c. md_update L c d) ds (md_init L)) =
           md_final L (md_update L (md_init L) (concat ds)))"

text \<open>Base64 without line breaks: what the encoder wrote, the decoder delivers again into a
  buffer that is large enough, and the encoding is at least as long as the data.\<close>

definition base64_laws :: "'x lib_scheme \<Rightarrow> bool" where
  "base64_laws L \<longleftrightarrow>
     (\<forall>d. length d \<le> length (b64_write L d)
        \<and> (\<forall>n. length d \<le> n \<longrightarrow> b64_read L (b64_write L d) n = d))"

lemma cbor_lawsD:
  assumes "cbor_laws L" and "distinct (map fst kvs)"
  obtains j where "from_cbor L (to_cbor L (JObj kvs)) = Some j"
    and "\<And>k. member_ok L j k (map_of kvs k)"
  using assms unfolding cbor_laws_def by blast

section \<open>The operating system and SQLite\<close>

record env = lib +
  os_now :: "nat \<Rightarrow> int"
  os_rand :: "nat \<Rightarrow> nat \<Rightarrow> byte"
  os_keygen :: "nat \<Rightarrow> bytes \<times> bytes"
  os_getenv :: "string \<Rightarrow> string option"
  os_localtime :: "int \<Rightarrow> string"
  os_logtime :: "nat \<Rightarrow> string"
  os_permissions :: "nat \<Rightarrow> string \<Rightarrow> bool"
  os_canonical :: "string \<Rightarrow> string option"
  os_weakly_canonical :: "string \<Rightarrow> string option"
  os_readable :: "nat \<Rightarrow> string \<Rightarrow> bool"
  os_writable :: "nat \<Rightarrow> string \<Rightarrow> bool"
  os_disk :: "nat \<Rightarrow> nat \<Rightarrow> nat"
  os_remove_all :: "nat \<Rightarrow> string \<Rightarrow> bool"
  os_ifaddrs :: "(bool \<times> bool \<times> bool \<times> string) list"
  os_stdin_int :: "int"
  os_progress :: "nat \<Rightarrow> bool \<times> u64"
  os_bind :: "nat \<Rightarrow> u16 \<Rightarrow> bool"
  os_listen :: "nat \<Rightarrow> bool"
  os_socket :: "nat \<Rightarrow> bool"
  os_connect :: "nat \<Rightarrow> string \<Rightarrow> u16 \<Rightarrow> bool"
  os_send :: "nat \<Rightarrow> nat \<Rightarrow> int"
  os_select :: "nat \<Rightarrow> int"
  os_recv :: "nat \<Rightarrow> nat \<Rightarrow> int"
  peer_stream :: "nat \<Rightarrow> bytes \<Rightarrow> bytes"
  sql_open :: "nat \<Rightarrow> bool"
  sql_errmsg :: "nat \<Rightarrow> string"
  sql_ok :: "nat \<Rightarrow> bool"
  sql_order :: "nat \<Rightarrow> nat \<Rightarrow> nat list"

text \<open>
  Reliable parts of the environment, used as hypotheses where a theorem needs them: SQLite
  runs every statement to its end and a full table scan visits each row once; the kernel
  moves at least one byte per call and never more than asked; the disk takes what is written.
\<close>

definition sql_reliable :: "'x env_scheme \<Rightarrow> bool" where
  "sql_reliable E \<longleftrightarrow> (\<forall>t. sql_ok E t)"

definition sql_scans_all :: "'x env_scheme \<Rightarrow> bool" where
  "sql_scans_all E \<longleftrightarrow> (\<forall>t n. mset (sql_order E t n) = mset [0..<n])"

definition sockets_reliable :: "'x env_scheme \<Rightarrow> bool" where
  "sockets_reliable E \<longleftrightarrow>
     (\<forall>t n. 0 < n \<longrightarrow> 1 \<le> os_send E t n \<and> os_send E t n \<le> int n)
   \<and> (\<forall>t. 0 < os_select E t)
   \<and> (\<forall>t n. 0 < n \<longrightarrow> 1 \<le> os_recv E t n \<and> os_recv E t n \<le> int n)"

text \<open>Authenticated encryption with a key of 32 bytes, a nonce of 12 and an input of up to
  \<open>INT_MAX\<close> bytes: the ciphertext is as long as the plaintext, the tag has 16 bytes, and opening
  what was sealed under the same key and nonce gives the plaintext back.\<close>

definition gcm_laws :: "'x lib_scheme \<Rightarrow> bool" where
  "gcm_laws L \<longleftrightarrow>
     (\<forall>k n p. length k = 32 \<longrightarrow> length n = 12 \<longrightarrow> length p < 2 ^ 31 \<longrightarrow>
        (let (c, tag) = gcm_seal L k n p (int (length p))
         in length c = length p \<and> length tag = 16 \<and> gcm_open L k n c (int (length c)) tag = Some p))"

definition disk_reliable :: "'x env_scheme \<Rightarrow> bool" where
  "disk_reliable E \<longleftrightarrow> (\<forall>t n. os_disk E t n = n)"

section \<open>The state of the process\<close>

datatype LogLevel = LDebug | LInfo | LWarn | LError

record LoggerState =
  lg_min_level :: LogLevel
  lg_open :: bool
  lg_out :: string
  lg_initialized :: bool

record AppConfig =
  c_user_id :: string
  c_listen_port :: u16
  c_config_dir :: string
  c_db_path :: string
  c_log_path :: string
  c_received_dir :: string
  c_max_concurrent :: int
  c_retry_limit :: int
  c_retry_delay_ms :: int
  c_verbose :: bool
  c_log_level :: string

record KeyPair =
  pub_key :: bytes
  priv_key :: bytes

text \<open>Rows as the tables store them: TEXT and INTEGER columns.\<close>

record peer_row =
  pr_id :: string
  pr_ip :: string
  pr_port :: int
  pr_online :: int
  pr_last_seen :: int
  pr_alias :: string

record message_row =
  mr_id :: string
  mr_sender_id :: string
  mr_recipient_id :: string
  mr_content :: string
  mr_timestamp :: int
  mr_read :: int

record transfer_row =
  tr_id :: string
  tr_peer_id :: string
  tr_filename :: string
  tr_filepath :: string
  tr_total_bytes :: int
  tr_transferred_bytes :: int
  tr_state :: string
  tr_checksum :: string
  tr_created_at :: int
  tr_updated_at :: int
  tr_outbound :: int

record tables =
  tb_peers :: "peer_row list"
  tb_messages :: "message_row list"
  tb_transfers :: "transfer_row list"

record sock =
  s_sent :: bytes
  s_consumed :: nat

record world =
  tick :: nat
  files :: "string \<rightharpoonup> bytes"
  dirs :: "string set"
  cout :: string
  cerr :: string
  logger :: LoggerState
  cfg :: AppConfig
  ident :: string
  db_open :: bool
  db :: tables
  keypair :: KeyPair
  key_loaded :: bool
  socks :: "nat \<rightharpoonup> sock"
  next_sock :: nat
  closed_socks :: "nat \<rightharpoonup> sock"
  udp_out :: "(string \<times> u16 \<times> bytes) list"
  listen_sock :: "nat option"
  net_port :: u16
  net_running :: bool
  active_count :: int
  beacon_running :: bool

section \<open>Primitives\<close>

text \<open>One call of the environment.\<close>

definition step_tick :: "world \<Rightarrow> world" where
  "step_tick w = w\<lparr>tick := Suc (tick w)\<rparr>"

text \<open>\<open>now_unix()\<close> of \<open>include/types.h\<close>.\<close>

definition now_unix :: "'x env_scheme \<Rightarrow> world \<Rightarrow> int \<times> world" where
  "now_unix E w = (os_now E (tick w), step_tick w)"

text \<open>\<open>RAND_bytes\<close>: \<open>n\<close> bytes of the system's random source.\<close>

definition rand_bytes :: "'x env_scheme \<Rightarrow> nat \<Rightarrow> world \<Rightarrow> bytes \<times> world" where
  "rand_bytes E n w = (map (os_rand E (tick w)) [0..<n], step_tick w)"

definition print :: "string \<Rightarrow> world \<Rightarrow> world" where
  "print s w = w\<lparr>cout := cout w @ s\<rparr>"

definition eprint :: "string \<Rightarrow> world \<Rightarrow> world" where
  "eprint s w = w\<lparr>cerr := cerr w @ s\<rparr>"

text \<open>
  File streams. An \<open>std::ofstream\<close> opens unless the system refuses the path or the path is a
  directory; a write appends what the disk takes. In \<open>trunc\<close> mode the old content is dropped
  at opening; in \<open>app\<close> mode every write goes to the end of the file, whatever \<open>seekp\<close> said
  before. An \<open>std::ifstream\<close> opens an existing, readable file; it also opens a directory, from
  which nothing can be read.
\<close>

datatype open_mode = Trunc | App

definition ofstream_open :: "'x env_scheme \<Rightarrow> string \<Rightarrow> open_mode \<Rightarrow> world \<Rightarrow> bool \<times> world" where
  "ofstream_open E path mode w =
     (if os_writable E (tick w) path \<and> path \<notin> dirs w then
        (True, (step_tick w)\<lparr>files := (files w)(path \<mapsto>
           (case mode of Trunc \<Rightarrow> [] | App \<Rightarrow> (case files w path of None \<Rightarrow> [] | Some b \<Rightarrow> b)))\<rparr>)
      else (False, step_tick w))"

text \<open>A write at position \<open>pos\<close> of a file opened with \<open>mode\<close>; it reports whether the stream
  is still good.\<close>

definition ofstream_write ::
  "'x env_scheme \<Rightarrow> string \<Rightarrow> open_mode \<Rightarrow> nat \<Rightarrow> bytes \<Rightarrow> world \<Rightarrow> bool \<times> world" where
  "ofstream_write E path mode pos d w =
     (let old = (case files w path of None \<Rightarrow> [] | Some b \<Rightarrow> b);
          d' = take (os_disk E (tick w) (length d)) d;
          base = (case mode of App \<Rightarrow> old | Trunc \<Rightarrow> take pos old @ replicate (pos - length old) 0);
          rest = (case mode of App \<Rightarrow> [] | Trunc \<Rightarrow> drop (pos + length d') old)
      in (length d' = length d, (step_tick w)\<lparr>files := (files w)(path \<mapsto> base @ d' @ rest)\<rparr>))"

definition ifstream_open :: "'x env_scheme \<Rightarrow> string \<Rightarrow> world \<Rightarrow> bytes option \<times> world" where
  "ifstream_open E path w =
     ((if \<not> os_readable E (tick w) path then None
       else case files w path of Some d \<Rightarrow> Some d | None \<Rightarrow> if path \<in> dirs w then Some [] else None),
      step_tick w)"

lemma step_tick_simps [simp]:
  "tick (step_tick w) = Suc (tick w)" "files (step_tick w) = files w" "dirs (step_tick w) = dirs w"
  "cout (step_tick w) = cout w" "cerr (step_tick w) = cerr w" "logger (step_tick w) = logger w"
  "cfg (step_tick w) = cfg w" "ident (step_tick w) = ident w" "db_open (step_tick w) = db_open w"
  "db (step_tick w) = db w" "keypair (step_tick w) = keypair w"
  "key_loaded (step_tick w) = key_loaded w" "socks (step_tick w) = socks w"
  "udp_out (step_tick w) = udp_out w" "closed_socks (step_tick w) = closed_socks w" "next_sock (step_tick w) = next_sock w" "listen_sock (step_tick w) = listen_sock w"
  "net_port (step_tick w) = net_port w" "net_running (step_tick w) = net_running w"
  "active_count (step_tick w) = active_count w" "beacon_running (step_tick w) = beacon_running w"
  by (simp_all add: step_tick_def)

lemma print_simps [simp]:
  "tick (print s w) = tick w" "files (print s w) = files w" "dirs (print s w) = dirs w"
  "cout (print s w) = cout w @ s" "cerr (print s w) = cerr w" "logger (print s w) = logger w"
  "cfg (print s w) = cfg w" "ident (print s w) = ident w" "db_open (print s w) = db_open w"
  "db (print s w) = db w" "keypair (print s w) = keypair w" "key_loaded (print s w) = key_loaded w"
  "socks (print s w) = socks w" "closed_socks (print s w) = closed_socks w" "next_sock (print s w) = next_sock w" "udp_out (print s w) = udp_out w"
  "listen_sock (print s w) = listen_sock w" "net_port (print s w) = net_port w"
  "net_running (print s w) = net_running w" "active_count (print s w) = active_count w"
  "beacon_running (print s w) = beacon_running w"
  by (simp_all add: print_def)

lemma eprint_simps [simp]:
  "tick (eprint s w) = tick w" "files (eprint s w) = files w" "dirs (eprint s w) = dirs w"
  "cout (eprint s w) = cout w" "cerr (eprint s w) = cerr w @ s" "logger (eprint s w) = logger w"
  "cfg (eprint s w) = cfg w" "ident (eprint s w) = ident w" "db_open (eprint s w) = db_open w"
  "db (eprint s w) = db w" "keypair (eprint s w) = keypair w" "key_loaded (eprint s w) = key_loaded w"
  "socks (eprint s w) = socks w" "closed_socks (eprint s w) = closed_socks w" "next_sock (eprint s w) = next_sock w" "udp_out (eprint s w) = udp_out w"
  "listen_sock (eprint s w) = listen_sock w" "net_port (eprint s w) = net_port w"
  "net_running (eprint s w) = net_running w" "active_count (eprint s w) = active_count w"
  "beacon_running (eprint s w) = beacon_running w"
  by (simp_all add: eprint_def)

lemma length_rand_bytes [simp]: "length (fst (rand_bytes E n w)) = n"
  by (simp add: rand_bytes_def)

end
