(* ===== verification/Shr_Sample.thy ===== *)
theory Shr_Sample
  imports Shr_World
begin

text \<open>
  One concrete environment, on which the hypotheses of the theorems are shown to hold
  together: a small self-delimiting codec in place of CBOR, a digest that keeps its input, a
  Base64 that writes one character per byte, a cipher with a constant tag, a SQLite that runs
  every statement, a kernel that moves everything it is asked to. It is used to instantiate
  theorems, never in the model.
\<close>

section \<open>A codec for flat objects\<close>

definition enc_str :: "string \<Rightarrow> bytes" where
  "enc_str s = concat (map (\<lambda>c. [1, byte_of_char c]) s) @ [0]"

fun dec_str :: "bytes \<Rightarrow> (string \<times> bytes) option" where
  "dec_str [] = None"
| "dec_str [x] = (if x = 0 then Some ([], []) else None)"
| "dec_str (x # c # r) =
     (if x = 0 then Some ([], c # r)
      else map_option (\<lambda>(s, r). (char_of_byte c # s, r)) (dec_str r))"

definition enc_word :: "u64 \<Rightarrow> bytes" where
  "enc_word n = map (\<lambda>i. ucast (drop_bit (8 * i) n)) [0..<8]"

definition dec_word :: "bytes \<Rightarrow> u64" where
  "dec_word bs = foldr (\<lambda>b acc. push_bit 8 acc OR ucast b) bs 0"

fun enc_val :: "json \<Rightarrow> bytes" where
  "enc_val (JStr s) = 1 # enc_str s"
| "enc_val (JUInt n) = 2 # enc_word n"
| "enc_val (JInt i) = 3 # enc_word (word_of_int i)"
| "enc_val (JBool b) = [4, if b then 1 else 0]"
| "enc_val _ = [0]"

definition dec_val :: "bytes \<Rightarrow> (json \<times> bytes) option" where
  "dec_val bs =
     (case bs of
        [] \<Rightarrow> None
      | t # r \<Rightarrow>
          if t = 1 then map_option (\<lambda>(s, r). (JStr s, r)) (dec_str r)
          else if t = 2 then Some (JUInt (dec_word (take 8 r)), drop 8 r)
          else if t = 3 then Some (JInt (sint (dec_word (take 8 r))), drop 8 r)
          else if t = 4 then Some (JBool (take 1 r = [1]), drop 1 r)
          else Some (JNull, r))"

fun enc_members :: "(string \<times> json) list \<Rightarrow> bytes" where
  "enc_members [] = []"
| "enc_members ((k, v) # kvs) = enc_str k @ enc_val v @ enc_members kvs"

fun dec_members :: "nat \<Rightarrow> bytes \<Rightarrow> (string \<times> json) list option" where
  "dec_members fuel [] = Some []"
| "dec_members 0 bs = None"
| "dec_members (Suc fuel) bs =
     (case dec_str bs of
        None \<Rightarrow> None
      | Some (k, r) \<Rightarrow>
          (case dec_val r of
             None \<Rightarrow> None
           | Some (v, r) \<Rightarrow> map_option (\<lambda>kvs. (k, v) # kvs) (dec_members fuel r)))"

fun sample_encode :: "json \<Rightarrow> bytes" where
  "sample_encode (JObj kvs) = enc_members kvs"
| "sample_encode _ = []"

fun sample_dump :: "json \<Rightarrow> bytes option" where
  "sample_dump (JObj kvs) = (if texts_utf8 kvs then Some (enc_members kvs) else None)"
| "sample_dump _ = Some []"

definition sample_decode :: "bytes \<Rightarrow> json option" where
  "sample_decode bs = map_option JObj (dec_members (length bs) bs)"

fun member :: "json \<Rightarrow> string \<Rightarrow> json option" where
  "member (JObj kvs) k = map_of kvs k"
| "member _ k = None"

text \<open>What survives the codec.\<close>

fun flat_val :: "json \<Rightarrow> json" where
  "flat_val (JInt i) = JInt (sint (word_of_int i :: u64))"
| "flat_val (JObj kvs) = JNull"
| "flat_val v = v"

lemma dec_str_enc [simp]: "dec_str (enc_str s @ r) = Some (s, r)"
proof (induction s)
  case Nil
  then show ?case by (cases r) (auto simp: enc_str_def)
next
  case (Cons c s)
  then show ?case by (simp add: enc_str_def)
qed

lemma enc_word_length [simp]: "length (enc_word n) = 8"
  by (simp add: enc_word_def)

lemma bit_dec_word:
  "i < 64 \<Longrightarrow> bit (dec_word bs) i \<longleftrightarrow> i div 8 < length bs \<and> bit (bs ! (i div 8)) (i mod 8)"
proof (induction bs arbitrary: i)
  case (Cons b bs)
  have hi: "\<not> bit b i" if "8 \<le> i" for i using that by (auto dest: bit_imp_le_length)
  show ?case
  proof (cases "i < 8")
    case True
    then show ?thesis by (simp add: dec_word_def bit_simps)
  next
    case False
    then have "i div 8 = Suc ((i - 8) div 8)" "i mod 8 = (i - 8) mod 8"
      by (simp_all add: div_if mod_if)
    with False Cons show ?thesis by (simp add: dec_word_def bit_simps hi)
  qed
qed (simp add: dec_word_def)

lemma dec_word_enc [simp]: "dec_word (enc_word n) = n"
proof (rule bit_word_eqI)
  fix i assume "i < LENGTH(64)"
  then have i: "i < 64" "i div 8 < 8" by auto
  then show "bit (dec_word (enc_word n)) i = bit n i"
    by (simp add: bit_dec_word enc_word_def bit_simps)
qed

lemma dec_val_enc [simp]: "dec_val (enc_val v @ r) = Some (flat_val v, r)"
  by (cases v) (auto simp: dec_val_def)

lemma enc_str_not_Nil [simp]: "enc_str s \<noteq> []"
  by (simp add: enc_str_def)

lemma dec_members_enc:
  "length kvs \<le> n \<Longrightarrow> dec_members n (enc_members kvs) = Some (map (\<lambda>(k, v). (k, flat_val v)) kvs)"
proof (induction kvs arbitrary: n)
  case (Cons kv kvs)
  then obtain m where m: "n = Suc m" "length kvs \<le> m" by (cases n) auto
  obtain k v where kv: "kv = (k, v)" by force
  obtain b bs where "enc_str k @ enc_val v @ enc_members kvs = b # bs"
    by (cases "enc_str k @ enc_val v @ enc_members kvs") auto
  then have "dec_members n (enc_members (kv # kvs)) =
      (case dec_str (enc_str k @ enc_val v @ enc_members kvs) of
        None \<Rightarrow> None
      | Some (k, r) \<Rightarrow> (case dec_val r of None \<Rightarrow> None
           | Some (v, r) \<Rightarrow> map_option (\<lambda>kvs. (k, v) # kvs) (dec_members m r)))"
    by (simp add: kv m)
  with Cons.IH [OF m(2)] show ?case by (simp add: kv)
qed (cases n; simp)

lemma length_enc_members: "length kvs \<le> length (enc_members kvs)"
proof (induction kvs rule: enc_members.induct)
  case (2 k v kvs)
  moreover have "0 < length (enc_str k)" by simp
  ultimately show ?case by (simp del: length_greater_0_conv)
qed simp

lemma sample_decode_encode:
  "sample_decode (sample_encode (JObj kvs)) = Some (JObj (map (\<lambda>(k, v). (k, flat_val v)) kvs))"
  by (simp add: sample_decode_def dec_members_enc length_enc_members)

section \<open>The environment\<close>

definition as_u64 :: "json option \<Rightarrow> u64 \<Rightarrow> u64 option" where
  "as_u64 v d = (case v of None \<Rightarrow> Some d | Some (JUInt n) \<Rightarrow> Some n | Some (JInt i) \<Rightarrow> Some (word_of_int i) | _ \<Rightarrow> None)"

definition as_int :: "json option \<Rightarrow> int \<Rightarrow> int option" where
  "as_int v d = (case v of None \<Rightarrow> Some d | Some (JInt i) \<Rightarrow> Some i | Some (JUInt n) \<Rightarrow> Some (uint n) | _ \<Rightarrow> None)"

definition as_str :: "json option \<Rightarrow> string \<Rightarrow> string option" where
  "as_str v d = (case v of None \<Rightarrow> Some d | Some (JStr s) \<Rightarrow> Some s | _ \<Rightarrow> None)"

definition sample_env :: env where
  "sample_env =
     \<lparr>to_cbor = sample_encode, from_cbor = sample_decode,
      value_str = (\<lambda>j k. as_str (member j k)), value_u64 = (\<lambda>j k. as_u64 (member j k)),
      value_u16 = (\<lambda>j k d. map_option ucast (as_u64 (member j k) (ucast d))),
      value_i64 = (\<lambda>j k. as_int (member j k)),
      json_parse = sample_decode, json_dump = sample_dump,
      json_contains = (\<lambda>j k. member j k \<noteq> None),
      json_get_str = (\<lambda>j k. as_str (member j k) []),
      json_get_u16 = (\<lambda>j k. map_option ucast (as_u64 (member j k) 0)),
      json_get_int = (\<lambda>j k. as_int (member j k) 0),
      json_get_bool = (\<lambda>j k. case member j k of Some (JBool b) \<Rightarrow> Some b | _ \<Rightarrow> None),
      md_init = [], md_update = (\<lambda>c d. c @ d), md_final = (\<lambda>c. c),
      b64_write = map char_of_byte, b64_read = (\<lambda>s n. take n (map byte_of_char s)),
      hmac_fn = (\<lambda>k d. take 32 (k @ d @ replicate 32 0)), x25519_derive = (\<lambda>a b. map2 (+) a b),
      gcm_seal = (\<lambda>k n p l. (p, replicate 16 7)), gcm_open = (\<lambda>k n c l t. if t = replicate 16 7 then Some c else None),
      os_now = (\<lambda>t. 1000 + int t), os_rand = (\<lambda>t i. word_of_nat (t + i)),
      os_keygen = (\<lambda>t. (replicate 32 1, replicate 32 2)),
      os_getenv = (\<lambda>n. if n = ''HOME'' then Some ''/h'' else None),
      os_localtime = (\<lambda>t. ''now''), os_logtime = (\<lambda>t. ''now''),
      os_permissions = (\<lambda>t p. True), os_canonical = (\<lambda>p. Some p), os_weakly_canonical = (\<lambda>p. Some p), os_readable = (\<lambda>t p. True), os_writable = (\<lambda>t p. True),
      os_disk = (\<lambda>t n. n), os_remove_all = (\<lambda>t p. True),
      os_ifaddrs = [(True, True, False, ''10.0.0.5'')], os_stdin_int = 0, os_progress = (\<lambda>t. (False, 0)),
      os_bind = (\<lambda>t p. True), os_listen = (\<lambda>t. True), os_socket = (\<lambda>t. True),
      os_connect = (\<lambda>t ip p. True), os_send = (\<lambda>t n. int n), os_select = (\<lambda>t. 1),
      os_recv = (\<lambda>t n. int n), peer_stream = (\<lambda>s d. []), sql_open = (\<lambda>t. True),
      sql_errmsg = (\<lambda>t. []), sql_ok = (\<lambda>t. True), sql_order = (\<lambda>t n. [0..<n])\<rparr>"

definition sample_world :: world where
  "sample_world =
     \<lparr>tick = 0, files = Map.empty, dirs = {}, cout = [], cerr = [],
      logger = \<lparr>lg_min_level = LInfo, lg_open = False, lg_out = [], lg_initialized = True\<rparr>,
      cfg = \<lparr>c_user_id = ''node'', c_listen_port = 60000, c_config_dir = ''/h/.shr'',
             c_db_path = ''/h/.shr/shr.db'', c_log_path = ''/h/.shr/shr.log'',
             c_received_dir = ''/h/shr_received'', c_max_concurrent = 5, c_retry_limit = 5,
             c_retry_delay_ms = 2000, c_verbose = False, c_log_level = ''info''\<rparr>,
      ident = ''node'', db_open = True, db = \<lparr>tb_peers = [], tb_messages = [], tb_transfers = []\<rparr>,
      keypair = \<lparr>pub_key = replicate 32 2, priv_key = replicate 32 1\<rparr>, key_loaded = True,
      socks = Map.empty, next_sock = 0, closed_socks = Map.empty, udp_out = [], listen_sock = None,
      net_port = 0, net_running = False, active_count = 0, beacon_running = False\<rparr>"

lemma sample_cbor: "cbor_laws sample_env"
proof -
  have "member_ok sample_env (JObj (map (\<lambda>(k, v). (k, flat_val v)) kvs)) k (map_of kvs k)" for kvs k
  proof -
    have "map_of (map (\<lambda>(k, v). (k, flat_val v)) kvs) k = map_option flat_val (map_of kvs k)"
      by (induction kvs) auto
    moreover have "ucast (ucast d :: u64) = d" for d :: u16
      by (rule bit_word_eqI) (simp add: bit_simps)
    ultimately show ?thesis
      by (auto simp: member_ok_def sample_env_def as_str_def as_u64_def as_int_def signed_of_int
          split: option.split json.split intro!: signed_take_bit_int_eq_self)
  qed
  then show ?thesis
    by (auto simp: cbor_laws_def sample_env_def sample_decode_encode simp del: sample_encode.simps)
qed

lemma sample_digest: "digest_laws sample_env"
proof -
  have "fold (\<lambda>d c. c @ d) ds a = a @ concat ds" for ds and a :: bytes
    by (induction ds arbitrary: a) auto
  then show ?thesis by (simp add: digest_laws_def sample_env_def)
qed

lemma sample_base64: "base64_laws sample_env"
  by (simp add: base64_laws_def sample_env_def)

lemma sample_gcm: "gcm_laws sample_env"
  by (simp add: gcm_laws_def sample_env_def)

lemma sample_reliable [simp]:
  "sql_reliable sample_env" "sql_scans_all sample_env" "sockets_reliable sample_env" "disk_reliable sample_env"
  by (simp_all add: sql_reliable_def sql_scans_all_def sockets_reliable_def disk_reliable_def sample_env_def)

lemma sample_sql_ok: "sql_ok sample_env t"
  by (simp add: sample_env_def)

lemma sample_json_text: "json_text_laws sample_env"
proof -
  have a: "map_of (map (\<lambda>(k, v). (k, flat_val v)) kvs) k = map_option flat_val (map_of kvs k)" for kvs k
    by (induction kvs) auto
  have "get_ok sample_env (JObj (map (\<lambda>(k, v). (k, flat_val v)) kvs)) k v"
    if "distinct (map fst kvs)" "(k, v) \<in> set kvs" for kvs k v
  proof -
    have b: "- (2 ^ 63) \<le> i \<and> i < 2 ^ 63" if "- (2 ^ 31) \<le> i" "i < 2 ^ 31" for i :: int
      using that by simp
    from that have "map_of kvs k = Some v" by simp
    then show ?thesis
      using a [of kvs k]
      by (auto simp: get_ok_def sample_env_def as_str_def as_u64_def as_int_def signed_of_int
          split: json.split intro!: signed_take_bit_int_eq_self)
  qed
  moreover have "k \<in> fst ` set kvs \<longleftrightarrow> member (JObj (map (\<lambda>(k, v). (k, flat_val v)) kvs)) k \<noteq> None"
    for k and kvs :: "(string \<times> json) list"
    using a [of kvs k] by (simp add: map_of_eq_None_iff)
  moreover have "json_parse sample_env (enc_members kvs) = Some (JObj (map (\<lambda>(k, v). (k, flat_val v)) kvs))" for kvs
    using sample_decode_encode [of kvs] by (simp add: sample_env_def)
  moreover have "json_dump sample_env (JObj kvs) = (if texts_utf8 kvs then Some (enc_members kvs) else None)"
    "json_contains sample_env j k \<longleftrightarrow> member j k \<noteq> None" for kvs j k
    by (simp_all add: sample_env_def)
  ultimately show ?thesis unfolding json_text_laws_def by fastforce
qed

lemmas sample_laws [simp] = sample_cbor sample_digest sample_base64 sample_gcm sample_json_text

end
