(* ===== verification/Shr_Utils.thy ===== *)
theory Shr_Utils
  imports Shr_Sample "HOL-Library.Monad_Syntax"
begin

text \<open>
  \<open>src/utils.cxx\<close>: identifiers, hexadecimal and Base64 codecs, digests of buffers and files,
  text formatting, string helpers, file names and paths, ports and interface addresses.
  Definitions first, in the order of the source file, then the lemmas of each group.
\<close>

section \<open>Identifiers\<close>

definition hex2 :: "byte \<Rightarrow> string" where
  "hex2 b = [hex_digit (unat b div 16), hex_digit (unat b mod 16)]"

definition uuid_text :: "bytes \<Rightarrow> string" where
  "uuid_text bs =
     concat (map (\<lambda>i. (if i = 4 \<or> i = 6 \<or> i = 8 \<or> i = 10 then ''-'' else []) @ hex2 (bs ! i)) [0..<16])"

definition generate_uuid :: "'x env_scheme \<Rightarrow> world \<Rightarrow> string \<times> world" where
  "generate_uuid E w =
     (let (bs, w) = rand_bytes E 16 w;
          bs = bs[6 := (bs ! 6 AND 0x0F) OR 0x40];
          bs = bs[8 := (bs ! 8 AND 0x3F) OR 0x80]
      in (uuid_text bs, w))"

text \<open>The pattern \<open>^[0-9a-f]{8}-[0-9a-f]{4}-[0-9a-f]{4}-[0-9a-f]{4}-[0-9a-f]{12}$\<close>, ignoring
  case, against the whole string: one matcher per atom of the pattern.\<close>

fun match_hex :: "nat \<Rightarrow> string \<Rightarrow> string option" where
  "match_hex 0 s = Some s"
| "match_hex (Suc n) [] = None"
| "match_hex (Suc n) (c # s) = (if hex_value c = None then None else match_hex n s)"

fun match_dash :: "string \<Rightarrow> string option" where
  "match_dash [] = None"
| "match_dash (c # s) = (if c = CHR ''-'' then Some s else None)"

definition is_valid_uuid :: "string \<Rightarrow> bool" where
  "is_valid_uuid s =
     ((do { s \<leftarrow> match_hex 8 s; s \<leftarrow> match_dash s;
            s \<leftarrow> match_hex 4 s; s \<leftarrow> match_dash s;
            s \<leftarrow> match_hex 4 s; s \<leftarrow> match_dash s;
            s \<leftarrow> match_hex 4 s; s \<leftarrow> match_dash s;
            match_hex 12 s }) = Some [])"

section \<open>Hexadecimal\<close>

definition hex_encode :: "bytes \<Rightarrow> string" where
  "hex_encode bs = concat (map hex2 bs)"

datatype std_error = InvalidArgument | OutOfRange

definition is_space :: "char \<Rightarrow> bool" where
  "is_space c \<longleftrightarrow> (of_char c :: nat) \<in> {9, 10, 11, 12, 13, 32}"

fun hex_number :: "nat \<Rightarrow> string \<Rightarrow> nat" where
  "hex_number acc [] = acc"
| "hex_number acc (c # s) =
     (case hex_value c of None \<Rightarrow> acc | Some d \<Rightarrow> hex_number (16 * acc + d) s)"

text \<open>\<open>std::stoul(s, nullptr, 16)\<close>: white space, an optional sign, an optional \<open>0x\<close> before a
  digit, then the longest run of digits.\<close>

definition strip_0x :: "string \<Rightarrow> string" where
  "strip_0x s =
     (case s of
        a # b # c # r \<Rightarrow>
          if a = CHR ''0'' \<and> (b = CHR ''x'' \<or> b = CHR ''X'') \<and> hex_value c \<noteq> None
          then c # r else s
      | _ \<Rightarrow> s)"

definition stoul16 :: "string \<Rightarrow> std_error + nat" where
  "stoul16 s =
     (let s = dropWhile is_space s;
          neg = (case s of c # _ \<Rightarrow> c = CHR ''-'' | [] \<Rightarrow> False);
          s = (case s of c # r \<Rightarrow> if c = CHR ''-'' \<or> c = CHR ''+'' then r else s | [] \<Rightarrow> []);
          s = strip_0x s
      in case s of
           [] \<Rightarrow> Inl InvalidArgument
         | c # _ \<Rightarrow>
             if hex_value c = None then Inl InvalidArgument
             else let v = hex_number 0 s in
                  if 2 ^ 64 \<le> v then Inl OutOfRange
                  else Inr (if neg then (2 ^ 64 - v) mod 2 ^ 64 else v))"

fun hex_decode :: "string \<Rightarrow> std_error + bytes" where
  "hex_decode (a # b # r) =
     (case stoul16 [a, b] of
        Inl e \<Rightarrow> Inl e
      | Inr v \<Rightarrow> (case hex_decode r of Inl e \<Rightarrow> Inl e | Inr bs \<Rightarrow> Inr (word_of_nat v # bs)))"
| "hex_decode _ = Inr []"

section \<open>Digests\<close>

definition sha256_bytes :: "'x lib_scheme \<Rightarrow> bytes \<Rightarrow> string" where
  "sha256_bytes L d = hex_encode (md_final L (md_update L (md_init L) d))"

text \<open>The pieces a loop of \<open>read(buf, k)\<close> calls delivers: full blocks and a last short one.\<close>

function file_blocks :: "nat \<Rightarrow> bytes \<Rightarrow> bytes list" where
  "file_blocks k d = (if d = [] \<or> k = 0 then [] else take k d # file_blocks k (drop k d))"
  by pat_completeness auto
termination
  by (relation "measure (\<lambda>(k, d). length d)") auto

declare file_blocks.simps [simp del]

definition sha256_file :: "'x env_scheme \<Rightarrow> string \<Rightarrow> world \<Rightarrow> string \<times> world" where
  "sha256_file E path w =
     (let (f, w) = ifstream_open E path w in
      case f of
        None \<Rightarrow> ('''', w)
      | Some d \<Rightarrow>
          (hex_encode (md_final E
             (fold (\<lambda>blk ctx. md_update E ctx blk) (file_blocks 65536 d) (md_init E))), w))"

section \<open>Base64\<close>

definition base64_encode :: "'x lib_scheme \<Rightarrow> bytes \<Rightarrow> string" where
  "base64_encode L d = b64_write L d"

definition base64_decode :: "'x lib_scheme \<Rightarrow> string \<Rightarrow> bytes" where
  "base64_decode L s = b64_read L s (length s)"

section \<open>Formatting\<close>

fun bit_length :: "nat \<Rightarrow> nat" where
  "bit_length n = (if n = 0 then 0 else Suc (bit_length (n div 2)))"

declare bit_length.simps [simp del]

text \<open>Division rounded to nearest, ties to even: the rounding of \<open>static_cast<double>\<close> and of
  fixed-precision output.\<close>

definition round_half_even :: "nat \<Rightarrow> nat \<Rightarrow> nat" where
  "round_half_even a b =
     (let q = a div b; r = a mod b in
      if 2 * r > b \<or> (2 * r = b \<and> odd q) then Suc q else q)"

definition u64_to_double :: "u64 \<Rightarrow> nat" where
  "u64_to_double n =
     (let k = bit_length (unat n) - 53 in round_half_even (unat n) (2 ^ k) * 2 ^ k)"

text \<open>\<open>while (val >= 1024.0 && idx < 4)\<close>; dividing a double by 1024 is exact, so after \<open>idx\<close>
  rounds \<open>val\<close> is \<open>v / 1024 ^ idx\<close>.\<close>

function unit_index :: "nat \<Rightarrow> nat \<Rightarrow> nat" where
  "unit_index v idx = (if 1024 ^ Suc idx \<le> v \<and> idx < 4 then unit_index v (Suc idx) else idx)"
  by pat_completeness auto
termination
  by (relation "measure (\<lambda>(v, idx). 4 - idx)") auto

declare unit_index.simps [simp del]

definition units :: "string list" where
  "units = [''B'', ''KB'', ''MB'', ''GB'', ''TB'']"

definition fixed2 :: "nat \<Rightarrow> string" where
  "fixed2 h = show_nat (h div 100) @ ''.'' @ [char_of (48 + h div 10 mod 10), char_of (48 + h mod 10)]"

definition format_bytes :: "u64 \<Rightarrow> string" where
  "format_bytes n =
     (let v = u64_to_double n; idx = unit_index v 0
      in (if idx > 0 then fixed2 (round_half_even (v * 100) (1024 ^ idx)) else show_nat v)
         @ '' '' @ units ! idx)"

text \<open>A finite \<open>double\<close>: a mantissa below 2 to the 53rd in size and a power of two.\<close>

record double =
  d_mant :: int
  d_exp :: int

text \<open>Division by a positive whole number, rounded to 53 bits.\<close>

definition d_div :: "double \<Rightarrow> nat \<Rightarrow> double" where
  "d_div d b =
     (let a = nat \<bar>d_mant d\<bar>;
          s = 53 + bit_length b - bit_length a;
          s = (if b * 2 ^ 53 \<le> a * 2 ^ s then s - 1 else s)
      in \<lparr>d_mant = sgn (d_mant d) * int (round_half_even (a * 2 ^ s) b), d_exp = d_exp d - int s\<rparr>)"

definition d_trunc :: "double \<Rightarrow> int" where
  "d_trunc d =
     (let a = nat \<bar>d_mant d\<bar>
      in sgn (d_mant d) * int (if 0 \<le> d_exp d then a * 2 ^ nat (d_exp d) else a div 2 ^ nat (- d_exp d)))"

text \<open>The conversion to \<open>int\<close>; a value out of range is undefined behaviour (\<open>None\<close>).\<close>

definition d_to_int :: "double \<Rightarrow> int option" where
  "d_to_int d = (let v = d_trunc d in if - (2 ^ 31) \<le> v \<and> v < 2 ^ 31 then Some v else None)"

text \<open>\<open>%\<close> of two \<open>int\<close> values: the result has the sign of the left operand.\<close>

definition c_mod :: "int \<Rightarrow> int \<Rightarrow> int" where
  "c_mod a b = sgn a * (\<bar>a\<bar> mod \<bar>b\<bar>)"

definition format_duration :: "double \<Rightarrow> string option" where
  "format_duration seconds =
     do { h \<leftarrow> d_to_int (d_div seconds 3600);
          m \<leftarrow> d_to_int (d_div seconds 60);
          s \<leftarrow> d_to_int seconds;
          let m = c_mod m 60;
          let s = c_mod s 60;
          Some ((if h > 0 then show_int h @ ''h '' else []) @ (if m > 0 then show_int m @ ''m '' else [])
                @ show_int s @ ''s'') }"

text \<open>\<open>format_speed\<close> takes a \<open>double\<close>; its argument here is the value after the cast to
  \<open>uint64_t\<close>.\<close>

definition format_speed :: "u64 \<Rightarrow> string" where
  "format_speed n = format_bytes n @ ''/s''"

definition timestamp_to_str :: "'x env_scheme \<Rightarrow> int \<Rightarrow> string" where
  "timestamp_to_str E ts = os_localtime E ts"

definition current_timestamp_str :: "'x env_scheme \<Rightarrow> world \<Rightarrow> string \<times> world" where
  "current_timestamp_str E w = (let (t, w) = now_unix E w in (timestamp_to_str E t, w))"

section \<open>Paths and files\<close>

text \<open>\<open>operator/\<close> and \<open>filename()\<close> of \<open>std::filesystem::path\<close> (POSIX separators).\<close>

definition path_append :: "string \<Rightarrow> string \<Rightarrow> string" where
  "path_append a b =
     (if b \<noteq> [] \<and> hd b = CHR ''/'' then b
      else if a = [] \<or> last a = CHR ''/'' then a @ b
      else a @ ''/'' @ b)"

definition path_filename :: "string \<Rightarrow> string" where
  "path_filename p = rev (takeWhile (\<lambda>c. c \<noteq> CHR ''/'') (rev p))"

definition create_directories :: "string \<Rightarrow> world \<Rightarrow> world" where
  "create_directories d w = w\<lparr>dirs := insert d (dirs w)\<rparr>"

definition home_dir :: "'x env_scheme \<Rightarrow> string" where
  "home_dir E = (case os_getenv E ''HOME'' of Some h \<Rightarrow> h | None \<Rightarrow> ''.'')"

definition shr_config_dir :: "'x env_scheme \<Rightarrow> world \<Rightarrow> string \<times> world" where
  "shr_config_dir E w = (let dir = path_append (home_dir E) ''.shr'' in (dir, create_directories dir w))"

definition shr_received_dir :: "'x env_scheme \<Rightarrow> world \<Rightarrow> string \<times> world" where
  "shr_received_dir E w =
     (let dir = path_append (home_dir E) ''shr_received'' in (dir, create_directories dir w))"

definition bad_name_char :: "char \<Rightarrow> bool" where
  "bad_name_char c \<longleftrightarrow> c \<in> {CHR ''/'', CHR 0x5C, CHR '':'', CHR ''*'', CHR ''?'', CHR 0x22,
     CHR ''<'', CHR ''>'', CHR ''|''}"

definition sanitize_filename :: "string \<Rightarrow> string" where
  "sanitize_filename name =
     (let out = map (\<lambda>c. if bad_name_char c then CHR ''_'' else c) name in
      if out = [] \<or> out = ''.'' \<or> out = ''..'' then ''received_file'' else out)"

definition read_file_str :: "'x env_scheme \<Rightarrow> string \<Rightarrow> world \<Rightarrow> string \<times> world" where
  "read_file_str E path w =
     (let (f, w) = ifstream_open E path w in
      (case f of None \<Rightarrow> '''' | Some d \<Rightarrow> map char_of_byte d, w))"

definition write_file_str :: "'x env_scheme \<Rightarrow> string \<Rightarrow> string \<Rightarrow> world \<Rightarrow> bool \<times> world" where
  "write_file_str E path content w =
     (let (ok, w) = ofstream_open E path Trunc w in
      if \<not> ok then (False, w) else ofstream_write E path Trunc 0 (map byte_of_char content) w)"

definition trim_char :: "char \<Rightarrow> bool" where
  "trim_char c \<longleftrightarrow> c = CHR '' '' \<or> c = CHR 0x09 \<or> c = CHR 0x0D \<or> c = CHR 0x0A"

definition trim :: "string \<Rightarrow> string" where
  "trim s = rev (dropWhile trim_char (rev (dropWhile trim_char s)))"

text \<open>\<open>std::getline\<close> with a delimiter until the stream is exhausted: a text that ends with the
  delimiter gives no empty last token.\<close>

function split :: "string \<Rightarrow> char \<Rightarrow> string list" where
  "split s d =
     (if s = [] then []
      else takeWhile (\<lambda>c. c \<noteq> d) s # split (drop 1 (dropWhile (\<lambda>c. c \<noteq> d) s)) d)"
  by pat_completeness auto
termination
proof (relation "measure (\<lambda>(s, d). length s)")
  fix s :: string and d
  assume "s \<noteq> []"
  then show "((drop 1 (dropWhile (\<lambda>c. c \<noteq> d) s), d), s, d) \<in> measure (\<lambda>(s, d). length s)"
    using length_dropWhile_le [of "\<lambda>c. c \<noteq> d" s] by (cases s) (auto simp: less_Suc_eq_le)
qed simp

declare split.simps [simp del]

fun join :: "string list \<Rightarrow> string \<Rightarrow> string" where
  "join [] sep = []"
| "join [x] sep = x"
| "join (x # y # r) sep = x @ sep @ join (y # r) sep"

text \<open>The elements a \<open>std::filesystem::path\<close> iterates over: the root directory, the names, and an
  empty element after a trailing separator.\<close>

definition path_elems :: "string \<Rightarrow> string list" where
  "path_elems p =
     (let names = filter (\<lambda>x. x \<noteq> []) (split p CHR ''/'')
      in (if p \<noteq> [] \<and> hd p = CHR ''/'' then [''/''] else [])
         @ names @ (if names \<noteq> [] \<and> last p = CHR ''/'' then [[]] else []))"

fun mismatch :: "'a list \<Rightarrow> 'a list \<Rightarrow> 'a list \<times> 'a list" where
  "mismatch (x # xs) (y # ys) = (if x = y then mismatch xs ys else (x # xs, y # ys))"
| "mismatch xs ys = (xs, ys)"

text \<open>\<open>path::lexically_relative\<close>: from the first element where the two paths differ, one \<open>..\<close> for
  each element left of the base and then the elements left of the path. The empty path stands
  for no answer.\<close>

definition up_levels :: "string list \<Rightarrow> int" where
  "up_levels es =
     sum_list (map (\<lambda>x. if x = ''..'' then - 1 else if x \<noteq> [] \<and> x \<noteq> ''.'' then 1 else 0) es)"

definition lexically_relative :: "string \<Rightarrow> string \<Rightarrow> string" where
  "lexically_relative p base =
     (if (p \<noteq> [] \<and> hd p = CHR ''/'') \<noteq> (base \<noteq> [] \<and> hd base = CHR ''/'') then []
      else let (a, b) = mismatch (path_elems p) (path_elems base); n = up_levels b in
        if a = [] \<and> b = [] then ''.''
        else if n = 0 \<and> (a = [] \<or> hd a = []) then ''.''
        else if n \<ge> 0 then fold (\<lambda>x ret. path_append ret x) (replicate (nat n) ''..'' @ a) []
        else [])"

fun contains_dotdot :: "string \<Rightarrow> bool" where
  "contains_dotdot (a # b # s) \<longleftrightarrow> (a = CHR ''.'' \<and> b = CHR ''.'') \<or> contains_dotdot (b # s)"
| "contains_dotdot _ \<longleftrightarrow> False"

text \<open>Both canonicalisations throw where the path cannot be resolved.\<close>

datatype fs_error = FilesystemError

definition path_is_safe :: "'x env_scheme \<Rightarrow> string \<Rightarrow> string \<Rightarrow> fs_error + bool" where
  "path_is_safe E base target =
     (case os_canonical E base of
        None \<Rightarrow> Inl FilesystemError
      | Some b \<Rightarrow>
          (case os_weakly_canonical E target of
             None \<Rightarrow> Inl FilesystemError
           | Some t \<Rightarrow>
               let rel = lexically_relative t b in Inr (rel \<noteq> [] \<and> \<not> contains_dotdot rel)))"

definition file_size :: "string \<Rightarrow> world \<Rightarrow> u64" where
  "file_size path w = (case files w path of None \<Rightarrow> 0 | Some d \<Rightarrow> word_of_nat (length d))"

definition file_exists :: "string \<Rightarrow> world \<Rightarrow> bool" where
  "file_exists path w \<longleftrightarrow> files w path \<noteq> None \<or> path \<in> dirs w"

section \<open>Ports and addresses\<close>

text \<open>\<open>for (uint16_t p = start; p <= end; ++p)\<close>: \<open>p\<close> wraps around at 65535.\<close>

partial_function (option) find_free_port ::
  "'x env_scheme \<Rightarrow> u16 \<Rightarrow> u16 \<Rightarrow> world \<Rightarrow> (u16 \<times> world) option" where
  "find_free_port E p stop w =
     (if p \<le> stop then
        (if os_bind E (tick w) p then Some (p, step_tick w)
         else find_free_port E (p + 1) stop (step_tick w))
      else Some (0, w))"

definition get_local_ips :: "'x env_scheme \<Rightarrow> string list" where
  "get_local_ips E =
     map (\<lambda>(inet, up, loopback, text). text)
       (filter (\<lambda>(inet, up, loopback, text). inet \<and> up \<and> \<not> loopback) (os_ifaddrs E))"

definition get_local_ip :: "'x env_scheme \<Rightarrow> string" where
  "get_local_ip E = (case get_local_ips E of [] \<Rightarrow> ''127.0.0.1'' | ip # _ \<Rightarrow> ip)"

definition get_broadcast_addr :: "string \<Rightarrow> string \<Rightarrow> string" where
  "get_broadcast_addr ip netmask =
     (case split ip CHR ''.'' of
        [a, b, c, d] \<Rightarrow> a @ ''.'' @ b @ ''.'' @ c @ ''.255''
      | _ \<Rightarrow> ''255.255.255.255'')"

section \<open>Lemmas\<close>

lemma unat_byte_less: "unat (b :: byte) < 256"
  using unsigned_less [of b, where ?'a = nat] by simp

lemma unat_byte_div [simp]: "unat (b :: byte) div 16 < 16"
  using unat_byte_less [of b] by (simp add: less_mult_imp_div_less)

lemma hex2_length [simp]: "length (hex2 b) = 2"
  by (simp add: hex2_def)

lemma hex_value_hex2: "c \<in> set (hex2 b) \<Longrightarrow> hex_value c \<noteq> None"
  by (auto simp: hex2_def)

lemma match_hex_append:
  "length h = n \<Longrightarrow> (\<And>c. c \<in> set h \<Longrightarrow> hex_value c \<noteq> None) \<Longrightarrow> match_hex n (h @ s) = Some s"
  by (induction h arbitrary: n) auto

lemma match_hex_hex2: "2 \<le> n \<Longrightarrow> match_hex n (hex2 b @ s) = match_hex (n - 2) s"
  by (auto simp: hex2_def numeral_2_eq_2 dest!: le_Suc_ex)

lemma match_hex_Some_length: "match_hex n s = Some r \<Longrightarrow> length s = n + length r"
  by (induction n s rule: match_hex.induct) (auto split: if_splits)

lemma match_dash_Some: "match_dash s = Some r \<longleftrightarrow> s = CHR ''-'' # r"
  by (cases s) auto

lemma uuid_text_valid:
  "is_valid_uuid (uuid_text bs)"
proof -
  have upt: "[0..<16] = [0, 1, 2, 3, 4, 5, 6, 7, 8, 9, 10, 11, 12, 13, 14, 15]"
    by (simp add: upt_rec)
  have last: "match_hex 2 (hex2 b) = Some []" for b
    using match_hex_hex2 [of 2 b "[]"] by simp
  show ?thesis
    unfolding is_valid_uuid_def uuid_text_def upt
    by (simp add: match_hex_hex2 last)
qed

lemma is_valid_uuid_length: "is_valid_uuid s \<Longrightarrow> length s = 36"
  by (auto simp: is_valid_uuid_def bind_eq_Some_conv match_dash_Some dest!: match_hex_Some_length)

lemma hex_digit_plain:
  "n < 16 \<Longrightarrow> \<not> is_space (hex_digit n) \<and> hex_digit n \<noteq> CHR ''-'' \<and> hex_digit n \<noteq> CHR ''+''"
  by (auto simp: hex_digit_def is_space_def dest!: arg_cong [where f = "of_char :: char \<Rightarrow> nat"])

lemma hex2_decode: "stoul16 (hex2 b) = Inr (unat b)"
proof -
  let ?h = "unat b div 16" and ?l = "unat b mod 16"
  have "?h < 16" "?l < 16" by simp_all
  then have "stoul16 (hex2 b) = Inr (16 * ?h + ?l)"
    using hex_digit_plain [of ?h] unat_byte_less [of b]
    by (simp add: stoul16_def hex2_def strip_0x_def Let_def)
  then show ?thesis by simp
qed

lemma hex_decode_encode: "hex_decode (hex_encode bs) = Inr bs"
proof (induction bs)
  case Nil
  then show ?case by (simp add: hex_encode_def)
next
  case (Cons b bs)
  have "stoul16 [hex_digit (unat b div 16), hex_digit (unat b mod 16)] = Inr (unat b)"
    using hex2_decode [of b] by (simp add: hex2_def)
  with Cons show ?case by (simp add: hex_encode_def hex2_def)
qed

lemma file_blocks_concat: "0 < k \<Longrightarrow> concat (file_blocks k d) = d"
proof (induction k d rule: file_blocks.induct)
  case (1 k d)
  then show ?case by (subst file_blocks.simps) auto
qed

lemma sha256_file_eq:
  assumes "digest_laws E"
  shows "sha256_file E path w =
    ((case fst (ifstream_open E path w) of None \<Rightarrow> '''' | Some d \<Rightarrow> sha256_bytes E d), step_tick w)"
  using assms
  by (auto simp: sha256_file_def ifstream_open_def sha256_bytes_def digest_laws_def
      file_blocks_concat Let_def split: option.splits)

lemma generate_uuid_world: "snd (generate_uuid E w) = step_tick w"
  by (simp add: generate_uuid_def rand_bytes_def Let_def)

lemma hex_encode_Cons: "hex_encode (b # bs) = hex2 b @ hex_encode bs"
  by (simp add: hex_encode_def)

lemma hex_encode_inject: "hex_encode a = hex_encode b \<longleftrightarrow> a = b"
  by (metis hex_decode_encode sum.inject(2))

lemma hex_encode_length: "length (hex_encode bs) = 2 * length bs"
  by (induction bs) (auto simp: hex_encode_def hex2_def)

lemma sanitize_no_bad: "c \<in> set (sanitize_filename n) \<Longrightarrow> \<not> bad_name_char c"
  by (auto simp: sanitize_filename_def Let_def bad_name_char_def split: if_splits)

lemma sanitize_not_special: "sanitize_filename n \<noteq> [] \<and> sanitize_filename n \<noteq> ''.'' \<and> sanitize_filename n \<noteq> ''..''"
  by (simp add: sanitize_filename_def Let_def)

lemma sanitize_id:
  "(\<And>c. c \<in> set n \<Longrightarrow> \<not> bad_name_char c) \<Longrightarrow> n \<noteq> [] \<Longrightarrow> n \<noteq> ''.'' \<Longrightarrow> n \<noteq> ''..'' \<Longrightarrow> sanitize_filename n = n"
proof -
  assume a: "\<And>c. c \<in> set n \<Longrightarrow> \<not> bad_name_char c" and n: "n \<noteq> []" "n \<noteq> ''.''" "n \<noteq> ''..''"
  have "map (\<lambda>c. if bad_name_char c then CHR ''_'' else c) n = n"
    using a by (simp add: map_idI)
  with n show ?thesis by (simp add: sanitize_filename_def Let_def)
qed

lemma sanitize_idem: "sanitize_filename (sanitize_filename n) = sanitize_filename n"
  by (rule sanitize_id) (use sanitize_no_bad sanitize_not_special in auto)

lemma takeWhile_rev_append:
  "x \<notin> set b \<Longrightarrow> takeWhile (\<lambda>c. c \<noteq> x) (rev b @ x # r) = rev b"
  by (subst takeWhile_append2) auto

lemma takeWhile_rev_all: "x \<notin> set b \<Longrightarrow> takeWhile (\<lambda>c. c \<noteq> x) (rev b) = rev b"
  by (subst takeWhile_eq_all_conv) auto

lemma path_append_name:
  assumes "CHR ''/'' \<notin> set n" "n \<noteq> []"
  shows "path_append d n = (if d = [] \<or> last d = CHR ''/'' then d @ n else d @ ''/'' @ n)"
  using assms by (cases n) (auto simp: path_append_def)

lemma path_filename_append:
  assumes "CHR ''/'' \<notin> set n" "n \<noteq> []"
  shows "path_filename (path_append d n) = n"
proof -
  have "path_filename (d @ n) = n" if "d = [] \<or> last d = CHR ''/''"
    using that assms by (cases d rule: rev_cases) (auto simp: path_filename_def takeWhile_rev_append takeWhile_rev_all)
  then show ?thesis
    using assms by (auto simp: path_append_name path_filename_def takeWhile_rev_append)
qed

lemma join_split:
  assumes "s = [] \<or> last s \<noteq> d"
  shows "join (split s d) [d] = s"
  using assms
proof (induction s d rule: split.induct)
  case (1 s d)
  show ?case
  proof (cases "s = []")
    case True
    then show ?thesis by (simp add: split.simps)
  next
    case False
    let ?r = "dropWhile (\<lambda>c. c \<noteq> d) s"
    show ?thesis
    proof (cases ?r)
      case Nil
      then have "takeWhile (\<lambda>c. c \<noteq> d) s = s"
        by (metis takeWhile_eq_all_conv dropWhile_eq_Nil_conv)
      then have "split s d = [s]"
        using False Nil split.simps [of s d] split.simps [of "[]" d] by (metis drop_Nil)
      then show ?thesis by simp
    next
      case (Cons x r)
      then have x: "x = d" and s: "s = takeWhile (\<lambda>c. c \<noteq> d) s @ d # r"
        using hd_dropWhile [of "\<lambda>c. c \<noteq> d" s] takeWhile_dropWhile_id [of "\<lambda>c. c \<noteq> d" s] by auto
      from s "1.prems" False have r: "r \<noteq> [] \<and> last r \<noteq> d"
        by (metis last_ConsL last_ConsR last_append list.distinct(1))
      with Cons False "1.IH" have IH: "join (split r d) [d] = r" by simp
      from r obtain y ys where "split r d = y # ys" by (simp add: split.simps [of r d])
      with False Cons IH s show ?thesis by (simp add: split.simps [of s d])
    qed
  qed
qed

lemma split_tokens: "t \<in> set (split s d) \<Longrightarrow> d \<notin> set t"
proof (induction s d rule: split.induct)
  case (1 s d)
  then show ?case
    by (auto simp: split.simps [of s d] dest: set_takeWhileD split: if_splits)
qed

lemma trim_ends:
  "trim s = [] \<or> (\<not> trim_char (hd (trim s)) \<and> \<not> trim_char (last (trim s)))"
proof -
  let ?a = "dropWhile trim_char s"
  let ?b = "dropWhile trim_char (rev ?a)"
  show ?thesis
  proof (cases "?b = []")
    case True
    then show ?thesis by (simp add: trim_def del: dropWhile_eq_Nil_conv)
  next
    case False
    then have last: "\<not> trim_char (hd ?b)" by (rule hd_dropWhile)
    obtain p where "rev ?a = p @ ?b" by (metis takeWhile_dropWhile_id)
    then have a: "?a = rev ?b @ rev p" by (metis rev_append rev_rev_ident)
    with False have "?a \<noteq> []" by force
    then have "\<not> trim_char (hd ?a)" by (rule hd_dropWhile)
    moreover have "hd ?a = hd (rev ?b)" using a False by (metis hd_append2 rev_is_Nil_conv)
    ultimately have "\<not> trim_char (hd (rev ?b))" by simp
    then show ?thesis using last False unfolding trim_def by (simp only: last_rev simp_thms)
  qed
qed

lemma base64_roundtrip: "base64_laws L \<Longrightarrow> base64_decode L (base64_encode L d) = d"
  by (simp add: base64_laws_def base64_decode_def base64_encode_def)

lemma high_nibble: "unat (drop_bit 4 (b :: byte)) = unat b div 16"
  by (simp only: unat_drop_bit_eq) (simp add: drop_bit_eq_div)

lemma version_nibble: "unat (((x :: byte) AND 0x0F) OR 0x40) div 16 = 4"
proof -
  have "drop_bit 4 ((x AND 0x0F) OR 0x40) = (4 :: byte)"
    by (simp add: drop_bit_or drop_bit_and)
  then have "unat (drop_bit 4 ((x AND 0x0F) OR 0x40)) = 4" by simp
  then show ?thesis by (simp only: high_nibble)
qed

lemma variant_nibble: "unat (((x :: byte) AND 0x3F) OR 0x80) div 16 \<in> {8, 9, 10, 11}"
proof -
  let ?y = "take_bit 2 (drop_bit 4 x)"
  have "drop_bit 4 ((x AND 0x3F) OR 0x80) = (drop_bit 4 x AND mask 2) OR 8"
    by (simp add: drop_bit_or drop_bit_and mask_eq_exp_minus_1)
  also have "\<dots> = ?y OR 8" by (simp add: take_bit_eq_mask)
  finally have d: "unat (drop_bit 4 ((x AND 0x3F) OR 0x80)) = unat ?y OR 8"
    by (simp add: unsigned_or_eq)
  have "unat ?y < 4"
    by (simp only: unsigned_take_bit_eq) (simp add: take_bit_eq_mod)
  then have "unat ?y \<in> {0, 1, 2, 3}" by auto
  then have "unat ?y OR 8 \<in> {8, 9, 10, 11}" by auto
  with d show ?thesis by (simp only: high_nibble)
qed

lemma uuid_text_nth: "uuid_text bs ! 14 = hex_digit (unat (bs ! 6) div 16)" "uuid_text bs ! 19 = hex_digit (unat (bs ! 8) div 16)"
proof -
  have upt: "[0..<16] = [0, 1, 2, 3, 4, 5, 6, 7, 8, 9, 10, 11, 12, 13, 14, 15]"
    by (simp add: upt_rec)
  show "uuid_text bs ! 14 = hex_digit (unat (bs ! 6) div 16)"
    unfolding uuid_text_def upt by (simp add: hex2_def)
  show "uuid_text bs ! 19 = hex_digit (unat (bs ! 8) div 16)"
    unfolding uuid_text_def upt by (simp add: hex2_def)
qed

lemma find_free_port_returns:
  assumes "stop < 65535"
  shows "\<exists>r. find_free_port E p stop w = Some r \<and>
     (fst r = 0 \<or> p \<le> fst r \<and> fst r \<le> stop \<and> (\<exists>t. os_bind E t (fst r)))"
proof (induction "unat stop + 1 - unat p" arbitrary: p w rule: less_induct)
  case less
  show ?case
  proof (cases "p \<le> stop \<and> \<not> os_bind E (tick w) p")
    case False
    then show ?thesis by (subst find_free_port.simps) auto
  next
    case True
    then have "unat p < 65535" using assms by (simp add: word_le_nat_alt word_less_nat_alt)
    then have u: "unat (p + 1) = unat p + 1" by (simp add: unat_word_ariths)
    with True have "unat stop + 1 - unat (p + 1) < unat stop + 1 - unat p"
      by (simp add: word_le_nat_alt) arith
    from less [OF this, of "step_tick w"] obtain r where
      r: "find_free_port E (p + 1) stop (step_tick w) = Some r"
        "fst r = 0 \<or> p + 1 \<le> fst r \<and> fst r \<le> stop \<and> (\<exists>t. os_bind E t (fst r))" by blast
    moreover have "p \<le> p + 1" using u by (simp add: word_le_nat_alt)
    ultimately show ?thesis using True by (subst find_free_port.simps) (auto intro: order_trans)
  qed
qed

lemma find_free_port_loops:
  assumes "\<forall>t p. \<not> os_bind E t p"
  shows "find_free_port E p 65535 w = None"
proof (rule ccontr)
  assume "find_free_port E p 65535 w \<noteq> None"
  then obtain r where ret: "find_free_port E p 65535 w = Some r" by blast
  have "(65535 :: u16) = 65535 \<and> E = E \<longrightarrow> False"
  proof (rule find_free_port.raw_induct [where P = "\<lambda>E' p stop w r. stop = 65535 \<and> E' = E \<longrightarrow> False", OF _ ret])
    fix f and E' :: "'a env_scheme" and p stop :: u16 and w :: world and r
    assume IH: "\<And>E' p stop w r. f E' p stop w = Some r \<Longrightarrow> stop = 65535 \<and> E' = E \<longrightarrow> False"
      and eq: "(if p \<le> stop then if os_bind E' (tick w) p then Some (p, step_tick w) else f E' (p + 1) stop (step_tick w) else Some (0, w)) = Some r"
    show "stop = 65535 \<and> E' = E \<longrightarrow> False"
    proof
      assume s: "stop = 65535 \<and> E' = E"
      have "p \<le> (65535 :: u16)" using unsigned_less [of p, where ?'a = nat] by (simp add: word_le_nat_alt)
      with s assms eq have "f E' (p + 1) stop (step_tick w) = Some r" by auto
      with IH s show False by blast
    qed
  qed
  then show False by simp
qed

lemma round_half_even_error:
  assumes "0 < b"
  shows "2 * (round_half_even a b * b) \<le> 2 * a + b" "2 * a \<le> 2 * (round_half_even a b * b) + b"
proof -
  define c m where "c = a div b * b" and "m = a mod b"
  have a: "a = c + m" and m: "m < b"
    using assms by (simp_all add: c_def m_def)
  have r: "round_half_even a b * b = (if 2 * m > b \<or> (2 * m = b \<and> odd (a div b)) then c + b else c)"
    by (simp add: round_half_even_def Let_def c_def m_def)
  show "2 * (round_half_even a b * b) \<le> 2 * a + b" "2 * a \<le> 2 * (round_half_even a b * b) + b"
    unfolding r using a m by auto
qed

lemma unit_index_le: "idx \<le> 4 \<Longrightarrow> unit_index v idx \<le> 4"
proof (induction v idx rule: unit_index.induct)
  case (1 v idx)
  then show ?case by (subst unit_index.simps) auto
qed

lemma unit_index_spec:
  "idx \<le> 4 \<Longrightarrow> idx = 0 \<or> 1024 ^ idx \<le> v \<Longrightarrow>
   (unit_index v idx = 0 \<or> 1024 ^ unit_index v idx \<le> v) \<and> (unit_index v idx < 4 \<longrightarrow> v < 1024 ^ Suc (unit_index v idx))"
proof (induction v idx rule: unit_index.induct)
  case (1 v idx)
  show ?case
  proof (cases "1024 ^ Suc idx \<le> v \<and> idx < 4")
    case True
    then have "unit_index v idx = unit_index v (Suc idx)" by (simp add: unit_index.simps [of v idx])
    with "1.IH" [OF True] True show ?thesis by simp
  next
    case False
    then have "unit_index v idx = idx" by (subst unit_index.simps) auto
    with False "1.prems" show ?thesis by auto
  qed
qed

lemma bit_length_bound: "n < 2 ^ bit_length n"
proof (induction n rule: bit_length.induct)
  case (1 n)
  then show ?case by (subst bit_length.simps) auto
qed

lemma bit_length_le: "n < 2 ^ k \<Longrightarrow> bit_length n \<le> k"
proof (induction n arbitrary: k rule: bit_length.induct)
  case (1 n)
  show ?case
  proof (cases "n = 0")
    case True then show ?thesis by (simp add: bit_length.simps)
  next
    case False
    with "1.prems" obtain k' where k: "k = Suc k'" by (cases k) auto
    with "1.prems" have "n div 2 < 2 ^ k'" by simp
    from "1.IH" [OF False this] k False show ?thesis by (subst bit_length.simps) simp
  qed
qed

lemma u64_to_double_exact: "unat n < 2 ^ 53 \<Longrightarrow> u64_to_double n = unat n"
  using bit_length_le [of "unat n" 53] by (simp add: u64_to_double_def round_half_even_def)

lemma split_Cons_hd: "t \<in> set (split s d) \<Longrightarrow> t \<noteq> [] \<Longrightarrow> hd t \<noteq> d"
  using split_tokens by (metis hd_in_set)

lemma mismatch_eq: "mismatch xs ys = (a, b) \<Longrightarrow> \<exists>pre. xs = pre @ a \<and> ys = pre @ b"
proof (induction xs ys rule: mismatch.induct)
  case (1 x xs y ys)
  then show ?case by (auto split: if_splits)
qed auto

lemma path_append_relative: "x = [] \<or> hd x \<noteq> CHR ''/'' \<Longrightarrow> \<exists>s. path_append a x = a @ s"
  by (auto simp: path_append_def)

lemma fold_path_append_prefix:
  "\<forall>x \<in> set xs. x = [] \<or> hd x \<noteq> CHR ''/'' \<Longrightarrow> \<exists>s. fold (\<lambda>x ret. path_append ret x) xs a = a @ s"
proof (induction xs arbitrary: a)
  case (Cons x xs)
  then obtain s where "path_append a x = a @ s" using path_append_relative by (metis list.set_intros(1))
  with Cons show ?case by (metis append_assoc fold_simps(2) list.set_intros(2))
qed simp

lemma up_levels_count:
  "\<forall>x \<in> set es. x \<noteq> [] \<and> x \<noteq> ''.'' \<and> x \<noteq> ''..'' \<Longrightarrow> up_levels es = int (length es)"
  by (induction es) (auto simp: up_levels_def)

lemma path_elems_relative:
  "x \<in> set (drop 1 (path_elems p)) \<or> (x \<in> set (path_elems p) \<and> \<not> (p \<noteq> [] \<and> hd p = CHR ''/''))
   \<Longrightarrow> x = [] \<or> hd x \<noteq> CHR ''/''"
proof -
  assume x: "x \<in> set (drop 1 (path_elems p)) \<or> (x \<in> set (path_elems p) \<and> \<not> (p \<noteq> [] \<and> hd p = CHR ''/''))"
  then have "x = [] \<or> x \<in> set (split p CHR ''/'')"
    by (auto simp: path_elems_def Let_def split: if_splits dest: in_set_dropD)
  then show ?thesis using split_Cons_hd by blast
qed

lemma mismatch_relative:
  assumes "mismatch (path_elems p) (path_elems b) = (a, r)"
    and "(p \<noteq> [] \<and> hd p = CHR ''/'') = (b \<noteq> [] \<and> hd b = CHR ''/'')" and "x \<in> set a"
  shows "x = [] \<or> hd x \<noteq> CHR ''/''"
proof (cases "p \<noteq> [] \<and> hd p = CHR ''/''")
  case True
  then obtain ps bs where e: "path_elems p = ''/'' # ps" "path_elems b = ''/'' # bs"
    using assms(2) by (auto simp: path_elems_def Let_def)
  with assms(1) have "mismatch ps bs = (a, r)" by simp
  then obtain pre where "ps = pre @ a" using mismatch_eq by blast
  with assms(3) e have "x \<in> set (drop 1 (path_elems p))" by simp
  then show ?thesis using path_elems_relative by blast
next
  case False
  from mismatch_eq [OF assms(1)] assms(3) have "x \<in> set (path_elems p)" by auto
  with False path_elems_relative show ?thesis by blast
qed

lemma path_is_safe_prefix:
  assumes can: "os_canonical E base = Some b" "os_weakly_canonical E target = Some t"
    and norm: "\<forall>x \<in> set (path_elems b). x \<noteq> [] \<and> x \<noteq> ''.'' \<and> x \<noteq> ''..''"
    and safe: "path_is_safe E base target = Inr True"
  shows "\<exists>rest. path_elems t = path_elems b @ rest"
proof -
  obtain a r where m: "mismatch (path_elems t) (path_elems b) = (a, r)" by force
  then obtain pre where pre: "path_elems t = pre @ a" "path_elems b = pre @ r" using mismatch_eq by blast
  have rel: "lexically_relative t b \<noteq> []" "\<not> contains_dotdot (lexically_relative t b)"
    using safe can by (simp_all add: path_is_safe_def Let_def)
  then have kind: "(t \<noteq> [] \<and> hd t = CHR ''/'') = (b \<noteq> [] \<and> hd b = CHR ''/'')"
    by (metis lexically_relative_def)
  have n: "up_levels r = int (length r)" using norm pre by (intro up_levels_count) simp
  have "r = []"
  proof (rule ccontr)
    assume "r \<noteq> []"
    then obtain k where k: "length r = Suc k" by (cases r) auto
    let ?es = "replicate k ''..'' @ a"
    have "lexically_relative t b = fold (\<lambda>x ret. path_append ret x) ?es ''..''"
      unfolding lexically_relative_def m using kind n k \<open>r \<noteq> []\<close>
      by (simp add: path_append_def replicate_append_same nat_add_distrib)
    moreover have "\<forall>x \<in> set ?es. x = [] \<or> hd x \<noteq> CHR ''/''"
      using mismatch_relative [OF m kind] by auto
    ultimately obtain s where "lexically_relative t b = ''..'' @ s" using fold_path_append_prefix by metis
    with rel(2) show False by simp
  qed
  with pre show ?thesis by simp
qed

lemma hex_value_nul: "hex_value (CHR 0x00) = None"
  by (simp add: hex_value_def Let_def)

lemma match_hex_nul_free: "match_hex n s = Some r \<Longrightarrow> nul_free s \<longleftrightarrow> nul_free r"
  by (induction n s rule: match_hex.induct) (auto simp: nul_free_def hex_value_nul split: if_splits)

lemma is_valid_uuid_nul_free: "is_valid_uuid s \<Longrightarrow> nul_free s"
proof -
  have d: "match_dash s = Some r \<Longrightarrow> nul_free s \<longleftrightarrow> nul_free r" for s r
    by (auto simp: match_dash_Some nul_free_def)
  assume "is_valid_uuid s"
  then show ?thesis
    by (auto simp: is_valid_uuid_def bind_eq_Some_conv match_hex_nul_free d) (simp_all add: nul_free_def)
qed

lemma generate_uuid_valid: "is_valid_uuid (fst (generate_uuid E w))"
  by (simp add: generate_uuid_def case_prod_beta Let_def uuid_text_valid)

lemma round_half_even_div:
  assumes "0 < b" "b < 2 * 2 ^ p" "p \<le> s" "p \<le> t"
  shows "round_half_even (a * 2 ^ s) b div 2 ^ t = a * 2 ^ s div b div 2 ^ t"
proof -
  define q r where "q = a * 2 ^ s div b" and "r = a * 2 ^ s mod b"
  have qr: "a * 2 ^ s = b * q + r" "r < b" using assms(1) by (simp_all add: q_def r_def)
  have "Suc q div 2 ^ t = q div 2 ^ t" if "b \<le> 2 * r"
  proof (rule ccontr)
    assume "Suc q div 2 ^ t \<noteq> q div 2 ^ t"
    then have "2 ^ t dvd Suc q" by (auto simp: div_Suc split: if_splits)
    then have "2 ^ p dvd b * Suc q" using assms(4) by (meson dvd_mult dvd_trans le_imp_power_dvd)
    moreover have "(2 :: nat) ^ p dvd a * 2 ^ s" using assms(3) by (meson dvd_mult le_imp_power_dvd)
    ultimately have "2 ^ p dvd b * Suc q - a * 2 ^ s" by (rule dvd_diff_nat)
    moreover have "b * Suc q - a * 2 ^ s = b - r" unfolding qr(1) by simp
    ultimately have "2 ^ p \<le> b - r" using qr(2) by (metis dvd_imp_le zero_less_diff)
    with that assms(2) show False by simp
  qed
  then show ?thesis
    unfolding round_half_even_def q_def [symmetric] r_def [symmetric] by (auto simp: Let_def)
qed

lemma bit_length_low: "0 < n \<Longrightarrow> 2 ^ (bit_length n - 1) \<le> n"
proof (induction n rule: bit_length.induct)
  case (1 n)
  show ?case
  proof (cases "n div 2 = 0")
    case True
    then have "bit_length n = Suc 0" using "1.prems" by (simp add: bit_length.simps)
    then show ?thesis using "1.prems" by simp
  next
    case False
    then have "bit_length n = Suc (bit_length (n div 2))" "0 < bit_length (n div 2)"
      using "1.prems" by (simp_all add: bit_length.simps [of n] bit_length.simps [of "n div 2"])
    moreover have "2 ^ (bit_length (n div 2) - 1) \<le> n div 2" using "1.IH" False "1.prems" by simp
    ultimately show ?thesis by (cases "bit_length (n div 2)") auto
  qed
qed

lemma rounded_quotient:
  assumes "0 < b" "b < 2 * 2 ^ p"
  shows "p \<le> t \<Longrightarrow> round_half_even (a * 2 ^ (k + t)) b div 2 ^ t = a * 2 ^ k div b"
    "p \<le> s \<Longrightarrow> round_half_even (a * 2 ^ s) b div 2 ^ (s + k) = a div 2 ^ k div b"
proof -
  assume "p \<le> t"
  then have "round_half_even (a * 2 ^ (k + t)) b div 2 ^ t = a * 2 ^ (k + t) div b div 2 ^ t"
    by (intro round_half_even_div [OF assms]) simp_all
  also have "\<dots> = (a * 2 ^ k) * 2 ^ t div (b * 2 ^ t)" by (simp add: power_add div_mult2_eq mult.assoc)
  finally show "round_half_even (a * 2 ^ (k + t)) b div 2 ^ t = a * 2 ^ k div b" by simp
next
  assume "p \<le> s"
  then have "round_half_even (a * 2 ^ s) b div 2 ^ (s + k) = a * 2 ^ s div b div 2 ^ (s + k)"
    by (intro round_half_even_div [OF assms]) simp_all
  also have "\<dots> = a * 2 ^ s div (b * 2 ^ k * 2 ^ s)" by (simp add: power_add div_mult2_eq ac_simps)
  also have "\<dots> = a div (2 ^ k * b)" by (simp add: mult.commute)
  finally show "round_half_even (a * 2 ^ s) b div 2 ^ (s + k) = a div 2 ^ k div b" by (simp only: div_mult2_eq)
qed

lemma bit_length_scaled: "0 < a \<Longrightarrow> a * 2 ^ k < 2 ^ n \<Longrightarrow> bit_length a - 1 + k < n"
proof -
  assume "0 < a" and less: "a * 2 ^ k < 2 ^ n"
  then have "2 ^ (bit_length a - 1) * 2 ^ k \<le> a * 2 ^ k" using bit_length_low [of a] by simp
  with less have "(2 :: nat) ^ (bit_length a - 1 + k) < 2 ^ n" by (simp only: power_add)
  then show ?thesis by (rule power_less_imp_less_exp [rotated]) simp
qed

text \<open>Dividing a \<open>double\<close> and cutting off the fraction is exact: rounding never reaches the next
  whole number.\<close>

lemma d_trunc_div:
  assumes m: "0 \<le> d_mant d" "d_mant d < 2 ^ 53" and v: "d_trunc d < 2 ^ 31" and b: "0 < b"
  shows "d_trunc (d_div d b) = d_trunc d div int b"
proof -
  define a where "a = nat (d_mant d)"
  define s0 where "s0 = 53 + bit_length b - bit_length a"
  define s where "s = (if b * 2 ^ 53 \<le> a * 2 ^ s0 then s0 - 1 else s0)"
  define p where "p = bit_length b - 1"
  define M where "M = round_half_even (a * 2 ^ s) b"
  have am: "d_mant d = int a" using m by (simp add: a_def)
  have la: "bit_length a \<le> 53" using m by (intro bit_length_le) (simp add: a_def nat_less_iff)
  have lb: "bit_length b = Suc p" using b by (simp add: p_def bit_length.simps [of b])
  have bp: "b < 2 * 2 ^ p" using bit_length_bound [of b] by (simp add: lb)
  have ps: "p \<le> s" and s52: "52 + Suc p - bit_length a \<le> s" using la by (auto simp: s_def s0_def lb)
  have dd: "d_div d b = \<lparr>d_mant = sgn (int a) * int M, d_exp = d_exp d - int s\<rparr>"
    by (simp add: d_div_def am M_def s_def s0_def Let_def)
  show ?thesis
  proof (cases "a = 0")
    case True
    then show ?thesis by (simp add: dd d_trunc_def am)
  next
    case False
    have td: "d_trunc d = int (if 0 \<le> d_exp d then a * 2 ^ nat (d_exp d) else a div 2 ^ nat (- d_exp d))"
      using False by (simp add: d_trunc_def am Let_def)
    have tq: "d_trunc (d_div d b) = int (if 0 \<le> d_exp d - int s then M * 2 ^ nat (d_exp d - int s) else M div 2 ^ nat (int s - d_exp d))"
      using False by (cases "M = 0") (simp_all add: d_trunc_def dd Let_def)
    show ?thesis
    proof (cases "0 < d_exp d")
      case True
      define k where "k = nat (d_exp d)"
      have e: "d_exp d = int k" using True by (simp add: k_def)
      have "int (a * 2 ^ k) < int (2 ^ 31)" using v td True by (simp add: k_def)
      then have "bit_length a - 1 + k < 31" using False by (intro bit_length_scaled) (simp_all only: of_nat_less_iff)
      then have sk: "p + k < s" using s52 la by linarith
      then obtain t where t: "s = k + t" "p \<le> t" "0 < t" by (intro that [of "s - k"]) simp_all
      have "M div 2 ^ t = a * 2 ^ k div b" unfolding M_def t(1) by (rule rounded_quotient(1) [OF b bp t(2)])
      then show ?thesis using t by (simp add: tq td e zdiv_int nat_diff_distrib)
    next
      case e: False
      define k where "k = nat (- d_exp d)"
      have k: "d_exp d = - int k" using e by (simp add: k_def)
      have "M div 2 ^ (s + k) = a div 2 ^ k div b" unfolding M_def by (rule rounded_quotient(2) [OF b bp ps])
      moreover have "d_trunc d = int (a div 2 ^ k)" using e by (auto simp: td k)
      moreover have "int s \<le> - int k \<longleftrightarrow> s = 0 \<and> k = 0" by linarith
      then have "d_trunc (d_div d b) = int (M div 2 ^ (s + k))"
        by (simp add: tq k nat_add_distrib add.commute)
      ultimately show ?thesis by (simp add: zdiv_int)
    qed
  qed
qed


section \<open>Properties\<close>

text \<open>C34: Every identifier the program draws has the canonical form that \<open>is_valid_uuid\<close> accepts,
  36 characters long, with version digit 4 and a variant digit among 8, 9, a and b, whatever
  the random source delivers.\<close>

theorem generate_uuid_v4:
  "is_valid_uuid (fst (generate_uuid E w)) \<and> length (fst (generate_uuid E w)) = 36
   \<and> fst (generate_uuid E w) ! 14 = CHR ''4'' \<and> fst (generate_uuid E w) ! 19 \<in> set ''89ab''"
proof -
  define bs where "bs = fst (rand_bytes E 16 w)"
  have g: "fst (generate_uuid E w) = uuid_text (bs[6 := (bs ! 6 AND 0x0F) OR 0x40, 8 := (bs ! 8 AND 0x3F) OR 0x80])"
    and l: "length bs = 16"
    by (simp_all add: bs_def generate_uuid_def rand_bytes_def Let_def)
  show ?thesis
    using variant_nibble [of "bs ! 8"] is_valid_uuid_length [OF uuid_text_valid]
    by (auto simp: g l uuid_text_nth uuid_text_valid version_nibble hex_digit_def char_of_eq_iff)
qed

text \<open>C32: A sanitised file name contains no separator or wildcard character, is not empty, \<open>.\<close> or
  \<open>..\<close>, is a fixed point of sanitising, and joined to any directory it names an entry of
  that directory itself: the last component of the path is the name and what precedes it is the
  directory.\<close>

theorem sanitize_filename_safe:
  "(\<forall>c. c \<in> set (sanitize_filename n) \<longrightarrow> \<not> bad_name_char c)
   \<and> sanitize_filename n \<noteq> [] \<and> sanitize_filename n \<noteq> ''.'' \<and> sanitize_filename n \<noteq> ''..''
   \<and> sanitize_filename (sanitize_filename n) = sanitize_filename n
   \<and> path_filename (path_append d (sanitize_filename n)) = sanitize_filename n
   \<and> (d \<noteq> [] \<longrightarrow> last d \<noteq> CHR ''/'' \<longrightarrow> path_append d (sanitize_filename n) = d @ ''/'' @ sanitize_filename n)"
proof -
  have "CHR ''/'' \<notin> set (sanitize_filename n)"
    using sanitize_no_bad [of "CHR ''/''" n] by (auto simp: bad_name_char_def)
  with sanitize_not_special [of n]
  have "path_filename (path_append d (sanitize_filename n)) = sanitize_filename n"
    and "path_append d (sanitize_filename n) =
      (if d = [] \<or> last d = CHR ''/'' then d @ sanitize_filename n else d @ ''/'' @ sanitize_filename n)"
    by (blast intro: path_filename_append, blast intro: path_append_name)
  then show ?thesis
    using sanitize_no_bad sanitize_not_special [of n] by (auto simp: sanitize_idem)
qed

theorem sanitize_filename_safe_witness:
  "sanitize_filename ''../etc/passwd'' = ''.._etc_passwd''
   \<and> path_append ''/h/shr_received'' (sanitize_filename ''../etc/passwd'') = ''/h/shr_received'' @ ''/'' @ sanitize_filename ''../etc/passwd''"
  using sanitize_filename_safe [of "''../etc/passwd''" "''/h/shr_received''"]
  by (simp add: sanitize_filename_def bad_name_char_def)

text \<open>C33: A target that \<open>path_is_safe\<close> accepts lies below the base directory: the elements of the
  resolved base, which by the standard has no dot or empty elements, are a prefix of the
  elements of the resolved target.\<close>

theorem path_is_safe_confines:
  assumes "os_canonical E base = Some b" "os_weakly_canonical E target = Some t"
    and "\<forall>x \<in> set (path_elems b). x \<noteq> [] \<and> x \<noteq> ''.'' \<and> x \<noteq> ''..''"
    and "path_is_safe E base target = Inr True"
  shows "\<exists>rest. path_elems t = path_elems b @ rest"
  using assms by (rule path_is_safe_prefix)

theorem path_is_safe_confines_witness:
  "path_is_safe sample_env ''/h/r'' ''/h/r/a'' = Inr True \<and> path_is_safe sample_env ''/h/r'' ''/h/s'' = Inr False
   \<and> (\<exists>rest. path_elems ''/h/r/a'' = path_elems ''/h/r'' @ rest)"
proof -
  have "path_is_safe sample_env ''/h/r'' ''/h/r/a'' = Inr True" "path_is_safe sample_env ''/h/r'' ''/h/s'' = Inr False"
    "\<forall>x \<in> set (path_elems ''/h/r''). x \<noteq> [] \<and> x \<noteq> ''.'' \<and> x \<noteq> ''..''"
    by code_simp+
  then show ?thesis
    using path_is_safe_confines [of sample_env "''/h/r''" "''/h/r''" "''/h/r/a''" "''/h/r/a''"]
    by (simp add: sample_env_def)
qed

text \<open>C35: The hexadecimal codec: two digits for every byte, different texts for different byte
  strings, and decoding an encoded text gives the bytes back without an exception.\<close>

theorem hex_round_trip:
  "hex_decode (hex_encode bs) = Inr bs \<and> length (hex_encode bs) = 2 * length bs
   \<and> (hex_encode bs = hex_encode cs \<longleftrightarrow> bs = cs)"
  by (simp add: hex_decode_encode hex_encode_length hex_encode_inject)

text \<open>C36: The digest of a file, read in blocks of 64 KiB, is the digest of its content as one
  buffer; a file that cannot be opened gives the empty text.\<close>

theorem sha256_file_is_digest_of_content:
  assumes "digest_laws E"
  shows "sha256_file E path w =
    ((case fst (ifstream_open E path w) of None \<Rightarrow> [] | Some d \<Rightarrow> sha256_bytes E d), step_tick w)"
  using assms by (rule sha256_file_eq)

theorem sha256_file_is_digest_of_content_witness:
  "fst (sha256_file sample_env ''/f'' (sample_world\<lparr>files := [''/f'' \<mapsto> [1, 2, 3]]\<rparr>)) = sha256_bytes sample_env [1, 2, 3]"
  by (simp add: sha256_file_is_digest_of_content [OF sample_digest] ifstream_open_def) (simp add: sample_env_def)

text \<open>C37: A size is shown in the largest unit of which it holds at least one, up to terabytes, and
  the two decimals shown are within half a hundredth of that unit of the exact size (for sizes
  below 2 to the 53rd, which a double holds exactly); bytes are shown exactly.\<close>

theorem format_bytes_accurate:
  assumes "unat n < 2 ^ 53"
  shows "\<exists>idx h. idx \<le> 4 \<and> (idx = 0 \<or> 1024 ^ idx \<le> unat n) \<and> (idx < 4 \<longrightarrow> unat n < 1024 ^ Suc idx)
    \<and> (if idx = 0 then format_bytes n = show_nat (unat n) @ '' B''
       else format_bytes n = fixed2 h @ '' '' @ units ! idx
         \<and> \<bar>2 * int h * 1024 ^ idx - 200 * int (unat n)\<bar> \<le> 1024 ^ idx)"
proof -
  let ?idx = "unit_index (unat n) 0"
  let ?h = "round_half_even (unat n * 100) (1024 ^ ?idx)"
  have v: "u64_to_double n = unat n" using assms by (rule u64_to_double_exact)
  have le: "?idx \<le> 4" by (rule unit_index_le) simp
  have spec: "(?idx = 0 \<or> 1024 ^ ?idx \<le> unat n) \<and> (?idx < 4 \<longrightarrow> unat n < 1024 ^ Suc ?idx)"
    by (rule unit_index_spec) simp_all
  have e: "2 * (?h * 1024 ^ ?idx) \<le> 2 * (unat n * 100) + 1024 ^ ?idx" "2 * (unat n * 100) \<le> 2 * (?h * 1024 ^ ?idx) + 1024 ^ ?idx"
    by (rule round_half_even_error; simp)+
  have "int (2 * (?h * 1024 ^ ?idx)) \<le> int (2 * (unat n * 100) + 1024 ^ ?idx)"
    "int (2 * (unat n * 100)) \<le> int (2 * (?h * 1024 ^ ?idx) + 1024 ^ ?idx)"
    using e by (simp_all only: zle_int)
  then have "\<bar>2 * int ?h * 1024 ^ ?idx - 200 * int (unat n)\<bar> \<le> 1024 ^ ?idx" by simp
  moreover have "format_bytes n = (if ?idx = 0 then show_nat (unat n) @ '' B'' else fixed2 ?h @ '' '' @ units ! ?idx)"
    by (simp add: format_bytes_def v Let_def units_def)
  ultimately show ?thesis using le spec by (intro exI [of _ ?idx] exI [of _ ?h]) simp
qed

theorem format_bytes_accurate_witness:
  "format_bytes 1536 = ''1.50 KB'' \<and> (\<exists>idx h. (if idx = 0 then format_bytes 1536 = show_nat 1536 @ '' B''
       else format_bytes 1536 = fixed2 h @ '' '' @ units ! idx))"
proof
  have "u64_to_double 1536 = 1536" using u64_to_double_exact [of 1536] by simp
  moreover have "unit_index 1536 0 = 1" by (simp add: unit_index.simps)
  ultimately show "format_bytes 1536 = ''1.50 KB''"
    by (simp add: format_bytes_def Let_def fixed2_def round_half_even_def units_def show_nat.simps char_of_eq_iff)
  have "unat (1536 :: u64) < 2 ^ 53" by simp
  then obtain idx h where "if idx = 0 then format_bytes 1536 = show_nat (unat (1536 :: u64)) @ '' B''
      else format_bytes 1536 = fixed2 h @ '' '' @ units ! idx
        \<and> \<bar>2 * int h * 1024 ^ idx - 200 * int (unat (1536 :: u64))\<bar> \<le> 1024 ^ idx"
    using format_bytes_accurate by blast
  then show "\<exists>idx h. (if idx = 0 then format_bytes 1536 = show_nat 1536 @ '' B''
      else format_bytes 1536 = fixed2 h @ '' '' @ units ! idx)"
    by (intro exI [of _ idx] exI [of _ h]) (simp split: if_splits)
qed

text \<open>Splitting a text at a separator and joining the parts with it gives the text back, unless
  the text ends with the separator, and no part contains the separator.\<close>

theorem split_join_inverse:
  assumes "s = [] \<or> last s \<noteq> d"
  shows "join (split s d) [d] = s \<and> (\<forall>t \<in> set (split s d). d \<notin> set t)"
  using join_split [OF assms] split_tokens by blast

theorem split_join_inverse_witness:
  "split ''10.0.0.7'' CHR ''.'' = [''10'', ''0'', ''0'', ''7''] \<and> join (split ''10.0.0.7'' CHR ''.'') ''.'' = ''10.0.0.7''"
proof
  show "split ''10.0.0.7'' CHR ''.'' = [''10'', ''0'', ''0'', ''7'']" by code_simp
  show "join (split ''10.0.0.7'' CHR ''.'') ''.'' = ''10.0.0.7''"
    using split_join_inverse [of "''10.0.0.7''" "CHR ''.''"] by simp
qed

text \<open>C39: The search for a free port ends for every range whose last port is below 65535, with 0 or
  with a port of the range that could be bound.\<close>

theorem find_free_port_terminates:
  assumes "stop < 65535"
  shows "\<exists>p' w'. find_free_port E p stop w = Some (p', w')
    \<and> (p' = 0 \<or> p \<le> p' \<and> p' \<le> stop \<and> (\<exists>t. os_bind E t p'))"
  using find_free_port_returns [OF assms, of E p w] by auto

theorem find_free_port_terminates_witness:
  "\<exists>p' w'. find_free_port sample_env SHR_PORT_MIN SHR_PORT_MAX sample_world = Some (p', w')"
  using find_free_port_terminates [of SHR_PORT_MAX sample_env SHR_PORT_MIN sample_world] by (auto simp: SHR_PORT_MAX_def)

text \<open>C40: With the last port 65535 the loop counter wraps around and, when no port can be bound, the
  search never returns.\<close>

theorem find_free_port_may_loop:
  assumes "\<forall>t p. \<not> os_bind E t p"
  shows "find_free_port E p 65535 w = None"
  using assms by (rule find_free_port_loops)

theorem find_free_port_may_loop_witness:
  "find_free_port (sample_env\<lparr>os_bind := \<lambda>t p. False\<rparr>) SHR_PORT_MIN 65535 sample_world = None"
  by (rule find_free_port_may_loop) simp

text \<open>C38: A duration is shown exactly. For every finite non-negative number of seconds below 2 to the
  31st, whole or not, the hours, minutes and seconds shown are those of the seconds with the
  fraction cut off, although the program divides in floating point: the rounded quotients never
  reach the next whole number. Hours and minutes are left out when they are zero.\<close>

theorem format_duration_exact:
  assumes "0 \<le> d_mant d" "d_mant d < 2 ^ 53" "n = d_trunc d" "n < 2 ^ 31"
    and hms: "h = n div 3600" "m = n div 60 mod 60" "s = n mod 60"
  shows "format_duration d = Some ((if 0 < h then show_int h @ ''h '' else []) @ (if 0 < m then show_int m @ ''m '' else [])
      @ show_int s @ ''s'')
    \<and> 3600 * h + 60 * m + s = n \<and> 0 \<le> m \<and> m < 60 \<and> 0 \<le> s \<and> s < 60"
proof -
  have n: "0 \<le> n" using assms(1,3) by (cases "d_mant d = 0") (simp_all add: d_trunc_def Let_def)
  have t: "d_trunc (d_div d 3600) = h" "d_trunc (d_div d 60) = n div 60"
    using d_trunc_div [OF assms(1,2), of 3600] d_trunc_div [OF assms(1,2), of 60] assms(3,4) hms(1) by simp_all
  have r: "h < 2 ^ 31" "n div 60 < 2 ^ 31" "0 \<le> h" "0 \<le> n div 60" using n assms(4) hms(1) by auto
  have i: "d_to_int (d_div d 3600) = Some h" "d_to_int (d_div d 60) = Some (n div 60)" "d_to_int d = Some n"
    using t r n assms(3,4) by (simp_all add: d_to_int_def Let_def)
  have c: "c_mod x 60 = x mod 60" if "0 \<le> x" for x using that by (cases "x = 0") (simp_all add: c_mod_def)
  have "n div 3600 = n div 60 div 60" using zdiv_zmult2_eq [of 60 n 60] by simp
  then have "3600 * h + 60 * m + s = n"
    using mult_div_mod_eq [of 60 n] mult_div_mod_eq [of 60 "n div 60"] unfolding hms by linarith
  then show ?thesis
    using i c [OF n] c [OF r(4)] by (simp add: format_duration_def hms)
qed

theorem format_duration_exact_witness:
  "format_duration \<lparr>d_mant = 14641, d_exp = - 2\<rparr> = Some ''1h 1m 0s''"
proof -
  have t: "d_trunc \<lparr>d_mant = 14641, d_exp = - 2\<rparr> = 3660" by (simp add: d_trunc_def)
  show ?thesis
    using format_duration_exact [of "\<lparr>d_mant = 14641, d_exp = - 2\<rparr>" 3660 1 1 0] t
    by (simp add: show_int_def show_nat.simps char_of_eq_iff)
qed

end
