(* ===== verification/Shr_Logger.thy ===== *)
theory Shr_Logger
  imports Shr_Utils
begin

text \<open>
  \<open>src/logger.cxx\<close>: the levels with their order and texts, opening the log, and writing one
  line. The text that went to the log stream is the field \<open>lg_out\<close> of the logger's state.
\<close>

fun level_rank :: "LogLevel \<Rightarrow> nat" where
  "level_rank LDebug = 0"
| "level_rank LInfo = 1"
| "level_rank LWarn = 2"
| "level_rank LError = 3"

instantiation LogLevel :: linorder
begin

definition less_eq_LogLevel :: "LogLevel \<Rightarrow> LogLevel \<Rightarrow> bool" where
  "less_eq_LogLevel a b \<longleftrightarrow> level_rank a \<le> level_rank b"

definition less_LogLevel :: "LogLevel \<Rightarrow> LogLevel \<Rightarrow> bool" where
  "less_LogLevel a b \<longleftrightarrow> level_rank a < level_rank b"

instance
proof
  fix a b c :: LogLevel
  show "a < b \<longleftrightarrow> a \<le> b \<and> \<not> b \<le> a" "a \<le> a" "a \<le> b \<or> b \<le> a"
    by (auto simp: less_eq_LogLevel_def less_LogLevel_def)
  show "a \<le> b \<Longrightarrow> b \<le> c \<Longrightarrow> a \<le> c"
    by (simp add: less_eq_LogLevel_def)
  show "a \<le> b \<Longrightarrow> b \<le> a \<Longrightarrow> a = b"
    by (cases a; cases b) (auto simp: less_eq_LogLevel_def)
qed

end

fun level_str :: "LogLevel \<Rightarrow> string" where
  "level_str LDebug = ''DEBUG''"
| "level_str LInfo = ''INFO ''"
| "level_str LWarn = ''WARN ''"
| "level_str LError = ''ERROR''"

definition logger_init :: "'x env_scheme \<Rightarrow> string \<Rightarrow> LogLevel \<Rightarrow> world \<Rightarrow> world" where
  "logger_init E path lvl w =
     (let w = w\<lparr>logger := (logger w)\<lparr>lg_min_level := lvl\<rparr>\<rparr>;
          w = (if path \<noteq> [] then
                 let (ok, w) = ofstream_open E path App w in w\<lparr>logger := (logger w)\<lparr>lg_open := ok\<rparr>\<rparr>
               else w)
      in w\<lparr>logger := (logger w)\<lparr>lg_initialized := True\<rparr>\<rparr>)"

definition log_line :: "'x env_scheme \<Rightarrow> nat \<Rightarrow> LogLevel \<Rightarrow> string \<Rightarrow> string" where
  "log_line E t lvl msg = ''['' @ os_logtime E t @ ''] ['' @ level_str lvl @ ''] '' @ msg"

definition log :: "'x env_scheme \<Rightarrow> LogLevel \<Rightarrow> string \<Rightarrow> world \<Rightarrow> world" where
  "log E lvl msg w =
     (if lvl < lg_min_level (logger w) then w
      else
        let line = log_line E (tick w) lvl msg;
            w = step_tick w;
            w = (if lg_open (logger w)
                 then w\<lparr>logger := (logger w)\<lparr>lg_out := lg_out (logger w) @ line @ [CHR 0x0A]\<rparr>\<rparr>
                 else w)
        in if LError \<le> lvl then eprint (line @ [CHR 0x0A]) w else w)"

abbreviation LOG_INFO :: "'x env_scheme \<Rightarrow> string \<Rightarrow> world \<Rightarrow> world" where
  "LOG_INFO E \<equiv> log E LInfo"
abbreviation LOG_WARN :: "'x env_scheme \<Rightarrow> string \<Rightarrow> world \<Rightarrow> world" where
  "LOG_WARN E \<equiv> log E LWarn"
abbreviation LOG_ERROR :: "'x env_scheme \<Rightarrow> string \<Rightarrow> world \<Rightarrow> world" where
  "LOG_ERROR E \<equiv> log E LError"

text \<open>Logging touches the clock, the logger and the error stream only.\<close>

lemma log_frame [simp]:
  "files (log E l m w) = files w" "dirs (log E l m w) = dirs w" "cout (log E l m w) = cout w"
  "cfg (log E l m w) = cfg w" "ident (log E l m w) = ident w" "db_open (log E l m w) = db_open w"
  "db (log E l m w) = db w" "keypair (log E l m w) = keypair w"
  "key_loaded (log E l m w) = key_loaded w" "socks (log E l m w) = socks w" "closed_socks (log E l m w) = closed_socks w"
  "next_sock (log E l m w) = next_sock w" "udp_out (log E l m w) = udp_out w" "listen_sock (log E l m w) = listen_sock w"
  "net_port (log E l m w) = net_port w" "net_running (log E l m w) = net_running w"
  "active_count (log E l m w) = active_count w" "beacon_running (log E l m w) = beacon_running w"
  by (simp_all add: log_def Let_def)

lemma log_below_threshold: "l < lg_min_level (logger w) \<Longrightarrow> log E l m w = w"
  by (simp add: log_def)

lemma log_min_level [simp]: "lg_min_level (logger (log E l m w)) = lg_min_level (logger w)"
  by (simp add: log_def Let_def)

end
