(* ===== verification/Shr_Crypto.thy ===== *)
theory Shr_Crypto
  imports Shr_Logger
begin

text \<open>
  \<open>src/crypto.cxx\<close>: the key pair and its files, the shared secret, authenticated encryption
  and the HMAC. The OpenSSL primitives are fields of \<open>lib\<close> and \<open>env\<close>.
\<close>

definition generate_keypair :: "'x env_scheme \<Rightarrow> world \<Rightarrow> KeyPair \<times> world" where
  "generate_keypair E w =
     (let (r, w) = rand_bytes E 32 w;
          kp = \<lparr>pub_key = [], priv_key = r[0 := r ! 0 AND 248, 31 := (r ! 31 AND 127) OR 64]\<rparr>;
          (priv, pub) = os_keygen E (tick w);
          w = step_tick w
      in (kp\<lparr>priv_key := priv, pub_key := pub\<rparr>, w))"

text \<open>\<open>read(arr, n)\<close>: a shorter file leaves the tail of the array as it was.\<close>

definition read_into :: "bytes \<Rightarrow> bytes \<Rightarrow> nat \<Rightarrow> bytes" where
  "read_into arr d n = take n d @ drop (length (take n d)) arr"

text \<open>\<open>None\<close> is the exception of \<open>std::filesystem::permissions\<close>, which nothing catches.\<close>

definition load_or_generate_keypair :: "'x env_scheme \<Rightarrow> string \<Rightarrow> world \<Rightarrow> bool option \<times> world" where
  "load_or_generate_keypair E key_dir w =
     (let priv_path = key_dir @ ''/identity.key'';
          pub_path = key_dir @ ''/identity.pub''
      in
      if file_exists priv_path w \<and> file_exists pub_path w then
        let (pf, w) = ifstream_open E priv_path w;
            (qf, w) = ifstream_open E pub_path w
        in case (pf, qf) of
             (Some p, Some q) \<Rightarrow>
               (Some True, w\<lparr>keypair := \<lparr>pub_key = read_into (pub_key (keypair w)) q 32,
                                    priv_key = read_into (priv_key (keypair w)) p 32\<rparr>,
                        key_loaded := True\<rparr>)
           | _ \<Rightarrow> (Some False, w)
      else
        let (kp, w) = generate_keypair E w;
            w = w\<lparr>keypair := kp\<rparr>;
            (ok1, w) = ofstream_open E priv_path Trunc w;
            (ok2, w) = ofstream_open E pub_path Trunc w
        in if \<not> ok1 \<or> \<not> ok2 then (Some False, w)
           else
             let (_, w) = ofstream_write E priv_path Trunc 0 (take 32 (priv_key kp)) w;
                 (_, w) = ofstream_write E pub_path Trunc 0 (take 32 (pub_key kp)) w;
                 changed = os_permissions E (tick w) priv_path;
                 w = step_tick w
             in if \<not> changed then (None, w) else (Some True, w\<lparr>key_loaded := True\<rparr>))"

definition crypto_init :: "'x env_scheme \<Rightarrow> string \<Rightarrow> world \<Rightarrow> bool option \<times> world" where
  "crypto_init E key_dir w = load_or_generate_keypair E key_dir w"

definition derive_shared_secret :: "'x lib_scheme \<Rightarrow> bytes \<Rightarrow> bytes \<Rightarrow> bytes" where
  "derive_shared_secret L priv peer_pub = x25519_derive L priv peer_pub"

text \<open>AES-256 reads 32 bytes of the key; \<open>None\<close> stands for the read beyond the end of a shorter one.
  The size of the input is passed to OpenSSL as an \<open>int\<close>.\<close>

definition encrypt :: "'x env_scheme \<Rightarrow> bytes \<Rightarrow> bytes \<Rightarrow> world \<Rightarrow> (bytes \<times> bytes) option \<times> world" where
  "encrypt E plaintext key w =
     (let (nonce, w) = rand_bytes E 12 w in
      if length key < 32 then (None, w)
      else
        let (ciphertext, tag) = gcm_seal E (take 32 key) nonce plaintext (cast_int (length plaintext))
        in (Some (ciphertext @ tag, nonce), w))"

definition decrypt :: "'x lib_scheme \<Rightarrow> bytes \<Rightarrow> bytes \<Rightarrow> bytes \<Rightarrow> bytes option" where
  "decrypt L ciphertext key nonce =
     (if length ciphertext < 16 then Some []
      else if length key < 32 then None
      else
        let data_len = length ciphertext - 16 in
        case gcm_open L (take 32 key) nonce (take data_len ciphertext) (cast_int data_len) (drop data_len ciphertext) of
          None \<Rightarrow> Some []
        | Some plaintext \<Rightarrow> Some plaintext)"

definition hmac_sha256 :: "'x lib_scheme \<Rightarrow> bytes \<Rightarrow> bytes \<Rightarrow> bytes" where
  "hmac_sha256 L data key = hmac_fn L key data"

definition verify_hmac :: "'x lib_scheme \<Rightarrow> bytes \<Rightarrow> bytes \<Rightarrow> bytes \<Rightarrow> bool" where
  "verify_hmac L data key expected \<longleftrightarrow> take 32 (hmac_sha256 L data key) = take 32 expected"

definition cert_fingerprint :: "world \<Rightarrow> string" where
  "cert_fingerprint w = hex_encode (take 32 (pub_key (keypair w)))"

section \<open>Lemmas\<close>

lemma decrypt_encrypt:
  assumes "gcm_laws E" and key: "32 \<le> length key" and p: "length p < 2 ^ 31"
  obtains c where "encrypt E p key w = (Some (c, fst (rand_bytes E 12 w)), step_tick w)"
    and "length c = length p + 16" and "decrypt E c key (fst (rand_bytes E 12 w)) = Some p"
proof -
  let ?n = "fst (rand_bytes E 12 w)"
  obtain c t where ct: "gcm_seal E (take 32 key) ?n p (int (length p)) = (c, t)" by fastforce
  have "let (c, tag) = gcm_seal E (take 32 key) ?n p (int (length p))
      in length c = length p \<and> length tag = 16 \<and> gcm_open E (take 32 key) ?n c (int (length c)) tag = Some p"
    using assms unfolding gcm_laws_def by (simp add: min_absorb2)
  then have c: "length c = length p" "length t = 16" "gcm_open E (take 32 key) ?n c (int (length c)) t = Some p"
    by (auto simp: ct)
  show ?thesis
  proof (rule that [of "c @ t"])
    show "encrypt E p key w = (Some (c @ t, ?n), step_tick w)"
      using ct key p by (simp add: encrypt_def cast_int_id rand_bytes_def)
    show "decrypt E (c @ t) key ?n = Some p" using c key p by (simp add: decrypt_def cast_int_id Let_def)
  qed (simp add: c)
qed

lemma read_into_full: "length d = n \<Longrightarrow> length arr = n \<Longrightarrow> read_into arr d n = d"
  by (simp add: read_into_def)

lemma key_paths [simp]: "d @ ''/identity.key'' \<noteq> d @ ''/identity.pub''"
  by simp

lemma generated_keypair_files:
  assumes "disk_reliable E" and key: "\<forall>t. length (fst (os_keygen E t)) = 32 \<and> length (snd (os_keygen E t)) = 32"
    and new: "\<not> (file_exists (d @ ''/identity.key'') w \<and> file_exists (d @ ''/identity.pub'') w)"
    and gen: "load_or_generate_keypair E d w = (Some True, w1)"
  shows "files w1 (d @ ''/identity.key'') = Some (priv_key (keypair w1))
    \<and> files w1 (d @ ''/identity.pub'') = Some (pub_key (keypair w1))
    \<and> length (priv_key (keypair w1)) = 32 \<and> length (pub_key (keypair w1)) = 32 \<and> key_loaded w1"
  using gen new key assms(1)
  by (auto simp: load_or_generate_keypair_def generate_keypair_def rand_bytes_def ofstream_open_def ofstream_write_def
      disk_reliable_def case_prod_beta Let_def split: if_splits)

section \<open>Properties\<close>

text \<open>C31: Authenticated encryption round trip. With a key of at least 32 bytes and a plaintext of at
  most \<open>INT_MAX\<close> bytes, \<open>encrypt\<close> returns a ciphertext 16 bytes longer than the plaintext and a
  nonce of 12 bytes, and \<open>decrypt\<close> with the same key, also with anything behind its first 32
  bytes, opens it to the plaintext; what is shorter than a tag decrypts to nothing, without an
  error.\<close>

theorem encrypt_round_trip:
  assumes "gcm_laws E" and "32 \<le> length key" and "length p < 2 ^ 31"
  shows "\<exists>c nonce w'. encrypt E p key w = (Some (c, nonce), w') \<and> length nonce = 12 \<and> length c = length p + 16
    \<and> decrypt E c key nonce = Some p \<and> decrypt E c (take 32 key @ x) nonce = Some p
    \<and> (\<forall>n. n < 16 \<longrightarrow> decrypt E (take n c) key nonce = Some [])"
proof -
  obtain c where c: "encrypt E p key w = (Some (c, fst (rand_bytes E 12 w)), step_tick w)"
    "length c = length p + 16" "decrypt E c key (fst (rand_bytes E 12 w)) = Some p"
    by (rule decrypt_encrypt [OF assms])
  moreover have "decrypt E c (take 32 key @ x) nonce = decrypt E c key nonce" for nonce
    using assms(2) by (simp add: decrypt_def min_absorb2)
  moreover have "decrypt E (take n c) key nonce = Some []" if "n < 16" for n nonce
    using that by (simp add: decrypt_def min_less_iff_disj)
  ultimately show ?thesis
    by (intro exI [of _ c] exI [of _ "fst (rand_bytes E 12 w)"] exI [of _ "step_tick w"]) simp
qed

theorem encrypt_round_trip_witness:
  "\<exists>c nonce w'. encrypt sample_env [1, 2, 3] (replicate 32 9) sample_world = (Some (c, nonce), w')
     \<and> decrypt sample_env c (replicate 32 9) nonce = Some [1, 2, 3]"
proof -
  have "32 \<le> length (replicate 32 (9 :: byte))" "length [1, 2, 3 :: byte] < 2 ^ 31" by simp_all
  from encrypt_round_trip [OF sample_gcm this, of sample_world "[]"] show ?thesis by blast
qed

text \<open>C30: The node keeps its keys. A start that generates the key pair leaves it in the two key
  files, and a later start that finds these files readable, with the key arrays at their full
  size, loads the same pair again and changes no file.\<close>

theorem keypair_persists:
  assumes "disk_reliable E" and "\<forall>t. length (fst (os_keygen E t)) = 32 \<and> length (snd (os_keygen E t)) = 32"
    and "\<not> (file_exists (d @ ''/identity.key'') w \<and> file_exists (d @ ''/identity.pub'') w)"
    and "load_or_generate_keypair E d w = (Some True, w1)"
    and later: "files w2 = files w1" "length (pub_key (keypair w2)) = 32" "length (priv_key (keypair w2)) = 32"
      "\<forall>t p. os_readable E t p"
  shows "\<exists>w3. crypto_init E d w2 = (Some True, w3) \<and> keypair w3 = keypair w1 \<and> key_loaded w3 \<and> files w3 = files w1
    \<and> cert_fingerprint w3 = cert_fingerprint w1"
proof -
  note f = generated_keypair_files [OF assms(1-4)]
  then have "file_exists (d @ ''/identity.key'') w2 \<and> file_exists (d @ ''/identity.pub'') w2"
    using later(1) by (simp add: file_exists_def)
  then show ?thesis
    using f later by (simp add: crypto_init_def load_or_generate_keypair_def ifstream_open_def read_into_full cert_fingerprint_def)
qed

theorem keypair_persists_witness:
  "\<exists>w3. crypto_init sample_env ''/h/.shr''
       (sample_world\<lparr>files := files (snd (crypto_init sample_env ''/h/.shr'' sample_world))\<rparr>) = (Some True, w3)
     \<and> keypair w3 = keypair (snd (crypto_init sample_env ''/h/.shr'' sample_world))"
proof -
  let ?r = "load_or_generate_keypair sample_env ''/h/.shr'' sample_world"
  have "fst ?r = Some True" by (simp add: load_or_generate_keypair_def generate_keypair_def rand_bytes_def ofstream_open_def
      ofstream_write_def file_exists_def sample_world_def sample_env_def Let_def)
  then have gen: "?r = (Some True, snd ?r)" by (metis prod.collapse)
  have new: "\<not> (file_exists (''/h/.shr'' @ ''/identity.key'') sample_world \<and> file_exists (''/h/.shr'' @ ''/identity.pub'') sample_world)"
    by (simp add: file_exists_def sample_world_def)
  have key: "\<forall>t. length (fst (os_keygen sample_env t)) = 32 \<and> length (snd (os_keygen sample_env t)) = 32"
    by (simp add: sample_env_def)
  show ?thesis
    using keypair_persists [OF sample_reliable(4) key new gen, of "sample_world\<lparr>files := files (snd ?r)\<rparr>"]
    by (auto simp: crypto_init_def) (auto simp: sample_world_def sample_env_def)
qed

end
