(* ===== verification/Shr_Network.thy ===== *)
theory Shr_Network
  imports Shr_Crypto
begin

text \<open>
  \<open>src/network.cxx\<close>: the packet codec, the socket loops that move whole frames over a stream
  the kernel may cut anywhere, connections, the listener, the dispatch loop of an accepted
  connection and the discovery broadcast.

  A socket is described by the bytes sent on it and the number of bytes consumed from it; what
  the other end has sent so far is the function \<open>peer_stream\<close> of the bytes sent to it. Header
  integers are in the byte order of a little-endian host.
\<close>

section \<open>Packet codec\<close>

definition HEADER_SIZE :: nat where "HEADER_SIZE = 41"

definition le32 :: "u32 \<Rightarrow> bytes" where
  "le32 n = [ucast n, ucast (drop_bit 8 n), ucast (drop_bit 16 n), ucast (drop_bit 24 n)]"

fun of_le32 :: "bytes \<Rightarrow> u32" where
  "of_le32 [a, b, c, d] =
     ucast a OR push_bit 8 (ucast b) OR push_bit 16 (ucast c) OR push_bit 24 (ucast d)"
| "of_le32 _ = 0"

text \<open>\<open>memcpy\<close> from and to the packed header.\<close>

definition header_bytes :: "PacketHeader \<Rightarrow> bytes" where
  "header_bytes h = map byte_of_char (h_magic h) @ [h_type h] @ le32 (h_payload_len h) @ h_hmac h"

definition header_of_bytes :: "bytes \<Rightarrow> PacketHeader" where
  "header_of_bytes bs =
     \<lparr>h_magic = map char_of_byte (take 4 bs), h_type = bs ! 4,
      h_payload_len = of_le32 (take 4 (drop 5 bs)), h_hmac = take 32 (drop 9 bs)\<rparr>"

text \<open>An absent or empty key is the empty list.\<close>

definition serialize_packet :: "'x lib_scheme \<Rightarrow> PacketType \<Rightarrow> bytes \<Rightarrow> bytes \<Rightarrow> bytes" where
  "serialize_packet L type payload hmac_key =
     (let hdr = \<lparr>h_magic = SHR_PROTOCOL_MAGIC, h_type = packet_type_code type,
                 h_payload_len = word_of_nat (length payload), h_hmac = replicate 32 0\<rparr>;
          hdr = (if hmac_key \<noteq> [] then hdr\<lparr>h_hmac := take 32 (hmac_sha256 L payload hmac_key)\<rparr> else hdr)
      in header_bytes hdr @ payload)"

definition parse_packet_header :: "bytes \<Rightarrow> (PacketHeader \<times> nat) option" where
  "parse_packet_header buf =
     (if length buf < HEADER_SIZE then None
      else
        let hdr = header_of_bytes buf in
        if h_magic hdr \<noteq> SHR_PROTOCOL_MAGIC then None else Some (hdr, HEADER_SIZE))"

section \<open>Sockets\<close>

definition sock_avail :: "'x env_scheme \<Rightarrow> nat \<Rightarrow> world \<Rightarrow> bytes" where
  "sock_avail E s w =
     (case socks w s of None \<Rightarrow> [] | Some k \<Rightarrow> drop (s_consumed k) (peer_stream E s (s_sent k)))"

definition sock_put :: "nat \<Rightarrow> bytes \<Rightarrow> world \<Rightarrow> world" where
  "sock_put s d w =
     w\<lparr>socks := (socks w)(s := map_option (\<lambda>k. k\<lparr>s_sent := s_sent k @ d\<rparr>) (socks w s))\<rparr>"

definition sock_take :: "nat \<Rightarrow> nat \<Rightarrow> world \<Rightarrow> world" where
  "sock_take s n w =
     w\<lparr>socks := (socks w)(s := map_option (\<lambda>k. k\<lparr>s_consumed := s_consumed k + n\<rparr>) (socks w s))\<rparr>"

text \<open>One \<open>send\<close> of at most the given bytes: how many the kernel took, \<open>None\<close> for an error
  or a closed socket. The length passes through an \<open>int\<close>: of \<open>2 ^ 32\<close> bytes none is asked for, and
  for a negative \<open>int\<close> the kernel sees a huge size, of which it takes at most \<open>INT_MAX\<close> bytes. The
  signal \<open>SIGPIPE\<close>, which ends the process when the peer has closed its side, is not modelled.\<close>

definition send_some :: "'x env_scheme \<Rightarrow> nat \<Rightarrow> bytes \<Rightarrow> world \<Rightarrow> nat option \<times> world" where
  "send_some E s d w =
     (let m = int_size (length d);
          n = (if socks w s = None then -1 else if m = 0 then 0 else os_send E (tick w) m);
          w = step_tick w;
          k = min (nat n) (min m (length d))
      in if n \<le> 0 then (None, w) else (Some k, sock_put s (take k d) w))"

lemma send_some_length:
  assumes "send_some E s d w = (Some k, w')" and "0 < length d"
  shows "0 < k \<and> k \<le> length d"
  using assms by (auto simp: send_some_def Let_def split: if_splits)

function write_raw_loop :: "'x env_scheme \<Rightarrow> nat \<Rightarrow> bytes \<Rightarrow> nat \<Rightarrow> world \<Rightarrow> bool \<times> world" where
  "write_raw_loop E s data sent w =
     (if sent < length data then
        (case send_some E s (drop sent data) w of
           (None, w) \<Rightarrow> (False, w)
         | (Some k, w) \<Rightarrow> write_raw_loop E s data (sent + k) w)
      else (True, w))"
  by pat_completeness auto
termination
  by (relation "measure (\<lambda>(E, s, data, sent, w). length data - sent)")
     (auto dest!: send_some_length [OF sym])

declare write_raw_loop.simps [simp del]

definition write_raw :: "'x env_scheme \<Rightarrow> nat \<Rightarrow> bytes \<Rightarrow> world \<Rightarrow> bool \<times> world" where
  "write_raw E s data w = write_raw_loop E s data 0 w"

text \<open>One round of \<open>read_raw\<close>: \<open>select\<close> with the timeout, then \<open>recv\<close> of at most \<open>want\<close>
  bytes; \<open>None\<close> when either of them gives no progress.\<close>

definition recv_some :: "'x env_scheme \<Rightarrow> nat \<Rightarrow> nat \<Rightarrow> world \<Rightarrow> bytes option \<times> world" where
  "recv_some E s want w =
     (let sel = os_select E (tick w); w = step_tick w in
      if sel \<le> 0 then (None, w)
      else
        let avail = sock_avail E s w;
            room = min (min want (int_size want)) (length avail);
            n = (if room = 0 then 0 else os_recv E (tick w) room);
            w = step_tick w
        in if n \<le> 0 then (None, w)
           else let k = min (nat n) room in (Some (take k avail), sock_take s k w))"

lemma recv_some_length:
  assumes "recv_some E s want w = (Some d, w')"
  shows "0 < length d \<and> length d \<le> want"
proof -
  define avail where "avail = sock_avail E s (step_tick w)"
  define room where "room = min (min want (int_size want)) (length avail)"
  have r: "room \<le> want" "room \<le> length avail" by (simp_all add: room_def)
  show ?thesis
    using assms r
    unfolding recv_some_def Let_def avail_def [symmetric] room_def [symmetric]
    by (auto simp: min_def split: if_splits)
qed

function read_raw_loop :: "'x env_scheme \<Rightarrow> nat \<Rightarrow> nat \<Rightarrow> bytes \<Rightarrow> world \<Rightarrow> bytes option \<times> world" where
  "read_raw_loop E s len buf w =
     (if length buf < len then
        (case recv_some E s (len - length buf) w of
           (None, w) \<Rightarrow> (None, w)
         | (Some d, w) \<Rightarrow> read_raw_loop E s len (buf @ d) w)
      else (Some buf, w))"
  by pat_completeness auto
termination
  by (relation "measure (\<lambda>(E, s, len, buf, w). len - length buf)")
     (auto dest!: recv_some_length [OF sym] simp flip: length_greater_0_conv)

declare read_raw_loop.simps [simp del]

definition read_raw :: "'x env_scheme \<Rightarrow> nat \<Rightarrow> nat \<Rightarrow> world \<Rightarrow> bytes option \<times> world" where
  "read_raw E s len w = read_raw_loop E s len [] w"

text \<open>The payload buffer is allocated in full before it is read; that the allocation may fail is not
  modelled.\<close>

definition read_packet :: "'x env_scheme \<Rightarrow> nat \<Rightarrow> RawPacket \<Rightarrow> world \<Rightarrow> RawPacket option \<times> world" where
  "read_packet E s out w =
     (case read_raw E s HEADER_SIZE w of
        (None, w) \<Rightarrow> (None, w)
      | (Some hdr_buf, w) \<Rightarrow>
          (case parse_packet_header hdr_buf of
             None \<Rightarrow> (None, w)
           | Some (hdr, hdr_size) \<Rightarrow>
               let out = out\<lparr>k_type := packet_type_of (h_type hdr), k_payload := []\<rparr> in
               if 0 < h_payload_len hdr then
                 (case read_raw E s (unat (h_payload_len hdr)) w of
                    (None, w) \<Rightarrow> (None, w)
                  | (Some p, w) \<Rightarrow> (Some (out\<lparr>k_payload := p\<rparr>), w))
               else (Some out, w)))"

definition send_packet_conn :: "'x env_scheme \<Rightarrow> nat \<Rightarrow> PacketType \<Rightarrow> bytes \<Rightarrow> world \<Rightarrow> bool \<times> world" where
  "send_packet_conn E s type payload w = write_raw E s (serialize_packet E type payload []) w"

definition connect_to :: "'x env_scheme \<Rightarrow> string \<Rightarrow> u16 \<Rightarrow> world \<Rightarrow> nat option \<times> world" where
  "connect_to E ip port w =
     (let made = os_socket E (tick w); w = step_tick w in
      if \<not> made then (None, w)
      else
        let ok = os_connect E (tick w) ip port; w = step_tick w in
        if \<not> ok then (None, w)
        else (Some (next_sock w),
              w\<lparr>socks := (socks w)(next_sock w \<mapsto> \<lparr>s_sent = [], s_consumed = 0\<rparr>),
                next_sock := Suc (next_sock w)\<rparr>))"

text \<open>The traffic of a closed connection stays visible in \<open>closed_socks\<close>.\<close>

definition close_conn :: "nat \<Rightarrow> world \<Rightarrow> world" where
  "close_conn s w =
     w\<lparr>socks := (socks w)(s := None),
       closed_socks := (case socks w s of None \<Rightarrow> closed_socks w | Some k \<Rightarrow> (closed_socks w)(s \<mapsto> k))\<rparr>"

definition send_packet ::
  "'x env_scheme \<Rightarrow> string \<Rightarrow> u16 \<Rightarrow> PacketType \<Rightarrow> bytes \<Rightarrow> world \<Rightarrow> bool \<times> world" where
  "send_packet E ip port type payload w =
     (case connect_to E ip port w of
        (None, w) \<Rightarrow> (False, w)
      | (Some conn, w) \<Rightarrow>
          let (ok, w) = send_packet_conn E conn type payload w in (ok, close_conn conn w))"

section \<open>Listener and dispatch\<close>

type_synonym handlers = "PacketType \<rightharpoonup> (RawPacket \<Rightarrow> nat \<Rightarrow> world \<Rightarrow> world)"

definition register_handler ::
  "PacketType \<Rightarrow> (RawPacket \<Rightarrow> nat \<Rightarrow> world \<Rightarrow> world) \<Rightarrow> handlers \<Rightarrow> handlers" where
  "register_handler type h hs = hs(type \<mapsto> h)"

definition network_start :: "'x env_scheme \<Rightarrow> u16 \<Rightarrow> world \<Rightarrow> bool \<times> world" where
  "network_start E port w =
     (let made = os_socket E (tick w); w = step_tick w in
      if \<not> made then (False, w\<lparr>listen_sock := None\<rparr>)
      else
        let ls = next_sock w;
            w = w\<lparr>listen_sock := Some ls, next_sock := Suc ls\<rparr>;
            bound = os_bind E (tick w) port; w = step_tick w
        in if \<not> bound then (False, w\<lparr>listen_sock := None\<rparr>)
           else
             let listening = os_listen E (tick w); w = step_tick w in
             if \<not> listening then (False, w\<lparr>listen_sock := None\<rparr>)
             else (True, LOG_INFO E (''Network listening on port '' @ show_nat (unat port))
                           (w\<lparr>net_port := port, net_running := True\<rparr>)))"

definition network_stop :: "world \<Rightarrow> world" where
  "network_stop w = w\<lparr>net_running := False, listen_sock := None\<rparr>"

text \<open>One round of \<open>accept_loop\<close> that got a connection: the new socket on which a detached
  thread then runs \<open>handle_conn\<close>.\<close>

definition accept_conn :: "world \<Rightarrow> nat \<times> world" where
  "accept_conn w =
     (next_sock w, w\<lparr>socks := (socks w)(next_sock w \<mapsto> \<lparr>s_sent = [], s_consumed = 0\<rparr>),
                     next_sock := Suc (next_sock w)\<rparr>)"

definition closing_type :: "PacketType \<Rightarrow> bool" where
  "closing_type t \<longleftrightarrow> t = FileComplete \<or> t = MsgAck \<or> t = Pong \<or> t = PktError"

definition dispatch :: "handlers \<Rightarrow> RawPacket \<Rightarrow> nat \<Rightarrow> world \<Rightarrow> world" where
  "dispatch hs pkt s w = (case hs (k_type pkt) of None \<Rightarrow> w | Some h \<Rightarrow> h pkt s w)"

text \<open>The loop ends when no further packet can be read or after a packet that closes the
  connection; a peer that never stops sending keeps it running.\<close>

partial_function (option) conn_loop ::
  "'x env_scheme \<Rightarrow> handlers \<Rightarrow> nat \<Rightarrow> RawPacket \<Rightarrow> world \<Rightarrow> world option" where
  "conn_loop E hs s pkt w =
     (case read_packet E s pkt w of
        (None, w) \<Rightarrow> Some w
      | (Some pkt, w) \<Rightarrow>
          if closing_type (k_type pkt) then Some (dispatch hs pkt s w)
          else conn_loop E hs s pkt (dispatch hs pkt s w))"

definition handle_conn ::
  "'x env_scheme \<Rightarrow> handlers \<Rightarrow> nat \<Rightarrow> string \<Rightarrow> world \<Rightarrow> world option" where
  "handle_conn E hs s peer_ip w =
     map_option (close_conn s)
       (conn_loop E hs s \<lparr>k_type = Unlisted 0, k_payload = [], k_peer_ip = peer_ip, k_peer_port = 0\<rparr> w)"

fun broadcast_loop ::
  "'x env_scheme \<Rightarrow> u16 \<Rightarrow> bytes \<Rightarrow> string list \<Rightarrow> bool \<Rightarrow> world \<Rightarrow> bool \<times> world" where
  "broadcast_loop E port payload [] any_ok w = (any_ok, w)"
| "broadcast_loop E port payload (ip # ips) any_ok w =
     (let bcast_ip = get_broadcast_addr ip ''255.255.255.0'';
          frame = serialize_packet E PeerDiscover payload [];
          n = os_send E (tick w) (length frame);
          w = step_tick w
      in if 0 < n
         then broadcast_loop E port payload ips True (w\<lparr>udp_out := udp_out w @ [(bcast_ip, port, frame)]\<rparr>)
         else broadcast_loop E port payload ips any_ok w)"

definition broadcast_udp :: "'x env_scheme \<Rightarrow> u16 \<Rightarrow> bytes \<Rightarrow> world \<Rightarrow> bool \<times> world" where
  "broadcast_udp E port payload w =
     (let made = os_socket E (tick w); w = step_tick w in
      if \<not> made then (False, w) else broadcast_loop E port payload (get_local_ips E) False w)"

section \<open>Lemmas on the codec\<close>

lemma le32_length [simp]: "length (le32 n) = 4"
  by (simp add: le32_def)

lemma of_le32_le32 [simp]: "of_le32 (le32 n) = n"
proof (rule bit_word_eqI)
  fix i assume "i < LENGTH(32)"
  then consider "i < 8" | "8 \<le> i" "i < 16" | "16 \<le> i" "i < 24" | "24 \<le> i" "i < 32"
    by fastforce
  then show "bit (of_le32 (le32 n)) i = bit n i"
    by cases (auto simp: le32_def bit_simps)
qed

definition header_wf :: "PacketHeader \<Rightarrow> bool" where
  "header_wf h \<longleftrightarrow> length (h_magic h) = 4 \<and> length (h_hmac h) = 32"

lemma header_bytes_length: "header_wf h \<Longrightarrow> length (header_bytes h) = HEADER_SIZE"
  by (simp add: header_wf_def header_bytes_def HEADER_SIZE_def)

lemma header_round_trip: "header_wf h \<Longrightarrow> header_of_bytes (header_bytes h @ rest) = h"
  by (simp add: header_wf_def header_bytes_def header_of_bytes_def nth_append)

definition packet_header :: "'x lib_scheme \<Rightarrow> PacketType \<Rightarrow> bytes \<Rightarrow> bytes \<Rightarrow> PacketHeader" where
  "packet_header L t p key =
     \<lparr>h_magic = SHR_PROTOCOL_MAGIC, h_type = packet_type_code t, h_payload_len = word_of_nat (length p),
      h_hmac = (if key = [] then replicate 32 0 else take 32 (hmac_sha256 L p key))\<rparr>"

lemma serialize_packet_split: "serialize_packet L t p key = header_bytes (packet_header L t p key) @ p"
  by (simp add: serialize_packet_def packet_header_def)

lemma packet_header_wf:
  "key = [] \<or> 32 \<le> length (hmac_sha256 L p key) \<Longrightarrow> header_wf (packet_header L t p key)"
  by (auto simp: packet_header_def header_wf_def SHR_PROTOCOL_MAGIC_def)

lemma parse_serialized:
  assumes "key = [] \<or> 32 \<le> length (hmac_sha256 L p key)"
  shows "parse_packet_header (take HEADER_SIZE (serialize_packet L t p key @ rest)) =
     Some (packet_header L t p key, HEADER_SIZE)"
proof -
  have wf: "header_wf (packet_header L t p key)" using assms by (rule packet_header_wf)
  have len: "length (header_bytes (packet_header L t p key)) = HEADER_SIZE"
    using wf by (rule header_bytes_length)
  then have "take HEADER_SIZE (serialize_packet L t p key @ rest) = header_bytes (packet_header L t p key) @ []"
    by (simp add: serialize_packet_split)
  then show ?thesis
    using header_round_trip [OF wf, of "[]"] len
    by (simp add: parse_packet_header_def packet_header_def Let_def)
qed

lemma serialize_length:
  "key = [] \<Longrightarrow> length (serialize_packet L t p key) = HEADER_SIZE + length p"
  by (simp add: serialize_packet_split header_bytes_length packet_header_wf)

lemma parse_short: "length buf < HEADER_SIZE \<Longrightarrow> parse_packet_header buf = None"
  by (simp add: parse_packet_header_def)

lemma parse_bad_magic: "map char_of_byte (take 4 buf) \<noteq> SHR_PROTOCOL_MAGIC \<Longrightarrow> parse_packet_header buf = None"
  by (simp add: parse_packet_header_def header_of_bytes_def Let_def)

section \<open>Lemmas on the socket loops\<close>

text \<open>Two worlds that differ in the clock and in one socket only.\<close>

definition sock_frame :: "nat \<Rightarrow> world \<Rightarrow> sock \<Rightarrow> world \<Rightarrow> bool" where
  "sock_frame s w k w' \<longleftrightarrow> (\<exists>t. w' = w\<lparr>tick := t, socks := (socks w)(s \<mapsto> k)\<rparr>)"

lemma sock_frame_refl: "socks w s = Some k \<Longrightarrow> sock_frame s w k w"
  unfolding sock_frame_def by (rule exI [of _ "tick w"]) (simp add: fun_upd_idem)

lemma sock_frame_tick: "socks w s = Some k \<Longrightarrow> sock_frame s w k (step_tick w)"
  unfolding sock_frame_def step_tick_def by (rule exI [of _ "Suc (tick w)"]) (simp add: fun_upd_idem)

lemma sock_frame_trans: "sock_frame s w k w' \<Longrightarrow> sock_frame s w' k' w'' \<Longrightarrow> sock_frame s w k' w''"
  by (auto simp: sock_frame_def)

lemma sock_frame_sock [simp]: "sock_frame s w k w' \<Longrightarrow> socks w' s = Some k"
  by (auto simp: sock_frame_def)

lemma sock_put_frame: "socks w s = Some k \<Longrightarrow> sock_frame s w (k\<lparr>s_sent := s_sent k @ d\<rparr>) (sock_put s d w)"
  unfolding sock_frame_def sock_put_def by (rule exI [of _ "tick w"]) simp

lemma sock_take_frame: "socks w s = Some k \<Longrightarrow> sock_frame s w (k\<lparr>s_consumed := s_consumed k + n\<rparr>) (sock_take s n w)"
  unfolding sock_frame_def sock_take_def by (rule exI [of _ "tick w"]) simp

lemma sock_frame_fields:
  assumes "sock_frame s w k w'"
  shows "files w' = files w" "dirs w' = dirs w" "db w' = db w" "cfg w' = cfg w" "ident w' = ident w"
    "cout w' = cout w" "cerr w' = cerr w" "logger w' = logger w" "next_sock w' = next_sock w"
    "active_count w' = active_count w" "socks w' = (socks w)(s \<mapsto> k)" "net_running w' = net_running w"
    "db_open w' = db_open w" "closed_socks w' = closed_socks w" "keypair w' = keypair w"
    "listen_sock w' = listen_sock w"
  using assms by (auto simp: sock_frame_def)

lemma send_some_step:
  assumes "socks w s = Some k" and "send_some E s d w = (Some n, w')"
  shows "sock_frame s w (k\<lparr>s_sent := s_sent k @ take n d\<rparr>) w'"
  using assms sock_put_frame [of "step_tick w" s k "take n d"] sock_frame_tick [of w s k]
  by (auto simp: send_some_def Let_def split: if_splits intro: sock_frame_trans)

text \<open>Whatever the kernel does, the bytes that leave are a prefix of the frame in order, and
  success means all of them left.\<close>

lemma write_raw_loop_spec:
  assumes "socks w s = Some k" and "sent \<le> length data"
    and "write_raw_loop E s data sent w = (ok, w')"
  shows "\<exists>n. sent \<le> n \<and> n \<le> length data \<and> (ok \<longrightarrow> n = length data) \<and>
    sock_frame s w (k\<lparr>s_sent := s_sent k @ take (n - sent) (drop sent data)\<rparr>) w'"
  using assms
proof (induction E s data sent w arbitrary: k rule: write_raw_loop.induct)
  case (1 E s data sent w)
  show ?case
  proof (cases "sent < length data")
    case False
    with "1.prems" have "ok \<and> w' = w \<and> sent = length data"
      using write_raw_loop.simps [of E s data sent w] by simp
    with "1.prems" show ?thesis using sock_frame_refl by (intro exI [of _ sent]) auto
  next
    case True
    obtain m w1 where s1: "send_some E s (drop sent data) w = (m, w1)" by fastforce
    show ?thesis
    proof (cases m)
      case None
      with True s1 "1.prems" have "\<not> ok \<and> w' = w1"
        by (simp add: write_raw_loop.simps [of E s data sent w])
      moreover from s1 None have "w1 = step_tick w"
        by (auto simp: send_some_def Let_def split: if_splits)
      ultimately show ?thesis
        using "1.prems" sock_frame_tick by (intro exI [of _ sent]) auto
    next
      case (Some n)
      have n: "0 < n" "n \<le> length data - sent"
        using send_some_length [OF s1 [unfolded Some]] True by auto
      have f1: "sock_frame s w (k\<lparr>s_sent := s_sent k @ take n (drop sent data)\<rparr>) w1"
        using send_some_step "1.prems"(1) s1 Some by blast
      from True s1 Some "1.prems"(3) have rest: "write_raw_loop E s data (sent + n) w1 = (ok, w')"
        by (simp add: write_raw_loop.simps [of E s data sent w])
      have le: "sent + n \<le> length data" using n True by simp
      from "1.IH" [OF True s1 [symmetric] Some sock_frame_sock [OF f1] le rest]
      obtain m' where m': "sent + n \<le> m'" "m' \<le> length data" "ok \<longrightarrow> m' = length data"
        and f2: "sock_frame s w1 (k\<lparr>s_sent := (s_sent k @ take n (drop sent data)) @
            take (m' - (sent + n)) (drop (sent + n) data)\<rparr>) w'"
        by auto
      have "take n (drop sent data) @ take (m' - (sent + n)) (drop (sent + n) data) = take (m' - sent) (drop sent data)"
        using m' take_add [of n "m' - (sent + n)" "drop sent data"] by (simp add: add.commute)
      with sock_frame_trans [OF f1 f2] m' n show ?thesis
        by (intro exI [of _ m']) auto
    qed
  qed
qed

lemma write_raw_spec:
  assumes "socks w s = Some k" and "write_raw E s data w = (ok, w')"
  shows "\<exists>n \<le> length data. (ok \<longrightarrow> n = length data) \<and>
    sock_frame s w (k\<lparr>s_sent := s_sent k @ take n data\<rparr>) w'"
  using write_raw_loop_spec [OF assms(1) le0 assms(2) [unfolded write_raw_def]] by auto

lemma send_some_reliable:
  assumes "sockets_reliable E" and "socks w s = Some k" and "d \<noteq> []" and "length d < 2 ^ 32"
  obtains n w' where "send_some E s d w = (Some n, w')"
proof -
  have m: "0 < int_size (length d)" using assms(3,4) by (intro int_size_pos) simp_all
  then have "1 \<le> os_send E (tick w) (int_size (length d))"
    using assms(1) by (simp add: sockets_reliable_def)
  then show ?thesis using assms(2) m that by (simp add: send_some_def Let_def)
qed

lemma write_raw_loop_reliable:
  assumes "sockets_reliable E" and "socks w s = Some k" and "length data < 2 ^ 32"
  shows "fst (write_raw_loop E s data sent w)"
  using assms
proof (induction E s data sent w arbitrary: k rule: write_raw_loop.induct)
  case (1 E s data sent w)
  show ?case
  proof (cases "sent < length data")
    case False
    then show ?thesis by (simp add: write_raw_loop.simps [of E s data sent w])
  next
    case True
    then have "drop sent data \<noteq> []" "length (drop sent data) < 2 ^ 32" using "1.prems"(3) by auto
    then obtain n w' where s1: "send_some E s (drop sent data) w = (Some n, w')"
      by (rule send_some_reliable [OF "1.prems"(1,2)])
    from "1.IH" [OF True s1 [symmetric] refl "1.prems"(1) sock_frame_sock [OF send_some_step [OF "1.prems"(2) s1]] "1.prems"(3)]
    show ?thesis using True s1 by (simp add: write_raw_loop.simps [of E s data sent w])
  qed
qed

lemma write_raw_reliable:
  assumes "sockets_reliable E" and "socks w s = Some k" and "length data < 2 ^ 32"
  obtains w' where "write_raw E s data w = (True, w')"
    and "sock_frame s w (k\<lparr>s_sent := s_sent k @ data\<rparr>) w'"
proof -
  obtain ok w' where w': "write_raw E s data w = (ok, w')" by fastforce
  with write_raw_loop_reliable [OF assms, of 0] have ok: "ok" by (simp add: write_raw_def)
  from write_raw_spec [OF assms(2) w'] ok show ?thesis using w' that by auto
qed

text \<open>Reading: what is returned is the next bytes of the stream, in order, and exactly as many
  as were asked for.\<close>

lemma sock_avail_step_tick [simp]: "sock_avail E s (step_tick w) = sock_avail E s w"
  by (simp add: sock_avail_def)

definition recv_count :: "'x env_scheme \<Rightarrow> nat \<Rightarrow> nat \<Rightarrow> world \<Rightarrow> int" where
  "recv_count E s want w =
     (let room = min (min want (int_size want)) (length (sock_avail E s w))
      in if room = 0 then 0 else min (os_recv E (Suc (tick w)) room) (int room))"

lemma recv_some_eq:
  "recv_some E s want w =
     (if os_select E (tick w) \<le> 0 then (None, step_tick w)
      else if recv_count E s want w \<le> 0 then (None, step_tick (step_tick w))
      else (Some (take (nat (recv_count E s want w)) (sock_avail E s w)),
            sock_take s (nat (recv_count E s want w)) (step_tick (step_tick w))))"
proof -
  define room where "room = min (min want (int_size want)) (length (sock_avail E s w))"
  define r where "r = os_recv E (Suc (tick w)) room"
  have "min (nat r) room = nat (min r (int room))"
    by (cases "r \<le> int room") (auto simp: min_def nat_le_iff)
  then show ?thesis
    unfolding recv_some_def Let_def sock_avail_step_tick step_tick_simps room_def [symmetric] recv_count_def
    by (auto simp: r_def min_le_iff_disj)
qed

lemma recv_count_bounds: "recv_count E s want w \<le> int want" "recv_count E s want w \<le> int (length (sock_avail E s w))"
  unfolding recv_count_def Let_def by (auto intro!: min.coboundedI2)

lemma recv_some_Some:
  assumes "recv_some E s want w = (Some d, w')"
  obtains n where "n \<le> length (sock_avail E s w)" and "d = take n (sock_avail E s w)"
    and "w' = sock_take s n (step_tick (step_tick w))"
proof -
  let ?n = "nat (recv_count E s want w)"
  from assms have "d = take ?n (sock_avail E s w)" "w' = sock_take s ?n (step_tick (step_tick w))"
    by (simp_all add: recv_some_eq split: if_split_asm)
  moreover have "?n \<le> length (sock_avail E s w)"
    using recv_count_bounds(2) [of E s want w] by simp
  ultimately show ?thesis using that by blast
qed

lemma recv_some_step:
  assumes k: "socks w s = Some k" and r: "recv_some E s want w = (Some d, w')"
  shows "sock_frame s w (k\<lparr>s_consumed := s_consumed k + length d\<rparr>) w'
    \<and> d = take (length d) (sock_avail E s w)"
proof -
  from r obtain n where n: "n \<le> length (sock_avail E s w)" "d = take n (sock_avail E s w)"
    "w' = sock_take s n (step_tick (step_tick w))" by (rule recv_some_Some)
  then have "length d = n" by simp
  moreover have "sock_frame s w k (step_tick (step_tick w))"
    using k sock_frame_tick [of w s k] sock_frame_tick [of "step_tick w" s k] sock_frame_trans by simp
  moreover have "sock_frame s (step_tick (step_tick w)) (k\<lparr>s_consumed := s_consumed k + n\<rparr>) w'"
    unfolding n(3) using k by (intro sock_take_frame) simp
  ultimately have "sock_frame s w (k\<lparr>s_consumed := s_consumed k + length d\<rparr>) w'"
    using sock_frame_trans by blast
  with \<open>length d = n\<close> n(2) show ?thesis by simp
qed

lemma recv_some_fail_frame:
  assumes "socks w s = Some k" and "recv_some E s want w = (None, w')"
  shows "sock_frame s w k w'"
proof -
  from assms(2) have "w' = step_tick w \<or> w' = step_tick (step_tick w)"
    by (simp add: recv_some_eq split: if_split_asm)
  moreover have "sock_frame s w k (step_tick w)" "sock_frame s (step_tick w) k (step_tick (step_tick w))"
    using assms(1) by (simp_all add: sock_frame_tick)
  ultimately show ?thesis using sock_frame_trans by blast
qed

lemma sock_avail_take:
  assumes "sock_frame s w (k\<lparr>s_consumed := s_consumed k + n\<rparr>) w'" and "socks w s = Some k"
  shows "sock_avail E s w' = drop n (sock_avail E s w)"
  using assms by (auto simp: sock_frame_def sock_avail_def add.commute)

lemma read_raw_loop_spec:
  assumes "socks w s = Some k" and "length buf \<le> len"
    and "read_raw_loop E s len buf w = (r, w')"
  shows "\<exists>n. sock_frame s w (k\<lparr>s_consumed := s_consumed k + n\<rparr>) w' \<and> n \<le> length (sock_avail E s w)
    \<and> (case r of Some d \<Rightarrow> n = len - length buf \<and> d = buf @ take n (sock_avail E s w) | None \<Rightarrow> n < len - length buf)"
  using assms
proof (induction E s len buf w arbitrary: k rule: read_raw_loop.induct)
  case (1 E s len buf w)
  show ?case
  proof (cases "length buf < len")
    case False
    with "1.prems" have "r = Some buf \<and> w' = w \<and> length buf = len"
      using read_raw_loop.simps [of E s len buf w] by simp
    with "1.prems" show ?thesis using sock_frame_refl [of w s k] by (intro exI [of _ 0]) auto
  next
    case True
    obtain m w1 where s1: "recv_some E s (len - length buf) w = (m, w1)" by fastforce
    show ?thesis
    proof (cases m)
      case None
      with True s1 "1.prems" have "r = None \<and> w' = w1"
        using read_raw_loop.simps [of E s len buf w] by simp
      moreover from s1 None "1.prems" have "sock_frame s w k w1"
        using recv_some_fail_frame by blast
      ultimately show ?thesis using True by (intro exI [of _ 0]) auto
    next
      case (Some d)
      have d: "0 < length d" "length d \<le> len - length buf"
        using recv_some_length [OF s1 [unfolded Some]] by auto
      have f1: "sock_frame s w (k\<lparr>s_consumed := s_consumed k + length d\<rparr>) w1"
        and dd: "d = take (length d) (sock_avail E s w)"
        using recv_some_step "1.prems"(1) s1 Some by blast+
      from dd have ld: "length d \<le> length (sock_avail E s w)" by (metis length_take min.cobounded1)
      have av: "sock_avail E s w1 = drop (length d) (sock_avail E s w)"
        using sock_avail_take f1 "1.prems"(1) by blast
      from True s1 Some "1.prems"(3) have rest: "read_raw_loop E s len (buf @ d) w1 = (r, w')"
        using read_raw_loop.simps [of E s len buf w] by simp
      have le: "length (buf @ d) \<le> len" using d True by simp
      from "1.IH" [OF True s1 [symmetric] Some sock_frame_sock [OF f1] le rest]
      obtain n where n: "n \<le> length (sock_avail E s w1)"
        and f2: "sock_frame s w1 (k\<lparr>s_consumed := s_consumed k + length d + n\<rparr>) w'"
        and r: "case r of Some x \<Rightarrow> n = len - length (buf @ d) \<and> x = (buf @ d) @ take n (sock_avail E s w1)
                | None \<Rightarrow> n < len - length (buf @ d)"
        by auto
      have "take (length d + n) (sock_avail E s w) = d @ take n (sock_avail E s w1)"
        by (simp only: take_add av) (metis dd)
      with r d True have "case r of Some x \<Rightarrow> length d + n = len - length buf \<and> x = buf @ take (length d + n) (sock_avail E s w)
                | None \<Rightarrow> length d + n < len - length buf"
        by (auto split: option.splits)
      then show ?thesis
        using sock_frame_trans [OF f1 f2] n av ld by (intro exI [of _ "length d + n"]) (auto simp: add.assoc)
    qed
  qed
qed

lemma read_raw_spec:
  assumes "socks w s = Some k" and "read_raw E s len w = (r, w')"
  shows "\<exists>n. sock_frame s w (k\<lparr>s_consumed := s_consumed k + n\<rparr>) w' \<and> n \<le> length (sock_avail E s w)
    \<and> (case r of Some d \<Rightarrow> n = len \<and> d = take len (sock_avail E s w) | None \<Rightarrow> n < len)"
  using read_raw_loop_spec [OF assms(1) _ assms(2) [unfolded read_raw_def]] by (auto split: option.splits)

lemma recv_some_reliable:
  assumes "sockets_reliable E" and "0 < want" and "want < 2 ^ 32" and "sock_avail E s w \<noteq> []"
  obtains d w' where "recv_some E s want w = (Some d, w')"
proof -
  define room where "room = min (min want (int_size want)) (length (sock_avail E s w))"
  have room: "0 < room" using assms int_size_pos [of want] by (simp add: room_def)
  then have "1 \<le> os_recv E (Suc (tick w)) room" "0 < os_select E (tick w)"
    using assms(1) by (simp_all add: sockets_reliable_def)
  with room have "0 < recv_count E s want w"
    unfolding recv_count_def Let_def room_def [symmetric] by simp
  with \<open>0 < os_select E (tick w)\<close> show ?thesis using that by (simp add: recv_some_eq)
qed

lemma read_raw_loop_reliable:
  assumes "sockets_reliable E" and "socks w s = Some k" and "len \<le> length buf + length (sock_avail E s w)" and "len < 2 ^ 32"
  shows "fst (read_raw_loop E s len buf w) \<noteq> None"
  using assms
proof (induction E s len buf w arbitrary: k rule: read_raw_loop.induct)
  case (1 E s len buf w)
  show ?case
  proof (cases "length buf < len")
    case False
    then show ?thesis by (simp add: read_raw_loop.simps [of E s len buf w])
  next
    case True
    with "1.prems"(3) have ne: "sock_avail E s w \<noteq> []" by auto
    have "0 < len - length buf" "len - length buf < 2 ^ 32" using True "1.prems"(4) by simp_all
    then obtain d w' where s1: "recv_some E s (len - length buf) w = (Some d, w')"
      by (rule recv_some_reliable [OF "1.prems"(1) _ _ ne])
    have f1: "sock_frame s w (k\<lparr>s_consumed := s_consumed k + length d\<rparr>) w'"
      using recv_some_step [OF "1.prems"(2) s1] by blast
    have "len \<le> length (buf @ d) + length (sock_avail E s w')"
      using "1.prems"(3) sock_avail_take [OF f1 "1.prems"(2), of E] by simp
    from "1.IH" [OF True s1 [symmetric] refl "1.prems"(1) sock_frame_sock [OF f1] this "1.prems"(4)]
    show ?thesis using True s1 by (simp add: read_raw_loop.simps [of E s len buf w])
  qed
qed

lemma read_raw_reliable:
  assumes "sockets_reliable E" and "socks w s = Some k" and "len \<le> length (sock_avail E s w)" and "len < 2 ^ 32"
  obtains w' where "read_raw E s len w = (Some (take len (sock_avail E s w)), w')"
    and "sock_frame s w (k\<lparr>s_consumed := s_consumed k + len\<rparr>) w'"
proof -
  obtain r w' where w': "read_raw E s len w = (r, w')" by fastforce
  with read_raw_loop_reliable [OF assms(1,2), of len "[]"] assms(3,4) obtain d where "r = Some d"
    by (auto simp: read_raw_def)
  with read_raw_spec [OF assms(2) w'] w' that show ?thesis by auto
qed

section \<open>Lemmas on packets\<close>

lemma read_packet_header:
  assumes rel: "sockets_reliable E" and k: "socks w s = Some k"
    and av: "sock_avail E s w = hb @ p @ rest" and hl: "length hb = HEADER_SIZE"
    and parse: "parse_packet_header hb = Some (hdr, HEADER_SIZE)" and pl: "unat (h_payload_len hdr) = length p"
  obtains w' where
    "read_packet E s out w = (Some (out\<lparr>k_type := packet_type_of (h_type hdr), k_payload := p\<rparr>), w')"
    and "sock_frame s w (k\<lparr>s_consumed := s_consumed k + (HEADER_SIZE + length p)\<rparr>) w'"
proof -
  have len: "length p < 2 ^ 32" using unsigned_less [of "h_payload_len hdr", where ?'a = nat] by (simp add: pl)
  have "HEADER_SIZE \<le> length (sock_avail E s w)" "HEADER_SIZE < 2 ^ 32" using hl by (simp_all add: av HEADER_SIZE_def)
  from read_raw_reliable [OF rel k this] obtain w1 where
    r1: "read_raw E s HEADER_SIZE w = (Some hb, w1)"
    and f1: "sock_frame s w (k\<lparr>s_consumed := s_consumed k + HEADER_SIZE\<rparr>) w1" using hl by (auto simp: av)
  have av1: "sock_avail E s w1 = p @ rest"
    using sock_avail_take [OF f1 k, of E] hl by (simp add: av)
  show ?thesis
  proof (cases "p = []")
    case True
    with pl have "\<not> 0 < h_payload_len hdr" by (simp add: word_less_nat_alt)
    with r1 parse pl True f1 show ?thesis by (intro that [of w1]) (simp_all add: read_packet_def)
  next
    case False
    with pl have pos: "0 < h_payload_len hdr" by (simp add: word_less_nat_alt)
    have "length p \<le> length (sock_avail E s w1)" by (simp add: av1)
    from read_raw_reliable [OF rel sock_frame_sock [OF f1] this len] obtain w2 where
      r2: "read_raw E s (length p) w1 = (Some p, w2)"
      and f2: "sock_frame s w1 (k\<lparr>s_consumed := s_consumed k + HEADER_SIZE + length p\<rparr>) w2"
      by (auto simp: av1)
    from r1 parse pl pos r2 sock_frame_trans [OF f1 f2] show ?thesis
      by (intro that [of w2]) (simp_all add: read_packet_def add.assoc)
  qed
qed

lemma read_packet_reliable:
  assumes rel: "sockets_reliable E" and k: "socks w s = Some k"
    and av: "sock_avail E s w = serialize_packet L t p [] @ rest" and len: "length p < 2 ^ 32"
  obtains w' where
    "read_packet E s out w = (Some (out\<lparr>k_type := packet_type_of (packet_type_code t), k_payload := p\<rparr>), w')"
    and "sock_frame s w (k\<lparr>s_consumed := s_consumed k + (HEADER_SIZE + length p)\<rparr>) w'"
proof -
  let ?h = "packet_header L t p []"
  have hl: "length (header_bytes ?h) = HEADER_SIZE"
    by (simp add: header_bytes_length packet_header_wf)
  have "parse_packet_header (take HEADER_SIZE (serialize_packet L t p [] @ rest)) = Some (?h, HEADER_SIZE)"
    by (rule parse_serialized) simp
  then have parse: "parse_packet_header (header_bytes ?h) = Some (?h, HEADER_SIZE)"
    using hl by (simp add: serialize_packet_split)
  have pl: "unat (h_payload_len ?h) = length p" "h_type ?h = packet_type_code t"
    using len by (simp_all add: packet_header_def unat_of_nat)
  have "sock_avail E s w = header_bytes ?h @ p @ rest" by (simp add: av serialize_packet_split)
  then show ?thesis by (rule read_packet_header [OF rel k _ hl parse pl(1), of rest out]) (rule that, simp_all only: pl(2))
qed

lemma read_packet_consumes:
  assumes k: "socks w s = Some k" and r: "read_packet E s out w = (r, w')"
  shows "\<exists>n. sock_frame s w (k\<lparr>s_consumed := s_consumed k + n\<rparr>) w' \<and> n \<le> length (sock_avail E s w)
    \<and> (r \<noteq> None \<longrightarrow> HEADER_SIZE \<le> n)"
proof -
  obtain r1 w1 where r1: "read_raw E s HEADER_SIZE w = (r1, w1)" by fastforce
  from read_raw_spec [OF k r1] obtain n where
    f1: "sock_frame s w (k\<lparr>s_consumed := s_consumed k + n\<rparr>) w1" and n: "n \<le> length (sock_avail E s w)"
    and c1: "case r1 of Some d \<Rightarrow> n = HEADER_SIZE \<and> d = take HEADER_SIZE (sock_avail E s w) | None \<Rightarrow> n < HEADER_SIZE"
    by blast
  show ?thesis
  proof (cases "w' = w1")
    case True
    from r r1 True f1 n c1 show ?thesis
      by (intro exI [of _ n]) (auto simp: read_packet_def Let_def split: option.splits prod.splits if_splits)
  next
    case False
    with r r1 obtain d hdr where d: "r1 = Some d" "parse_packet_header d = Some (hdr, HEADER_SIZE)"
      by (auto simp: read_packet_def parse_packet_header_def Let_def split: option.splits if_splits)
    obtain r2 w2 where r2: "read_raw E s (unat (h_payload_len hdr)) w1 = (r2, w2)" by fastforce
    from read_raw_spec [OF sock_frame_sock [OF f1] r2] obtain m where
      f2: "sock_frame s w1 (k\<lparr>s_consumed := s_consumed k + n + m\<rparr>) w2" and m: "m \<le> length (sock_avail E s w1)"
      by auto
    have "length (sock_avail E s w1) = length (sock_avail E s w) - n"
      using sock_avail_take [OF f1 k, of E] by simp
    moreover from r r1 d r2 False have "w' = w2"
      by (auto simp: read_packet_def Let_def split: option.splits if_splits)
    ultimately show ?thesis
      using sock_frame_trans [OF f1 f2] n m c1 d by (intro exI [of _ "n + m"]) (auto simp: add.assoc)
  qed
qed

lemma send_packet_conn_reliable:
  assumes "sockets_reliable E" and "socks w s = Some k" and "length p + HEADER_SIZE < 2 ^ 32"
  obtains w' where "send_packet_conn E s t p w = (True, w')"
    and "sock_frame s w (k\<lparr>s_sent := s_sent k @ serialize_packet E t p []\<rparr>) w'"
proof -
  have "length (serialize_packet E t p []) < 2 ^ 32" using assms(3) by (simp add: serialize_length add.commute)
  from write_raw_reliable [OF assms(1,2) this] that show ?thesis unfolding send_packet_conn_def by blast
qed

lemma send_packet_conn_spec:
  assumes "socks w s = Some k" and "send_packet_conn E s t p w = (ok, w')"
  shows "\<exists>n \<le> length (serialize_packet E t p []). (ok \<longrightarrow> n = length (serialize_packet E t p [])) \<and>
    sock_frame s w (k\<lparr>s_sent := s_sent k @ take n (serialize_packet E t p [])\<rparr>) w'"
  using write_raw_spec [OF assms(1) assms(2) [unfolded send_packet_conn_def]] .

text \<open>A closed socket: nothing is written.\<close>

lemma send_packet_conn_closed:
  assumes "socks w s = None"
  shows "send_packet_conn E s t p w = (False, step_tick w)"
proof -
  have "0 < length (serialize_packet E t p [])"
    by (simp add: serialize_length HEADER_SIZE_def)
  then show ?thesis
    using assms by (subst send_packet_conn_def, subst write_raw_def, subst write_raw_loop.simps)
      (simp add: send_some_def Let_def)
qed

text \<open>What every kernel call keeps, the loops and the packet operations keep.\<close>

lemma write_raw_loop_invariant:
  assumes "\<And>d w. P w \<Longrightarrow> P (snd (send_some E s d w))"
  shows "P w \<Longrightarrow> P (snd (write_raw_loop E s data sent w))"
  using assms
proof (induction E s data sent w rule: write_raw_loop.induct)
  case (1 E s data sent w)
  obtain m w1 where s1: "send_some E s (drop sent data) w = (m, w1)" by fastforce
  have q: "P w1" using "1.prems"(2) [OF "1.prems"(1), of "drop sent data"] s1 by simp
  show ?case
  proof (cases "sent < length data \<and> m \<noteq> None")
    case True
    then obtain k where "m = Some k" by auto
    with "1.IH" [OF _ s1 [symmetric], of k] True q s1 "1.prems"(2) show ?thesis
      by (auto simp: write_raw_loop.simps [of E s data sent w])
  next
    case False
    with s1 q "1.prems"(1) show ?thesis by (auto simp: write_raw_loop.simps [of E s data sent w])
  qed
qed

lemma read_raw_loop_invariant:
  assumes "\<And>n w. P w \<Longrightarrow> P (snd (recv_some E s n w))"
  shows "P w \<Longrightarrow> P (snd (read_raw_loop E s len buf w))"
  using assms
proof (induction E s len buf w rule: read_raw_loop.induct)
  case (1 E s len buf w)
  obtain m w1 where s1: "recv_some E s (len - length buf) w = (m, w1)" by fastforce
  have q: "P w1" using "1.prems"(2) [OF "1.prems"(1), of "len - length buf"] s1 by simp
  show ?case
  proof (cases "length buf < len \<and> m \<noteq> None")
    case True
    then obtain d where "m = Some d" by auto
    with "1.IH" [OF _ s1 [symmetric], of d] True q s1 "1.prems"(2) show ?thesis
      by (auto simp: read_raw_loop.simps [of E s len buf w])
  next
    case False
    with s1 q "1.prems"(1) show ?thesis by (auto simp: read_raw_loop.simps [of E s len buf w])
  qed
qed

lemma send_packet_conn_invariant:
  assumes "\<And>d w. P w \<Longrightarrow> P (snd (send_some E s d w))"
  shows "P w \<Longrightarrow> P (snd (send_packet_conn E s t p w))"
  unfolding send_packet_conn_def write_raw_def using assms by (rule write_raw_loop_invariant [where P = P])

lemma read_packet_invariant:
  assumes step: "\<And>n w. P w \<Longrightarrow> P (snd (recv_some E s n w))" and w: "P w"
  shows "P (snd (read_packet E s out w))"
proof -
  have r: "P v \<Longrightarrow> P (snd (read_raw E s n v))" for n v
    unfolding read_raw_def using step by (rule read_raw_loop_invariant [where P = P])
  obtain r1 w1 where r1: "read_raw E s HEADER_SIZE w = (r1, w1)" by fastforce
  with r [OF w, of HEADER_SIZE] have "P w1" by simp
  with r1 r [of w1] show ?thesis
    by (auto simp: read_packet_def Let_def case_prod_beta split: option.splits prod.splits)
qed

section \<open>The dispatch loop\<close>

text \<open>The contract between the dispatch loop and the handlers it calls: a handler may write to
  its connection but neither reads from it nor closes it. Under this contract the loop ends
  for every peer that sends finitely many bytes.\<close>

definition keeps_conn :: "(RawPacket \<Rightarrow> nat \<Rightarrow> world \<Rightarrow> world) \<Rightarrow> bool" where
  "keeps_conn h \<longleftrightarrow> (\<forall>pkt s w k. socks w s = Some k \<longrightarrow>
     (\<exists>k'. socks (h pkt s w) s = Some k' \<and> s_consumed k' = s_consumed k))"

locale handler_table =
  fixes hs :: handlers
  assumes handlers_keep_conn: "hs t = Some h \<Longrightarrow> keeps_conn h"
begin

lemma dispatch_keeps_conn:
  assumes "socks w s = Some k"
  obtains k' where "socks (dispatch hs pkt s w) s = Some k'" and "s_consumed k' = s_consumed k"
proof (cases "hs (k_type pkt)")
  case None
  with assms that show ?thesis by (simp add: dispatch_def)
next
  case (Some h)
  then have "keeps_conn h" by (rule handlers_keep_conn)
  then obtain k' where "socks (h pkt s w) s = Some k'" "s_consumed k' = s_consumed k"
    using assms unfolding keeps_conn_def by blast
  with Some that show ?thesis by (simp add: dispatch_def)
qed

lemma conn_loop_returns:
  assumes bound: "\<And>d. length (peer_stream E s d) \<le> N" and k: "socks w s = Some k"
  shows "\<exists>w'. conn_loop E hs s pkt w = Some w'"
  using k
proof (induction "N - s_consumed k" arbitrary: w k pkt rule: less_induct)
  case less
  obtain r w1 where r: "read_packet E s pkt w = (r, w1)" by fastforce
  show ?case
  proof (cases r)
    case None
    with r show ?thesis by (subst conn_loop.simps) simp
  next
    case (Some p)
    from read_packet_consumes [OF less.prems r] obtain n where
      f: "sock_frame s w (k\<lparr>s_consumed := s_consumed k + n\<rparr>) w1"
      and n: "n \<le> length (sock_avail E s w)" "HEADER_SIZE \<le> n" using Some by auto
    from dispatch_keeps_conn [OF sock_frame_sock [OF f], of p] obtain k' where
      k': "socks (dispatch hs p s w1) s = Some k'" "s_consumed k' = s_consumed k + n" by auto
    have "length (sock_avail E s w) \<le> N - s_consumed k"
      using bound [of "s_sent k"] less.prems by (simp add: sock_avail_def)
    with n k' have "N - s_consumed k' < N - s_consumed k" by (simp add: HEADER_SIZE_def)
    from less.hyps [OF this k'(1)] Some r show ?thesis
      by (subst conn_loop.simps) auto
  qed
qed

lemma handle_conn_returns:
  assumes "\<And>d. length (peer_stream E s d) \<le> N" and "socks w s \<noteq> None"
  shows "\<exists>w'. handle_conn E hs s ip w = Some w' \<and> socks w' s = None"
  using conn_loop_returns [OF assms(1)] assms(2) by (fastforce simp: handle_conn_def close_conn_def)

end

section \<open>Properties\<close>

text \<open>C9: A packet survives any fragmentation. If the stream of a connection begins with a
  serialised packet of a listed type and a payload below 4 GiB, then, however the kernel cuts
  the stream into pieces, \<open>read_packet\<close> returns that type and payload and leaves the stream at
  the byte after the packet.\<close>

theorem packet_round_trip:
  assumes "sockets_reliable E" and "socks w s = Some k" and "t \<in> set listed_types" and "length p < 2 ^ 32"
    and av: "sock_avail E s w = serialize_packet L t p [] @ rest"
  shows "\<exists>w'. read_packet E s out w = (Some (out\<lparr>k_type := t, k_payload := p\<rparr>), w') \<and> sock_avail E s w' = rest"
proof -
  from read_packet_reliable [OF assms(1,2) av assms(4), of out] obtain w' where
    "read_packet E s out w = (Some (out\<lparr>k_type := packet_type_of (packet_type_code t), k_payload := p\<rparr>), w')"
    "sock_frame s w (k\<lparr>s_consumed := s_consumed k + (HEADER_SIZE + length p)\<rparr>) w'" .
  with sock_avail_take [OF this(2) assms(2), of E] packet_type_of_code [OF assms(3)] show ?thesis
    by (simp add: av serialize_length)
qed

text \<open>A kernel that delivers one byte per call.\<close>

definition slow_env :: "bytes \<Rightarrow> env" where
  "slow_env d = sample_env\<lparr>peer_stream := \<lambda>_ _. d, os_recv := \<lambda>_ _. 1, os_send := \<lambda>_ _. 1\<rparr>"

theorem packet_round_trip_witness:
  "\<exists>w'. read_packet (slow_env (serialize_packet sample_env Ping [1, 2] [] @ [9])) 0
      \<lparr>k_type = Unlisted 0, k_payload = [], k_peer_ip = [], k_peer_port = 0\<rparr>
      (sample_world\<lparr>socks := [0 \<mapsto> \<lparr>s_sent = [], s_consumed = 0\<rparr>]\<rparr>) =
    (Some \<lparr>k_type = Ping, k_payload = [1, 2], k_peer_ip = [], k_peer_port = 0\<rparr>, w')"
  using packet_round_trip [of "slow_env (serialize_packet sample_env Ping [1, 2] [] @ [9])"
      "sample_world\<lparr>socks := [0 \<mapsto> \<lparr>s_sent = [], s_consumed = 0\<rparr>]\<rparr>" 0 "\<lparr>s_sent = [], s_consumed = 0\<rparr>" Ping "[1, 2]"
      sample_env "[9]" "\<lparr>k_type = Unlisted 0, k_payload = [], k_peer_ip = [], k_peer_port = 0\<rparr>"]
  by (auto simp: sockets_reliable_def slow_env_def sample_env_def sock_avail_def listed_types_def)

text \<open>C10: The socket loops keep the order of the bytes, whatever the kernel does. What \<open>write_raw\<close>
  adds to an open connection is a prefix of the data, all of it when it reports success; what
  \<open>read_raw\<close> returns is exactly the next bytes of the stream, as many as asked for, and a failed
  read has consumed fewer. Nothing else of the state changes but the clock.\<close>

theorem socket_loops_in_order:
  assumes "socks w s = Some k"
  shows "(\<exists>n t. n \<le> length data \<and> (fst (write_raw E s data w) \<longrightarrow> n = length data)
      \<and> snd (write_raw E s data w) = w\<lparr>tick := t, socks := (socks w)(s \<mapsto> k\<lparr>s_sent := s_sent k @ take n data\<rparr>)\<rparr>)
    \<and> (\<exists>n t. snd (read_raw E s len w) = w\<lparr>tick := t, socks := (socks w)(s \<mapsto> k\<lparr>s_consumed := s_consumed k + n\<rparr>)\<rparr>
      \<and> (case fst (read_raw E s len w) of
           Some d \<Rightarrow> n = len \<and> length d = len \<and> d = take len (sock_avail E s w)
         | None \<Rightarrow> n < len))"
proof
  obtain ok w1 where wr: "write_raw E s data w = (ok, w1)" by fastforce
  from write_raw_spec [OF assms this]
  show "\<exists>n t. n \<le> length data \<and> (fst (write_raw E s data w) \<longrightarrow> n = length data)
      \<and> snd (write_raw E s data w) = w\<lparr>tick := t, socks := (socks w)(s \<mapsto> k\<lparr>s_sent := s_sent k @ take n data\<rparr>)\<rparr>"
    unfolding sock_frame_def wr by auto
  obtain r w2 where rd: "read_raw E s len w = (r, w2)" by fastforce
  from read_raw_spec [OF assms this]
  show "\<exists>n t. snd (read_raw E s len w) = w\<lparr>tick := t, socks := (socks w)(s \<mapsto> k\<lparr>s_consumed := s_consumed k + n\<rparr>)\<rparr>
      \<and> (case fst (read_raw E s len w) of
           Some d \<Rightarrow> n = len \<and> length d = len \<and> d = take len (sock_avail E s w)
         | None \<Rightarrow> n < len)"
    unfolding sock_frame_def rd by (cases r) auto
qed

theorem socket_loops_in_order_witness:
  "\<exists>n \<le> 3. map_option s_sent (socks (snd (write_raw sample_env 0 [1, 2, 3]
     (sample_world\<lparr>socks := [0 \<mapsto> \<lparr>s_sent = [9], s_consumed = 0\<rparr>]\<rparr>))) 0) = Some ([9] @ take n [1, 2, 3])"
proof -
  let ?w = "sample_world\<lparr>socks := [0 \<mapsto> \<lparr>s_sent = [9], s_consumed = 0\<rparr>]\<rparr>"
  have "socks ?w 0 = Some \<lparr>s_sent = [9], s_consumed = 0\<rparr>" by simp
  from socket_loops_in_order [OF this, of "[1, 2, 3]" sample_env 0] obtain n t where "n \<le> length [1, 2, 3 :: byte]"
    "snd (write_raw sample_env 0 [1, 2, 3] ?w) = ?w\<lparr>tick := t, socks := (socks ?w)(0 \<mapsto> \<lparr>s_sent = [9], s_consumed = 0\<rparr>
       \<lparr>s_sent := s_sent \<lparr>s_sent = [9], s_consumed = 0\<rparr> @ take n [1, 2, 3]\<rparr>)\<rparr>" by blast
  then show ?thesis by (intro exI [of _ n]) simp
qed

text \<open>C11: The packet codec. A serialised packet is 41 bytes of header followed by the payload;
  parsing it back, with anything behind it, gives the magic, the type code, the payload length
  modulo \<open>2 ^ 32\<close> and the authentication field, which is all zeros without a key and the
  HMAC of the payload with one.\<close>

theorem serialize_parse:
  assumes "key = [] \<or> length (hmac_fn L key p) = 32"
  shows "parse_packet_header (serialize_packet L t p key @ rest) =
      Some (\<lparr>h_magic = ''SHR1'', h_type = packet_type_code t, h_payload_len = word_of_nat (length p),
             h_hmac = (if key = [] then replicate 32 0 else hmac_fn L key p)\<rparr>, 41)
    \<and> take (length p) (drop 41 (serialize_packet L t p key @ rest)) = p"
proof -
  have k: "key = [] \<or> 32 \<le> length (hmac_sha256 L p key)" using assms by (auto simp: hmac_sha256_def)
  have len: "length (header_bytes (packet_header L t p key)) = 41"
    using header_bytes_length [OF packet_header_wf [OF k]] by (simp add: HEADER_SIZE_def)
  have "header_of_bytes (serialize_packet L t p key @ rest) = packet_header L t p key"
    using header_round_trip [OF packet_header_wf [OF k], where rest = "p @ rest"] by (simp add: serialize_packet_split)
  then have "parse_packet_header (serialize_packet L t p key @ rest) = Some (packet_header L t p key, 41)"
    using len by (simp add: parse_packet_header_def serialize_packet_split HEADER_SIZE_def packet_header_def Let_def)
  then show ?thesis
    using assms len by (auto simp: packet_header_def SHR_PROTOCOL_MAGIC_def hmac_sha256_def serialize_packet_split)
qed

theorem serialize_parse_witness:
  "parse_packet_header (serialize_packet sample_env MsgSend [5, 6] [1] @ [7]) =
     Some (\<lparr>h_magic = ''SHR1'', h_type = 0x20, h_payload_len = 2, h_hmac = hmac_fn sample_env [1] [5, 6]\<rparr>, 41)"
  using serialize_parse [of "[1]" sample_env "[5, 6]" MsgSend "[7]"] by (simp add: sample_env_def)

text \<open>C24: No packet is authenticated. Everything \<open>send_packet_conn\<close> puts on a connection is a prefix of
  one frame whose authentication field, the 32 bytes from offset 9 on, is zero; and \<open>read_packet\<close>
  does not look at that field: a frame with any 32 bytes there, in front of any further input, is
  read with the same type and payload, under every fragmentation of the stream.\<close>

theorem packets_unauthenticated:
  assumes "socks w s = Some k" and t: "t \<in> set listed_types" and len: "length p < 2 ^ 32"
    and frame: "frame = serialize_packet E t p []"
  shows "take 32 (drop 9 frame) = replicate 32 0
    \<and> (\<exists>n. socks (snd (send_packet_conn E s t p w)) s = Some (k\<lparr>s_sent := s_sent k @ take n frame\<rparr>))
    \<and> (\<forall>R h v rest k'. sockets_reliable R \<longrightarrow> length h = 32 \<longrightarrow> socks v s = Some k'
         \<longrightarrow> sock_avail R s v = take 9 frame @ h @ drop 41 frame @ rest
         \<longrightarrow> (\<exists>v'. read_packet R s out v = (Some (out\<lparr>k_type := t, k_payload := p\<rparr>), v') \<and> sock_avail R s v' = rest))"
proof (intro conjI allI impI)
  define pre where "pre = map byte_of_char SHR_PROTOCOL_MAGIC @ [packet_type_code t] @ le32 (word_of_nat (length p))"
  have pre: "frame = pre @ replicate 32 0 @ p" "length pre = 9"
    by (simp_all add: pre_def frame serialize_packet_split packet_header_def header_bytes_def SHR_PROTOCOL_MAGIC_def)
  then show "take 32 (drop 9 frame) = replicate 32 0" by simp
  obtain ok w' where sp: "send_packet_conn E s t p w = (ok, w')" by fastforce
  from send_packet_conn_spec [OF assms(1) sp] obtain n where "sock_frame s w (k\<lparr>s_sent := s_sent k @ take n frame\<rparr>) w'"
    unfolding frame by blast
  then show "\<exists>n. socks (snd (send_packet_conn E s t p w)) s = Some (k\<lparr>s_sent := s_sent k @ take n frame\<rparr>)"
    by (intro exI [of _ n]) (simp add: sp)
  fix R :: "'b env_scheme" and h v rest k'
  assume R: "sockets_reliable R" and h: "length h = 32" and k': "socks v s = Some k'"
    and av: "sock_avail R s v = take 9 frame @ h @ drop 41 frame @ rest"
  let ?hdr = "(packet_header E t p [])\<lparr>h_hmac := h\<rparr>"
  have "header_bytes ?hdr = pre @ h" by (simp add: header_bytes_def packet_header_def pre_def)
  moreover have wf: "header_wf ?hdr" using h by (simp add: header_wf_def packet_header_def SHR_PROTOCOL_MAGIC_def)
  ultimately have hl: "length (pre @ h) = HEADER_SIZE" and hdr: "header_of_bytes (pre @ h) = ?hdr"
    using header_bytes_length [OF wf] header_round_trip [OF wf, of "[]"] by simp_all
  have parse: "parse_packet_header (pre @ h) = Some (?hdr, HEADER_SIZE)"
    using hl hdr by (simp add: parse_packet_header_def Let_def packet_header_def)
  have pl: "unat (h_payload_len ?hdr) = length p" "h_type ?hdr = packet_type_code t"
    using len by (simp_all add: packet_header_def unat_of_nat)
  have av': "sock_avail R s v = (pre @ h) @ p @ rest" using av pre by simp
  obtain v' where "read_packet R s out v = (Some (out\<lparr>k_type := packet_type_of (h_type ?hdr), k_payload := p\<rparr>), v')"
    and f: "sock_frame s v (k'\<lparr>s_consumed := s_consumed k' + (HEADER_SIZE + length p)\<rparr>) v'"
    by (rule read_packet_header [OF R k' av' hl parse pl(1)])
  moreover have "sock_avail R s v' = rest"
    using sock_avail_take [OF f k', of R] hl by (simp add: av' del: length_append) (simp add: hl [symmetric])
  ultimately show "\<exists>v'. read_packet R s out v = (Some (out\<lparr>k_type := t, k_payload := p\<rparr>), v') \<and> sock_avail R s v' = rest"
    using packet_type_of_code [OF t] pl(2) by auto
qed

theorem packets_unauthenticated_witness:
  "\<exists>v'. read_packet (slow_env (take 9 (serialize_packet sample_env Ping [1] []) @ replicate 32 7 @ [1])) 0
      \<lparr>k_type = Unlisted 0, k_payload = [], k_peer_ip = [], k_peer_port = 0\<rparr>
      (sample_world\<lparr>socks := [0 \<mapsto> \<lparr>s_sent = [], s_consumed = 0\<rparr>]\<rparr>) =
    (Some \<lparr>k_type = Ping, k_payload = [1], k_peer_ip = [], k_peer_port = 0\<rparr>, v')"
proof -
  let ?w = "sample_world\<lparr>socks := [0 \<mapsto> \<lparr>s_sent = [], s_consumed = 0\<rparr>]\<rparr>"
  let ?f = "serialize_packet sample_env Ping [1] []"
  let ?R = "slow_env (take 9 ?f @ replicate 32 7 @ [1])"
  let ?out = "\<lparr>k_type = Unlisted 0, k_payload = [], k_peer_ip = [], k_peer_port = 0\<rparr>"
  have k: "socks ?w 0 = Some \<lparr>s_sent = [], s_consumed = 0\<rparr>" by simp
  have t: "Ping \<in> set listed_types" "length [1 :: byte] < 2 ^ 32" by (simp_all add: listed_types_def)
  have R: "sockets_reliable ?R" by (simp add: sockets_reliable_def slow_env_def sample_env_def)
  have "drop 41 ?f = [1]"
    by (simp add: serialize_packet_split header_bytes_def packet_header_def SHR_PROTOCOL_MAGIC_def)
  then have av: "sock_avail ?R 0 ?w = take 9 ?f @ replicate 32 7 @ drop 41 ?f @ []"
    by (simp add: sock_avail_def slow_env_def)
  have "length (replicate 32 7) = 32" by simp
  with packets_unauthenticated [OF k t refl, of sample_env ?out] R k av
  obtain v' where "read_packet ?R 0 ?out ?w = (Some (?out\<lparr>k_type := Ping, k_payload := [1]\<rparr>), v')" by blast
  then show ?thesis by simp
qed

end
