(* ===== verification/Shr_Database.thy ===== *)
theory Shr_Database
  imports Shr_Logger
begin

text \<open>
  \<open>src/database.cxx\<close>: the three tables and the statements the program runs on them.

  Every operation is split in two: the effect of its SQL statement on the tables (a function
  on \<open>tables\<close> or on the rows), and the C++ method that prepares, binds and steps it (a
  function on the world that consults SQLite's answer). Text parameters are bound through
  \<open>c_str()\<close>, so they end at the first NUL byte. The order in which a SELECT visits rows is
  SQLite's choice; it is the field \<open>sql_order\<close> of the environment.
\<close>

section \<open>Rows and structures\<close>

definition sql_bool :: "bool \<Rightarrow> int" where
  "sql_bool b = (if b then 1 else 0)"

definition peer_to_row :: "PeerInfo \<Rightarrow> peer_row" where
  "peer_to_row p =
     \<lparr>pr_id = c_str (p_id p), pr_ip = c_str (p_ip p), pr_port = uint (p_port p),
      pr_online = sql_bool (p_online p), pr_last_seen = p_last_seen p, pr_alias = c_str (p_alias p)\<rparr>"

definition row_to_peer :: "peer_row \<Rightarrow> PeerInfo" where
  "row_to_peer r =
     \<lparr>p_id = pr_id r, p_ip = pr_ip r, p_port = word_of_int (pr_port r),
      p_online = (pr_online r \<noteq> 0), p_last_seen = pr_last_seen r, p_alias = pr_alias r\<rparr>"

definition message_to_row :: "Message \<Rightarrow> message_row" where
  "message_to_row m =
     \<lparr>mr_id = c_str (m_id m), mr_sender_id = c_str (m_sender_id m),
      mr_recipient_id = c_str (m_recipient_id m), mr_content = c_str (m_content m),
      mr_timestamp = m_timestamp m, mr_read = sql_bool (m_read m)\<rparr>"

definition row_to_message :: "message_row \<Rightarrow> Message" where
  "row_to_message r =
     \<lparr>m_id = mr_id r, m_sender_id = mr_sender_id r, m_recipient_id = mr_recipient_id r,
      m_content = mr_content r, m_timestamp = mr_timestamp r, m_read = (mr_read r \<noteq> 0)\<rparr>"

definition transfer_to_row :: "TransferRecord \<Rightarrow> transfer_row" where
  "transfer_to_row t =
     \<lparr>tr_id = c_str (t_id t), tr_peer_id = c_str (t_peer_id t),
      tr_filename = c_str (t_filename t), tr_filepath = c_str (t_filepath t),
      tr_total_bytes = sint (t_total_bytes t), tr_transferred_bytes = sint (t_transferred_bytes t),
      tr_state = transfer_state_str (t_state t), tr_checksum = c_str (t_checksum t),
      tr_created_at = t_created_at t, tr_updated_at = t_updated_at t,
      tr_outbound = sql_bool (t_outbound t)\<rparr>"

definition state_of_text :: "string \<Rightarrow> TransferState" where
  "state_of_text s =
     (if s = ''pending'' then Pending
      else if s = ''in_progress'' then InProgress
      else if s = ''completed'' then Completed
      else if s = ''failed'' then Failed
      else if s = ''paused'' then Paused
      else Cancelled)"

definition row_to_transfer :: "transfer_row \<Rightarrow> TransferRecord" where
  "row_to_transfer r =
     \<lparr>t_id = tr_id r, t_peer_id = tr_peer_id r, t_filename = tr_filename r,
      t_filepath = tr_filepath r, t_total_bytes = word_of_int (tr_total_bytes r),
      t_transferred_bytes = word_of_int (tr_transferred_bytes r),
      t_state = state_of_text (tr_state r), t_checksum = tr_checksum r,
      t_created_at = tr_created_at r, t_updated_at = tr_updated_at r,
      t_outbound = (tr_outbound r \<noteq> 0)\<rparr>"

section \<open>Statements\<close>

definition sql_upsert_peer :: "PeerInfo \<Rightarrow> tables \<Rightarrow> tables" where
  "sql_upsert_peer p T = T\<lparr>tb_peers := tbl_replace pr_id (peer_to_row p) (tb_peers T)\<rparr>"

definition sql_delete_peer :: "string \<Rightarrow> tables \<Rightarrow> tables" where
  "sql_delete_peer i T = T\<lparr>tb_peers := tbl_delete pr_id (c_str i) (tb_peers T)\<rparr>"

definition sql_get_peer :: "string \<Rightarrow> tables \<Rightarrow> PeerInfo option" where
  "sql_get_peer i T = map_option row_to_peer (tbl_find pr_id (c_str i) (tb_peers T))"

definition sql_insert_message :: "Message \<Rightarrow> tables \<Rightarrow> tables" where
  "sql_insert_message m T = T\<lparr>tb_messages := tbl_ignore mr_id (message_to_row m) (tb_messages T)\<rparr>"

definition sql_mark_read :: "string \<Rightarrow> tables \<Rightarrow> tables" where
  "sql_mark_read i T =
     T\<lparr>tb_messages := tbl_update mr_id (c_str i) (\<lambda>r. r\<lparr>mr_read := 1\<rparr>) (tb_messages T)\<rparr>"

definition sql_upsert_transfer :: "TransferRecord \<Rightarrow> tables \<Rightarrow> tables" where
  "sql_upsert_transfer t T = T\<lparr>tb_transfers := tbl_replace tr_id (transfer_to_row t) (tb_transfers T)\<rparr>"

definition sql_update_transfer ::
  "string \<Rightarrow> u64 \<Rightarrow> TransferState \<Rightarrow> int \<Rightarrow> tables \<Rightarrow> tables" where
  "sql_update_transfer i n s now T =
     T\<lparr>tb_transfers := tbl_update tr_id (c_str i)
        (\<lambda>r. r\<lparr>tr_transferred_bytes := sint n, tr_state := transfer_state_str s, tr_updated_at := now\<rparr>)
        (tb_transfers T)\<rparr>"

definition sql_get_transfer :: "string \<Rightarrow> tables \<Rightarrow> TransferRecord option" where
  "sql_get_transfer i T = map_option row_to_transfer (tbl_find tr_id (c_str i) (tb_transfers T))"

definition stale_row :: "int \<Rightarrow> transfer_row \<Rightarrow> bool" where
  "stale_row cutoff r \<longleftrightarrow>
     tr_updated_at r < cutoff \<and> tr_state r \<in> set [''completed'', ''failed'', ''cancelled'']"

definition sql_delete_stale :: "int \<Rightarrow> tables \<Rightarrow> tables" where
  "sql_delete_stale cutoff T =
     T\<lparr>tb_transfers := filter (\<lambda>r. \<not> stale_row cutoff r) (tb_transfers T)\<rparr>"

section \<open>Methods\<close>

text \<open>\<open>sqlite3_step\<close> of a statement that returns no or one row. The environment says whether it
  succeeds; a call on a handle that is not open answers \<open>SQLITE_MISUSE\<close>, which is one of the
  failures. No command reaches this with a closed handle: see \<open>init_app_opens_db\<close> of
  \<open>Shr_Commands\<close>.\<close>

definition sql_step :: "'x env_scheme \<Rightarrow> world \<Rightarrow> bool \<times> world" where
  "sql_step E w = (sql_ok E (tick w), step_tick w)"

definition run_sql :: "'x env_scheme \<Rightarrow> (tables \<Rightarrow> tables) \<Rightarrow> world \<Rightarrow> bool \<times> world" where
  "run_sql E f w =
     (let (ok, w) = sql_step E w in
      if ok then (True, w\<lparr>db := f (db w)\<rparr>) else (False, w))"

text \<open>The rows a SELECT over a whole table delivers.\<close>

definition scan :: "'x env_scheme \<Rightarrow> nat \<Rightarrow> 'r list \<Rightarrow> 'r list" where
  "scan E t rows = map ((!) rows) (filter (\<lambda>i. i < length rows) (sql_order E t (length rows)))"

definition database_open :: "'x env_scheme \<Rightarrow> string \<Rightarrow> world \<Rightarrow> bool \<times> world" where
  "database_open E path w =
     (if \<not> sql_open E (tick w) then 
        (False, (LOG_ERROR E (''sqlite3_open failed: '' @ sql_errmsg E (tick w)) (step_tick w))\<lparr>db_open := False\<rparr>)
      else
        let w = (step_tick w)\<lparr>db_open := True\<rparr>;
            (_, w) = sql_step E w;
            (_, w) = sql_step E w;
            (ok, w) = sql_step E w
        in if ok then (True, w) else (False, LOG_ERROR E (''SQL error: '' @ sql_errmsg E (tick w)) w))"

definition database_close :: "world \<Rightarrow> world" where
  "database_close w = w\<lparr>db_open := False\<rparr>"

definition upsert_peer :: "'x env_scheme \<Rightarrow> PeerInfo \<Rightarrow> world \<Rightarrow> bool \<times> world" where
  "upsert_peer E p w = run_sql E (sql_upsert_peer p) w"

definition delete_peer :: "'x env_scheme \<Rightarrow> string \<Rightarrow> world \<Rightarrow> bool \<times> world" where
  "delete_peer E i w = run_sql E (sql_delete_peer i) w"

definition all_peers :: "'x env_scheme \<Rightarrow> world \<Rightarrow> PeerInfo list \<times> world" where
  "all_peers E w = (map row_to_peer (scan E (tick w) (tb_peers (db w))), step_tick w)"

definition get_peer :: "'x env_scheme \<Rightarrow> string \<Rightarrow> world \<Rightarrow> PeerInfo option \<times> world" where
  "get_peer E i w =
     (let (ok, w) = sql_step E w in (if ok then sql_get_peer i (db w) else None, w))"

definition insert_message :: "'x env_scheme \<Rightarrow> Message \<Rightarrow> world \<Rightarrow> bool \<times> world" where
  "insert_message E m w = run_sql E (sql_insert_message m) w"

text \<open>
  \<open>LIMIT ? OFFSET ?\<close>: a negative limit means no limit, a negative offset none. The product
  \<open>(page - 1) * page_size\<close> is computed in \<open>int\<close>; \<open>None\<close> is its overflow, which is undefined
  behaviour.
\<close>

definition int32_range :: "int \<Rightarrow> bool" where
  "int32_range i \<longleftrightarrow> - (2 ^ 31) \<le> i \<and> i < 2 ^ 31"

definition sql_limit :: "int \<Rightarrow> int \<Rightarrow> 'r list \<Rightarrow> 'r list" where
  "sql_limit lim off rows = (let r = drop (nat off) rows in if lim < 0 then r else take (nat lim) r)"

definition get_inbox :: "'x env_scheme \<Rightarrow> int \<Rightarrow> int \<Rightarrow> world \<Rightarrow> Message list option \<times> world" where
  "get_inbox E page page_size w =
     (if \<not> int32_range (page - 1) \<or> \<not> int32_range ((page - 1) * page_size) then (None, w)
      else
        let rows = sort_key (\<lambda>r. - mr_timestamp r) (scan E (tick w) (tb_messages (db w)))
        in (Some (map row_to_message (sql_limit page_size ((page - 1) * page_size) rows)), step_tick w))"

definition mark_message_read :: "'x env_scheme \<Rightarrow> string \<Rightarrow> world \<Rightarrow> bool \<times> world" where
  "mark_message_read E i w = run_sql E (sql_mark_read i) w"

definition unread_count :: "'x env_scheme \<Rightarrow> world \<Rightarrow> int \<times> world" where
  "unread_count E w =
     (let (ok, w) = sql_step E w in
      (if ok then cast_int (length (filter (\<lambda>r. mr_read r = 0) (tb_messages (db w)))) else 0, w))"

definition upsert_transfer :: "'x env_scheme \<Rightarrow> TransferRecord \<Rightarrow> world \<Rightarrow> bool \<times> world" where
  "upsert_transfer E t w = run_sql E (sql_upsert_transfer t) w"

definition update_transfer_progress ::
  "'x env_scheme \<Rightarrow> string \<Rightarrow> u64 \<Rightarrow> TransferState \<Rightarrow> world \<Rightarrow> bool \<times> world" where
  "update_transfer_progress E i n s w =
     (let (now, w) = now_unix E w in run_sql E (sql_update_transfer i n s now) w)"

definition pending_inbound :: "'x env_scheme \<Rightarrow> world \<Rightarrow> TransferRecord list \<times> world" where
  "pending_inbound E w =
     (map row_to_transfer
        (filter (\<lambda>r. tr_outbound r = 0 \<and> tr_state r \<in> set [''pending'', ''paused''])
           (scan E (tick w) (tb_transfers (db w)))),
      step_tick w)"

definition active_transfers :: "'x env_scheme \<Rightarrow> world \<Rightarrow> TransferRecord list \<times> world" where
  "active_transfers E w =
     (map row_to_transfer
        (sort_key (\<lambda>r. - tr_created_at r)
           (filter (\<lambda>r. tr_state r \<in> set [''pending'', ''in_progress'', ''paused''])
              (scan E (tick w) (tb_transfers (db w))))),
      step_tick w)"

definition get_transfer :: "'x env_scheme \<Rightarrow> string \<Rightarrow> world \<Rightarrow> TransferRecord option \<times> world" where
  "get_transfer E i w =
     (let (ok, w) = sql_step E w in (if ok then sql_get_transfer i (db w) else None, w))"

definition delete_stale_transfers :: "'x env_scheme \<Rightarrow> int \<Rightarrow> world \<Rightarrow> bool \<times> world" where
  "delete_stale_transfers E days w =
     (let (now, w) = now_unix E w; cutoff = now - days * 86400
      in run_sql E (sql_delete_stale cutoff) w)"

text \<open>\<open>SUM\<close> over integers fails with an error when a partial sum leaves 64 bits.\<close>

fun sum_int64 :: "int \<Rightarrow> int list \<Rightarrow> int option" where
  "sum_int64 acc [] = Some acc"
| "sum_int64 acc (x # xs) =
     (if - (2 ^ 63) \<le> acc + x \<and> acc + x < 2 ^ 63 then sum_int64 (acc + x) xs else None)"

definition storage_used_bytes :: "'x env_scheme \<Rightarrow> world \<Rightarrow> u64 \<times> world" where
  "storage_used_bytes E w =
     (let rows = filter (\<lambda>r. tr_outbound r = 0 \<and> tr_state r = ''completed'')
                   (scan E (tick w) (tb_transfers (db w)));
          (ok, w) = sql_step E w
      in if \<not> ok then (0, w)
         else case sum_int64 0 (map tr_transferred_bytes rows) of
                None \<Rightarrow> (0, w)
              | Some s \<Rightarrow> (word_of_int s, w))"

section \<open>Interfaces\<close>

text \<open>What the clients of a keyed table rely on: a stored value is found again, under its key
  only, and the table stays well formed. Keys that agree after \<open>canon\<close> are the same key.\<close>

locale keyed_store =
  fixes inv :: "'s \<Rightarrow> bool"
    and canon :: "'k \<Rightarrow> 'k"
    and vkey :: "'v \<Rightarrow> 'k"
    and norm :: "'v \<Rightarrow> 'v"
    and put :: "'v \<Rightarrow> 's \<Rightarrow> 's"
    and lookup :: "'k \<Rightarrow> 's \<Rightarrow> 'v option"
  assumes inv_put: "inv s \<Longrightarrow> inv (put v s)"
    and lookup_put: "lookup i (put v s) = (if canon i = canon (vkey v) then Some (norm v) else lookup i s)"
    and lookup_canon: "canon i = canon j \<Longrightarrow> lookup i s = lookup j s"
begin

lemma lookup_same: "lookup (vkey v) (put v s) = Some (norm v)"
  by (simp add: lookup_put)

lemma lookup_other: "canon i \<noteq> canon (vkey v) \<Longrightarrow> lookup i (put v s) = lookup i s"
  by (simp add: lookup_put)

lemma put_commute:
  "canon (vkey u) \<noteq> canon (vkey v) \<Longrightarrow> lookup i (put u (put v s)) = lookup i (put v (put u s))"
  by (simp add: lookup_put)

lemma put_overwrites: "canon (vkey u) = canon (vkey v) \<Longrightarrow> lookup i (put u (put v s)) = lookup i (put u s)"
  by (simp add: lookup_put)

lemma lookup_fold_other:
  "(\<And>v. v \<in> set vs \<Longrightarrow> canon i \<noteq> canon (vkey v)) \<Longrightarrow> lookup i (fold put vs s) = lookup i s"
  by (induction vs arbitrary: s) (auto simp: lookup_put)

lemma inv_fold: "inv s \<Longrightarrow> inv (fold put vs s)"
  by (induction vs arbitrary: s) (auto intro: inv_put)

end

text \<open>Removal and in-place update.\<close>

locale keyed_store_del = keyed_store +
  fixes del :: "'k \<Rightarrow> 's \<Rightarrow> 's"
  assumes inv_del: "inv s \<Longrightarrow> inv (del i s)"
    and lookup_del: "lookup i (del j s) = (if canon i = canon j then None else lookup i s)"
begin

lemma del_put: "canon i = canon (vkey v) \<Longrightarrow> lookup j (del i (put v s)) = lookup j (del i s)"
  by (simp add: lookup_del lookup_put)

lemma put_del: "lookup j (put v (del (vkey v) s)) = lookup j (put v s)"
  by (simp add: lookup_del lookup_put)

end

locale keyed_store_upd = keyed_store +
  fixes upd :: "'k \<Rightarrow> 'a \<Rightarrow> 's \<Rightarrow> 's"
    and modify :: "'a \<Rightarrow> 'v \<Rightarrow> 'v"
  assumes inv_upd: "inv s \<Longrightarrow> inv (upd i a s)"
    and lookup_upd: "lookup i (upd j a s) = (if canon i = canon j then map_option (modify a) (lookup i s) else lookup i s)"
begin

lemma upd_after_put: "lookup (vkey v) (upd (vkey v) a (put v s)) = Some (modify a (norm v))"
  by (simp add: lookup_upd lookup_put)

lemma upd_missing: "lookup j s = None \<Longrightarrow> lookup i (upd j a s) = lookup i s"
  using lookup_canon [of i j s] by (auto simp: lookup_upd)

end

text \<open>A table in which the first value stored under a key stays.\<close>

locale first_wins_store =
  fixes inv :: "'s \<Rightarrow> bool"
    and canon :: "'k \<Rightarrow> 'k"
    and vkey :: "'v \<Rightarrow> 'k"
    and norm :: "'v \<Rightarrow> 'v"
    and add :: "'v \<Rightarrow> 's \<Rightarrow> 's"
    and lookup :: "'k \<Rightarrow> 's \<Rightarrow> 'v option"
  assumes inv_add: "inv s \<Longrightarrow> inv (add v s)"
    and lookup_add: "lookup i (add v s) =
      (case lookup i s of Some x \<Rightarrow> Some x | None \<Rightarrow> if canon i = canon (vkey v) then Some (norm v) else None)"
begin

lemma add_keeps: "lookup i s = Some x \<Longrightarrow> lookup i (add v s) = Some x"
  by (simp add: lookup_add)

lemma add_fold_keeps: "lookup i s = Some x \<Longrightarrow> lookup i (fold add vs s) = Some x"
  by (induction vs arbitrary: s) (auto simp: add_keeps)

lemma inv_fold: "inv s \<Longrightarrow> inv (fold add vs s)"
  by (induction vs arbitrary: s) (auto simp: inv_add)

lemma add_again: "lookup i (add v (add v s)) = lookup i (add v s)"
  by (auto simp: lookup_add split: option.split)

lemma add_present: "\<exists>x. lookup (vkey v) (add v s) = Some x"
  by (auto simp: lookup_add split: option.split)

end

section \<open>Invariant of the tables\<close>

definition valid_state_texts :: "string list" where
  "valid_state_texts = map transfer_state_str [Pending, InProgress, Paused, Completed, Failed, Cancelled]"

definition db_wf :: "tables \<Rightarrow> bool" where
  "db_wf T \<longleftrightarrow>
     tbl_keys_distinct pr_id (tb_peers T)
   \<and> tbl_keys_distinct mr_id (tb_messages T)
   \<and> tbl_keys_distinct tr_id (tb_transfers T)
   \<and> (\<forall>r \<in> set (tb_transfers T). tr_state r \<in> set valid_state_texts)"

lemma transfer_state_str_valid [simp]: "transfer_state_str s \<in> set valid_state_texts"
  by (cases s) (auto simp: valid_state_texts_def)

section \<open>Round trips\<close>

definition norm_peer :: "PeerInfo \<Rightarrow> PeerInfo" where
  "norm_peer p = p\<lparr>p_id := c_str (p_id p), p_ip := c_str (p_ip p), p_alias := c_str (p_alias p)\<rparr>"

definition norm_message :: "Message \<Rightarrow> Message" where
  "norm_message m = m\<lparr>m_id := c_str (m_id m), m_sender_id := c_str (m_sender_id m),
     m_recipient_id := c_str (m_recipient_id m), m_content := c_str (m_content m)\<rparr>"

definition norm_transfer :: "TransferRecord \<Rightarrow> TransferRecord" where
  "norm_transfer t = t\<lparr>t_id := c_str (t_id t), t_peer_id := c_str (t_peer_id t),
     t_filename := c_str (t_filename t), t_filepath := c_str (t_filepath t),
     t_checksum := c_str (t_checksum t)\<rparr>"

lemma state_of_text_str [simp]: "state_of_text (transfer_state_str s) = s"
  by (cases s) (simp_all add: state_of_text_def)

lemma sql_bool_neq_0 [simp]: "sql_bool b \<noteq> 0 \<longleftrightarrow> b" "sql_bool b = 0 \<longleftrightarrow> \<not> b"
  by (simp_all add: sql_bool_def)

lemma row_to_peer_to_row: "row_to_peer (peer_to_row p) = norm_peer p"
  by (simp add: row_to_peer_def peer_to_row_def norm_peer_def)

lemma row_to_message_to_row: "row_to_message (message_to_row m) = norm_message m"
  by (simp add: row_to_message_def message_to_row_def norm_message_def)

lemma row_to_transfer_to_row: "row_to_transfer (transfer_to_row t) = norm_transfer t"
  by (simp add: row_to_transfer_def transfer_to_row_def norm_transfer_def)

lemmas row_round_trips = row_to_peer_to_row row_to_message_to_row row_to_transfer_to_row

section \<open>The tables implement the interfaces\<close>

text \<open>The message stored under an identifier; the program reads messages by page only.\<close>

definition message_at :: "string \<Rightarrow> tables \<Rightarrow> Message option" where
  "message_at i T = map_option row_to_message (tbl_find mr_id (c_str i) (tb_messages T))"

text \<open>What \<open>update_transfer_progress\<close> does to a record.\<close>

definition progress :: "u64 \<times> TransferState \<times> int \<Rightarrow> TransferRecord \<Rightarrow> TransferRecord" where
  "progress a t = (case a of (n, s, now) \<Rightarrow>
     t\<lparr>t_transferred_bytes := n, t_state := s, t_updated_at := now\<rparr>)"

lemma row_to_transfer_progress:
  "row_to_transfer (r\<lparr>tr_transferred_bytes := sint n, tr_state := transfer_state_str s, tr_updated_at := now\<rparr>)
   = progress (n, s, now) (row_to_transfer r)"
  by (simp add: row_to_transfer_def progress_def)

lemma row_ids [simp]:
  "pr_id (peer_to_row p) = c_str (p_id p)" "mr_id (message_to_row m) = c_str (m_id m)"
  "tr_id (transfer_to_row t) = c_str (t_id t)"
  by (simp_all add: peer_to_row_def message_to_row_def transfer_to_row_def)

interpretation ps: keyed_store_del db_wf c_str p_id norm_peer sql_upsert_peer sql_get_peer sql_delete_peer
proof
  fix T v i j
  show "db_wf T \<Longrightarrow> db_wf (sql_upsert_peer v T)"
    by (simp add: db_wf_def sql_upsert_peer_def tbl_keys_replace)
  show "sql_get_peer i (sql_upsert_peer v T) = (if c_str i = c_str (p_id v) then Some (norm_peer v) else sql_get_peer i T)"
    by (simp add: sql_get_peer_def sql_upsert_peer_def db_simps row_round_trips)
  show "c_str i = c_str j \<Longrightarrow> sql_get_peer i T = sql_get_peer j T"
    by (simp add: sql_get_peer_def)
  show "db_wf T \<Longrightarrow> db_wf (sql_delete_peer i T)"
    by (simp add: db_wf_def sql_delete_peer_def tbl_keys_delete)
  show "sql_get_peer i (sql_delete_peer j T) = (if c_str i = c_str j then None else sql_get_peer i T)"
    by (simp add: sql_get_peer_def sql_delete_peer_def db_simps)
qed

interpretation ts: keyed_store_upd db_wf c_str t_id norm_transfer sql_upsert_transfer sql_get_transfer
  "\<lambda>i (n, s, now). sql_update_transfer i n s now" progress
proof
  fix T v i j and a :: "u64 \<times> TransferState \<times> int"
  show "db_wf T \<Longrightarrow> db_wf (sql_upsert_transfer v T)"
    by (auto simp: db_wf_def sql_upsert_transfer_def tbl_keys_replace set_tbl_replace transfer_to_row_def)
  show "sql_get_transfer i (sql_upsert_transfer v T) =
      (if c_str i = c_str (t_id v) then Some (norm_transfer v) else sql_get_transfer i T)"
    by (simp add: sql_get_transfer_def sql_upsert_transfer_def db_simps row_round_trips)
  show "c_str i = c_str j \<Longrightarrow> sql_get_transfer i T = sql_get_transfer j T"
    by (simp add: sql_get_transfer_def)
  show "db_wf T \<Longrightarrow> db_wf ((case a of (n, s, now) \<Rightarrow> sql_update_transfer i n s now) T)"
    by (auto simp: db_wf_def sql_update_transfer_def intro!: tbl_keys_update split: prod.splits)
       (auto simp: tbl_update_def)
  show "sql_get_transfer i ((case a of (n, s, now) \<Rightarrow> sql_update_transfer j n s now) T) =
      (if c_str i = c_str j then map_option (progress a) (sql_get_transfer i T) else sql_get_transfer i T)"
    by (cases a) (simp add: sql_get_transfer_def sql_update_transfer_def db_simps option.map_comp
        comp_def row_to_transfer_progress)
qed

lemma progress_progress [simp]: "progress a (progress b r) = progress a r"
  by (simp add: progress_def split: prod.split)

lemma get_after_update [simp]:
  "sql_get_transfer i (sql_update_transfer i n st now T) = map_option (progress (n, st, now)) (sql_get_transfer i T)"
  using ts.lookup_upd [of i i "(n, st, now)" T] by simp

interpretation ms: first_wins_store db_wf c_str m_id norm_message sql_insert_message message_at
proof
  fix T v i
  show "db_wf T \<Longrightarrow> db_wf (sql_insert_message v T)"
    by (simp add: db_wf_def sql_insert_message_def tbl_keys_ignore)
  show "message_at i (sql_insert_message v T) =
      (case message_at i T of Some x \<Rightarrow> Some x
       | None \<Rightarrow> if c_str i = c_str (m_id v) then Some (norm_message v) else None)"
    by (simp add: message_at_def sql_insert_message_def db_simps row_round_trips split: option.split)
qed

section \<open>Effects of the methods\<close>

lemma run_sql_reliable [db_simps]:
  "sql_reliable E \<Longrightarrow> run_sql E f w = (True, (step_tick w)\<lparr>db := f (db w)\<rparr>)"
  by (simp add: run_sql_def sql_step_def sql_reliable_def)

lemma get_peer_reliable [db_simps]:
  "sql_reliable E \<Longrightarrow> get_peer E i w = (sql_get_peer i (db w), step_tick w)"
  by (simp add: get_peer_def sql_step_def sql_reliable_def)

lemma get_transfer_reliable [db_simps]:
  "sql_reliable E \<Longrightarrow> get_transfer E i w = (sql_get_transfer i (db w), step_tick w)"
  by (simp add: get_transfer_def sql_step_def sql_reliable_def)

lemma update_transfer_reliable [db_simps]:
  "sql_reliable E \<Longrightarrow> update_transfer_progress E i n s w =
     (True, (step_tick (step_tick w))\<lparr>db := sql_update_transfer i n s (os_now E (tick w)) (db w)\<rparr>)"
  by (simp add: update_transfer_progress_def now_unix_def db_simps)

lemmas upsert_methods = upsert_peer_def delete_peer_def upsert_transfer_def insert_message_def
  mark_message_read_def

text \<open>A failed statement changes no table.\<close>

lemma run_sql_cases:
  obtains "run_sql E f w = (True, (step_tick w)\<lparr>db := f (db w)\<rparr>)"
  | "run_sql E f w = (False, step_tick w)"
  by (cases "sql_ok E (tick w)") (auto simp: run_sql_def sql_step_def)

lemma run_sql_db: "db (snd (run_sql E f w)) \<in> {db w, f (db w)}"
  by (rule run_sql_cases [of E f w]) auto

lemma run_sql_keeps:
  assumes "P (db w)" and "P (db w) \<Longrightarrow> P (f (db w))"
  shows "P (db (snd (run_sql E f w)))"
  using assms by (rule_tac run_sql_cases [of E f w]) auto

lemma run_sql_frame [simp]:
  "files (snd (run_sql E f w)) = files w" "dirs (snd (run_sql E f w)) = dirs w"
  "cout (snd (run_sql E f w)) = cout w" "cerr (snd (run_sql E f w)) = cerr w"
  "cfg (snd (run_sql E f w)) = cfg w" "ident (snd (run_sql E f w)) = ident w"
  "socks (snd (run_sql E f w)) = socks w" "next_sock (snd (run_sql E f w)) = next_sock w"
  "active_count (snd (run_sql E f w)) = active_count w" "logger (snd (run_sql E f w)) = logger w"
  "net_running (snd (run_sql E f w)) = net_running w" "closed_socks (snd (run_sql E f w)) = closed_socks w"
  "listen_sock (snd (run_sql E f w)) = listen_sock w" "keypair (snd (run_sql E f w)) = keypair w"
  "db_open (snd (run_sql E f w)) = db_open w" "udp_out (snd (run_sql E f w)) = udp_out w"
  by (rule run_sql_cases [of E f w]; simp)+

section \<open>Scans, the inbox and the statistics\<close>

lemma mset_scan:
  assumes "sql_scans_all E"
  shows "mset (scan E t rows) = mset rows"
proof -
  have o: "mset (sql_order E t (length rows)) = mset [0..<length rows]"
    using assms by (simp add: sql_scans_all_def)
  have "mset (scan E t rows) =
      image_mset ((!) rows) (filter_mset (\<lambda>i. i < length rows) (mset (sql_order E t (length rows))))"
    by (simp add: scan_def)
  also have "\<dots> = mset (map ((!) rows) (filter (\<lambda>i. i < length rows) [0..<length rows]))"
    by (simp only: mset_map mset_filter o)
  also have "filter (\<lambda>i. i < length rows) [0..<length rows] = [0..<length rows]"
    by (simp add: filter_id_conv)
  finally show ?thesis by (simp add: map_nth)
qed

lemma set_scan: "sql_scans_all E \<Longrightarrow> set (scan E t rows) = set rows"
  by (metis mset_scan set_mset_mset)

lemma scan_subset: "set (scan E t rows) \<subseteq> set rows"
  by (auto simp: scan_def)

definition page_of :: "nat \<Rightarrow> nat \<Rightarrow> 'r list \<Rightarrow> 'r list" where
  "page_of n k xs = take n (drop (k * n) xs)"

lemma inbox_pages:
  assumes "1 \<le> page" "0 < psz" "int32_range ((page - 1) * psz)"
  shows "fst (get_inbox E page psz w) =
    Some (page_of (nat psz) (nat (page - 1))
       (map row_to_message (sort_key (\<lambda>r. - mr_timestamp r) (scan E (tick w) (tb_messages (db w))))))"
proof -
  have "page - 1 \<le> (page - 1) * psz" using assms by (simp add: mult_le_cancel_left1)
  then have "int32_range (page - 1)"
    using assms unfolding int32_range_def by linarith
  moreover have "nat ((page - 1) * psz) = nat (page - 1) * nat psz"
    using assms by (simp add: nat_mult_distrib)
  ultimately show ?thesis
    using assms by (simp add: get_inbox_def sql_limit_def page_of_def take_map drop_map Let_def)
qed

lemma concat_pages:
  assumes "0 < n" "length xs \<le> n * k"
  shows "concat (map (\<lambda>i. page_of n i xs) [0..<k]) = xs"
proof -
  have "concat (map (\<lambda>i. page_of n i xs) [0..<j]) = take (j * n) xs" for j
  proof (induction j)
    case (Suc j)
    have "take (j * n) xs @ take n (drop (j * n) xs) = take (Suc j * n) xs"
      using take_add [of "j * n" n xs] by (simp add: add.commute)
    with Suc show ?case by (simp add: page_of_def)
  qed simp
  then show ?thesis using assms by (simp add: mult.commute)
qed

lemma stale_deleted:
  "r \<in> set (tb_transfers (sql_delete_stale c T)) \<longleftrightarrow> r \<in> set (tb_transfers T) \<and> \<not> stale_row c r"
  by (auto simp: sql_delete_stale_def)

lemma db_wf_delete_stale: "db_wf T \<Longrightarrow> db_wf (sql_delete_stale c T)"
  by (auto simp: db_wf_def sql_delete_stale_def tbl_keys_filter)

lemma db_wf_mark_read: "db_wf T \<Longrightarrow> db_wf (sql_mark_read i T)"
  by (auto simp: db_wf_def sql_mark_read_def intro!: tbl_keys_update)

lemma message_at_mark_read:
  "message_at i (sql_mark_read j T) =
    (if c_str i = c_str j then map_option (\<lambda>m. m\<lparr>m_read := True\<rparr>) (message_at i T) else message_at i T)"
  by (simp add: message_at_def sql_mark_read_def db_simps option.map_comp comp_def row_to_message_def)

lemmas db_wf_intros = ps.inv_put ps.inv_del ts.inv_put ms.inv_add db_wf_delete_stale db_wf_mark_read
  ts.inv_upd [where a = "(n, s, now)" for n s now, simplified]

lemma sum_int64_eq:
  assumes "sum_int64 a xs = Some s"
  shows "s = a + sum_list xs"
  using assms by (induction a xs rule: sum_int64.induct) (auto split: if_splits)

lemma sum_int64_nonneg:
  assumes "\<forall>x \<in> set xs. 0 \<le> x" "0 \<le> a" "a + sum_list xs < 2 ^ 63"
  shows "sum_int64 a xs = Some (a + sum_list xs)"
  using assms
proof (induction a xs rule: sum_int64.induct)
  case (2 a x xs)
  moreover have "0 \<le> sum_list xs" using "2.prems" by (auto intro: sum_list_nonneg)
  ultimately show ?case by auto
qed simp

lemma message_row_unique:
  assumes "db_wf T" "message_at i T = Some m"
  shows "length (filter (\<lambda>r. mr_id r = c_str i) (tb_messages T)) = 1"
proof -
  obtain r where "r \<in> set (tb_messages T)" "mr_id r = c_str i"
    using assms(2) by (auto simp: message_at_def dest!: tbl_find_key)
  then show ?thesis using assms(1) tbl_key_unique [of mr_id "tb_messages T" r] by (simp add: db_wf_def)
qed

lemma insert_known_message:
  assumes "message_at i T = Some m" "c_str (m_id m') = c_str i"
  shows "sql_insert_message m' T = T"
proof -
  obtain r where "tbl_find mr_id (mr_id (message_to_row m')) (tb_messages T) = Some r"
    using assms by (auto simp: message_at_def)
  then show ?thesis by (simp add: sql_insert_message_def tbl_ignore_present)
qed

lemma inbox_offset:
  fixes psz :: int
  assumes "j < k" "0 < psz" "int k * psz < 2 ^ 31"
  shows "int32_range (int j * psz)"
proof -
  have "int j * psz \<le> int k * psz" using assms by (simp add: mult_right_mono)
  moreover have "0 \<le> int j * psz" using assms by simp
  ultimately show ?thesis using assms unfolding int32_range_def by linarith
qed

lemma inbox_order_stable:
  assumes "sql_scans_all E" "distinct (map mr_timestamp rows)"
  shows "sort_key (\<lambda>r. - mr_timestamp r) (scan E t rows) = sort_key (\<lambda>r. - mr_timestamp r) rows"
proof (rule map_sorted_distinct_set_unique [of "\<lambda>r. - mr_timestamp r"])
  have d: "distinct (map (\<lambda>r. - mr_timestamp r) rows)"
    using assms(2) by (simp add: distinct_map inj_on_def)
  then show "inj_on (\<lambda>r. - mr_timestamp r) (set (sort_key (\<lambda>r. - mr_timestamp r) (scan E t rows))
      \<union> set (sort_key (\<lambda>r. - mr_timestamp r) rows))"
    by (simp add: set_scan [OF assms(1)] distinct_map)
  show "distinct (map (\<lambda>r. - mr_timestamp r) (sort_key (\<lambda>r. - mr_timestamp r) rows))"
    using d by (simp add: distinct_map)
  have "mset (map (\<lambda>r. - mr_timestamp r) (scan E t rows)) = mset (map (\<lambda>r. - mr_timestamp r) rows)"
    by (simp add: mset_scan [OF assms(1)])
  then have "distinct (map (\<lambda>r. - mr_timestamp r) (scan E t rows))" using d mset_eq_imp_distinct_iff by blast
  then show "distinct (map (\<lambda>r. - mr_timestamp r) (sort_key (\<lambda>r. - mr_timestamp r) (scan E t rows)))"
    by (simp add: distinct_map)
qed (simp_all add: set_scan [OF assms(1)])

lemma inbox_newest_first:
  assumes "distinct (map mr_timestamp rows)"
  shows "sorted_wrt (\<lambda>a b. m_timestamp b < m_timestamp a) (map row_to_message (sort_key (\<lambda>r. - mr_timestamp r) rows))"
proof -
  let ?ys = "sort_key (\<lambda>r. - mr_timestamp r) rows"
  have "distinct (map (\<lambda>r. - mr_timestamp r) ?ys)"
    using assms by (simp add: distinct_map inj_on_def)
  then have "sorted_wrt (<) (map (\<lambda>r. - mr_timestamp r) ?ys)" by (simp add: strict_sorted_iff)
  then show ?thesis by (simp add: sorted_wrt_map row_to_message_def)
qed

lemma get_after_clean:
  assumes "db_wf T"
  shows "sql_get_transfer i (sql_delete_stale c T) =
    (case sql_get_transfer i T of
       None \<Rightarrow> None
     | Some u \<Rightarrow> if t_state u \<in> {Completed, Failed, Cancelled} \<and> t_updated_at u < c then None else Some u)"
proof (cases "tbl_find tr_id (c_str i) (tb_transfers T)")
  case None
  with assms show ?thesis by (simp add: sql_get_transfer_def sql_delete_stale_def tbl_find_filter db_wf_def)
next
  case (Some r)
  then have "tr_state r \<in> set valid_state_texts" using assms by (auto simp: db_wf_def dest: tbl_find_key)
  then have "stale_row c r \<longleftrightarrow> t_state (row_to_transfer r) \<in> {Completed, Failed, Cancelled} \<and> t_updated_at (row_to_transfer r) < c"
    by (auto simp: stale_row_def row_to_transfer_def state_of_text_def valid_state_texts_def)
  with Some assms show ?thesis by (simp add: sql_get_transfer_def sql_delete_stale_def tbl_find_filter db_wf_def)
qed

text \<open>Two messages, an environment in which SQLite visits a table forwards and backwards in turn,
  and two transfers; the theorems below are instantiated on them.\<close>

definition two_messages :: world where
  "two_messages = sample_world\<lparr>db :=
     sql_insert_message
       \<lparr>m_id = ''m2'', m_sender_id = ''node'', m_recipient_id = ''b'', m_content = ''second'', m_timestamp = 9, m_read = True\<rparr>
       (sql_insert_message
         \<lparr>m_id = ''m1'', m_sender_id = ''b'', m_recipient_id = ''node'', m_content = ''first'', m_timestamp = 3, m_read = False\<rparr>
         (db sample_world))\<rparr>"

definition flipping_env :: env where
  "flipping_env = sample_env\<lparr>sql_order := (\<lambda>t n. if even t then [0..<n] else rev [0..<n])\<rparr>"

definition two_transfers :: world where
  "two_transfers = sample_world\<lparr>db :=
     fold sql_upsert_transfer
       [\<lparr>t_id = i, t_peer_id = ''p'', t_filename = ''f'', t_filepath = ''/f'', t_total_bytes = 9, t_transferred_bytes = 4,
         t_state = InProgress, t_checksum = [], t_created_at = 1, t_updated_at = 2, t_outbound = False\<rparr>. i \<leftarrow> [''t'', ''u'']]
       (db sample_world)\<rparr>"

lemma flipping_scans: "sql_scans_all flipping_env"
  by (simp add: sql_scans_all_def flipping_env_def)

lemma sample_env_times: "os_now sample_env t = 1000 + int t"
  by (simp add: sample_env_def)

lemma two_transfers_wf: "db_wf (db two_transfers)"
  by (simp add: two_transfers_def) (intro db_wf_intros; simp add: db_wf_def sample_world_def tbl_keys_distinct_def)

lemma two_transfers_found:
  "\<exists>t u. sql_get_transfer ''t'' (db two_transfers) = Some t \<and> sql_get_transfer ''u'' (db two_transfers) = Some u
    \<and> t_state u = InProgress"
  by (simp add: two_transfers_def ts.lookup_put norm_transfer_def nul_free_def)

section \<open>Properties\<close>

text \<open>C12: The peer table behaves as a finite map from identifiers to peers, for every answer SQLite
  may give: a successful \<open>upsert_peer\<close> sets the entry of that identifier (texts cut at a NUL
  byte) and leaves the others, a successful \<open>delete_peer\<close> removes its entry and leaves the
  others, a failed statement changes nothing, and \<open>get_peer\<close> reads the entry.\<close>

theorem peer_table_is_map:
  "(fst (upsert_peer E p w) \<longrightarrow> (\<forall>i. sql_get_peer i (db (snd (upsert_peer E p w))) =
       (if c_str i = c_str (p_id p) then Some (norm_peer p) else sql_get_peer i (db w))))
   \<and> (fst (delete_peer E j w) \<longrightarrow> (\<forall>i. sql_get_peer i (db (snd (delete_peer E j w))) =
       (if c_str i = c_str j then None else sql_get_peer i (db w))))
   \<and> (\<not> fst (upsert_peer E p w) \<longrightarrow> db (snd (upsert_peer E p w)) = db w)
   \<and> (\<not> fst (delete_peer E j w) \<longrightarrow> db (snd (delete_peer E j w)) = db w)
   \<and> (sql_reliable E \<longrightarrow> fst (get_peer E j w) = sql_get_peer j (db w))"
proof -
  have f: "fst (run_sql E f w) \<Longrightarrow> db (snd (run_sql E f w)) = f (db w)"
    and n: "\<not> fst (run_sql E f w) \<Longrightarrow> db (snd (run_sql E f w)) = db w" for f
    by (rule run_sql_cases [of E f w]; simp)+
  show ?thesis
    by (simp add: upsert_methods f n ps.lookup_put ps.lookup_del get_peer_reliable)
qed

theorem peer_table_is_map_witness:
  "fst (get_peer sample_env ''p1'' (snd (upsert_peer sample_env
      \<lparr>p_id = ''p1'', p_ip = ''10.0.0.7'', p_port = 60000, p_online = True, p_last_seen = 5, p_alias = []\<rparr> sample_world))) =
     Some \<lparr>p_id = ''p1'', p_ip = ''10.0.0.7'', p_port = 60000, p_online = True, p_last_seen = 5, p_alias = []\<rparr>"
proof -
  let ?p = "\<lparr>p_id = ''p1'', p_ip = ''10.0.0.7'', p_port = 60000, p_online = True, p_last_seen = 5, p_alias = []\<rparr>"
  have "fst (upsert_peer sample_env ?p sample_world)" by (simp add: upsert_methods db_simps)
  moreover have "norm_peer ?p = ?p" by (simp add: norm_peer_def nul_free_def)
  ultimately show ?thesis
    using peer_table_is_map [of sample_env ?p sample_world "''p1''"]
      peer_table_is_map [of sample_env ?p "snd (upsert_peer sample_env ?p sample_world)" "''p1''"] by simp
qed

text \<open>C13: Transfers round trip through the table with every field, 64-bit sizes included: a stored
  record is read back as it was (texts cut at a NUL byte), \<open>update_transfer_progress\<close> changes
  its byte count, state and time only, and no other record.\<close>

theorem transfer_table_round_trip:
  assumes "sql_reliable E"
  shows "fst (get_transfer E (t_id t) (snd (upsert_transfer E t w))) = Some (norm_transfer t)
    \<and> (\<exists>now. fst (get_transfer E (t_id t) (snd (update_transfer_progress E (t_id t) n s (snd (upsert_transfer E t w))))) =
         Some ((norm_transfer t)\<lparr>t_transferred_bytes := n, t_state := s, t_updated_at := now\<rparr>))
    \<and> (\<forall>j. c_str j \<noteq> c_str (t_id t) \<longrightarrow>
         fst (get_transfer E j (snd (update_transfer_progress E (t_id t) n s (snd (upsert_transfer E t w))))) =
         sql_get_transfer j (db w))"
  using assms ts.lookup_upd [of _ "t_id t" "(n, s, now)" for now]
  by (auto simp: db_simps upsert_methods ts.lookup_put progress_def)

theorem transfer_table_round_trip_witness:
  "fst (get_transfer sample_env ''t'' (snd (upsert_transfer sample_env
      \<lparr>t_id = ''t'', t_peer_id = ''p'', t_filename = ''f'', t_filepath = ''/f'', t_total_bytes = 18446744073709551615,
       t_transferred_bytes = 7, t_state = Paused, t_checksum = ''c'', t_created_at = 1, t_updated_at = 2, t_outbound = True\<rparr> sample_world))) =
    Some \<lparr>t_id = ''t'', t_peer_id = ''p'', t_filename = ''f'', t_filepath = ''/f'', t_total_bytes = 18446744073709551615,
       t_transferred_bytes = 7, t_state = Paused, t_checksum = ''c'', t_created_at = 1, t_updated_at = 2, t_outbound = True\<rparr>"
  using transfer_table_round_trip [of sample_env "\<lparr>t_id = ''t'', t_peer_id = ''p'', t_filename = ''f'', t_filepath = ''/f'',
       t_total_bytes = 18446744073709551615, t_transferred_bytes = 7, t_state = Paused, t_checksum = ''c'', t_created_at = 1,
       t_updated_at = 2, t_outbound = True\<rparr>" sample_world]
  by (simp add: norm_transfer_def nul_free_def)

text \<open>C14: A message is stored once. As soon as a message is stored under an identifier, any
  further \<open>insert_message\<close> with that identifier leaves the tables as they are. After any
  sequence of deliveries the table holds exactly one row with that identifier, the content first
  stored stays, and so does its read mark.\<close>

theorem message_redelivery:
  assumes wf: "db_wf (db w)" and stored: "message_at i (db w) = Some m"
  shows "(\<forall>m'. c_str (m_id m') = c_str i \<longrightarrow> db (snd (insert_message E m' w)) = db w)
    \<and> length (filter (\<lambda>r. mr_id r = c_str i) (tb_messages (fold sql_insert_message ms (db w)))) = 1
    \<and> message_at i (fold sql_insert_message ms (db w)) = Some m
    \<and> message_at i (fold sql_insert_message ms (sql_mark_read i (db w))) = Some (m\<lparr>m_read := True\<rparr>)"
proof -
  have "message_at i (fold sql_insert_message ms (db w)) = Some m" "db_wf (fold sql_insert_message ms (db w))"
    using stored wf by (simp_all add: ms.add_fold_keeps ms.inv_fold)
  moreover from this message_row_unique
  have "length (filter (\<lambda>r. mr_id r = c_str i) (tb_messages (fold sql_insert_message ms (db w)))) = 1" by blast
  moreover have "db (snd (insert_message E m' w)) = db w" if "c_str (m_id m') = c_str i" for m'
    using run_sql_db [of E "sql_insert_message m'" w] insert_known_message [OF stored that]
    by (simp add: insert_message_def)
  ultimately show ?thesis using stored ms.add_fold_keeps [of i] by (simp add: message_at_mark_read)
qed

theorem message_redelivery_witness:
  "length (filter (\<lambda>r. mr_id r = ''m'') (tb_messages (fold sql_insert_message
       [\<lparr>m_id = ''m'', m_sender_id = ''x'', m_recipient_id = ''b'', m_content = ''other'', m_timestamp = 9, m_read = False\<rparr>]
       (sql_insert_message
         \<lparr>m_id = ''m'', m_sender_id = ''a'', m_recipient_id = ''b'', m_content = ''hi'', m_timestamp = 3, m_read = False\<rparr> (db sample_world))))) = 1"
proof -
  let ?m = "\<lparr>m_id = ''m'', m_sender_id = ''a'', m_recipient_id = ''b'', m_content = ''hi'', m_timestamp = 3, m_read = False\<rparr>"
  let ?w = "sample_world\<lparr>db := sql_insert_message ?m (db sample_world)\<rparr>"
  have "message_at ''m'' (db ?w) = Some ?m"
    using ms.lookup_add [of "''m''" ?m "db sample_world"]
    by (simp add: message_at_def sample_world_def tbl_find_Nil norm_message_def nul_free_def)
  moreover have "db_wf (db ?w)"
    by (simp add: ms.inv_add) (intro ms.inv_add; simp add: db_wf_def sample_world_def tbl_keys_distinct_def)
  ultimately show ?thesis
    using message_redelivery [of ?w "''m''" ?m sample_env "[\<lparr>m_id = ''m'', m_sender_id = ''x'', m_recipient_id = ''b'',
      m_content = ''other'', m_timestamp = 9, m_read = False\<rparr>]"] by (simp add: nul_free_def)
qed

text \<open>C15: The pages of the inbox partition the messages, sent and received ones alike. When no two
  messages have the same time stamp, the pages 1 to \<open>k\<close>, each read by a call of its own in which
  SQLite may visit the rows in another order, are all defined and together are all messages, each
  once, strictly newest first, as soon as \<open>k\<close> pages have room for them.\<close>

theorem inbox_pages_partition:
  assumes "sql_scans_all E" and "0 < psz" "int k * psz < 2 ^ 31"
    and "\<forall>j < k. db (ws j) = T" "length (tb_messages T) \<le> nat psz * k"
    and "distinct (map mr_timestamp (tb_messages T))"
  shows "\<exists>pages. map (\<lambda>j. fst (get_inbox E (int j + 1) psz (ws j))) [0..<k] = map Some pages
    \<and> mset (concat pages) = image_mset row_to_message (mset (tb_messages T))
    \<and> sorted_wrt (\<lambda>a b. m_timestamp b < m_timestamp a) (concat pages)"
proof -
  define xs where "xs = map row_to_message (sort_key (\<lambda>r. - mr_timestamp r) (tb_messages T))"
  have "fst (get_inbox E (int j + 1) psz (ws j)) = Some (page_of (nat psz) j xs)" if "j < k" for j
    using inbox_pages [of "int j + 1" psz E "ws j"] inbox_offset [OF that assms(2,3)] that assms(2,4)
    by (simp add: xs_def inbox_order_stable [OF assms(1,6)])
  then have "map (\<lambda>j. fst (get_inbox E (int j + 1) psz (ws j))) [0..<k] =
      map Some (map (\<lambda>j. page_of (nat psz) j xs) [0..<k])" by simp
  moreover have "concat (map (\<lambda>j. page_of (nat psz) j xs) [0..<k]) = xs"
    using concat_pages [of "nat psz" xs k] assms(2,5) by (simp add: xs_def)
  moreover have "mset xs = image_mset row_to_message (mset (tb_messages T))" by (simp add: xs_def)
  ultimately show ?thesis using inbox_newest_first [OF assms(6)] unfolding xs_def by metis
qed

theorem inbox_pages_partition_witness:
  "\<exists>pages. map (\<lambda>j. fst (get_inbox flipping_env (int j + 1) 1 (two_messages\<lparr>tick := j\<rparr>))) [0..<2] = map Some pages
    \<and> map m_content (concat pages) = [''second'', ''first'']"
proof -
  let ?T = "db two_messages"
  have "map mr_timestamp (tb_messages ?T) = [3, 9]" "map mr_content (tb_messages ?T) = [''first'', ''second'']"
    by code_simp+
  then obtain a b where T: "tb_messages ?T = [a, b]" and ab: "mr_timestamp a = 3" "mr_timestamp b = 9"
    "mr_content a = ''first''" "mr_content b = ''second''" by auto
  from inbox_pages_partition [of flipping_env 1 2 "\<lambda>j. two_messages\<lparr>tick := j\<rparr>" ?T] T ab
  obtain pages where p: "map (\<lambda>j. fst (get_inbox flipping_env (int j + 1) 1 (two_messages\<lparr>tick := j\<rparr>))) [0..<2] = map Some pages"
    and m: "mset (concat pages) = {#row_to_message a, row_to_message b#}"
    and s: "sorted_wrt (\<lambda>a b. m_timestamp b < m_timestamp a) (concat pages)"
    by (auto simp: flipping_scans)
  have "length (concat pages) = 2" using arg_cong [OF m, of size] by simp
  then obtain x y where xy: "concat pages = [x, y]" by (auto simp: numeral_2_eq_2 length_Suc_conv)
  with arg_cong [OF m, of set_mset]
  have "x = row_to_message a \<and> y = row_to_message b \<or> x = row_to_message b \<and> y = row_to_message a"
    by (simp add: doubleton_eq_iff)
  with s xy ab have "map m_content (concat pages) = [''second'', ''first'']"
    by (auto simp: row_to_message_def)
  with p show ?thesis by (intro exI [of _ pages] conjI)
qed

text \<open>C16: Cleaning goes by the last progress of a transfer. A record whose progress was last
  updated to state \<open>s\<close> is removed by a later \<open>delete_stale_transfers\<close> exactly when \<open>s\<close> is a final
  state and the update is more than the given days old; otherwise it is found as the update left
  it, so an unfinished transfer survives at any age. Every other record is judged by its own
  state and time, peers and messages stay, and a failed statement removes nothing.\<close>

theorem delete_stale_exact:
  assumes "db_wf (db w)" "sql_get_transfer i (db w) = Some t"
    and "update_transfer_progress E i n s w = (True, w1)" "db w2 = db w1"
    and "delete_stale_transfers E days w2 = (ok, w3)"
    and final: "final = (\<lambda>u. t_state u \<in> {Completed, Failed, Cancelled})"
    and old: "old = (\<lambda>u. t_updated_at u < os_now E (tick w2) - days * 86400)"
  shows "if ok then
      sql_get_transfer i (db w3) =
        (if s \<in> {Completed, Failed, Cancelled} \<and> os_now E (tick w) < os_now E (tick w2) - days * 86400 then None
         else Some (t\<lparr>t_transferred_bytes := n, t_state := s, t_updated_at := os_now E (tick w)\<rparr>))
      \<and> (\<forall>j. c_str j \<noteq> c_str i \<longrightarrow> sql_get_transfer j (db w3) =
           (case sql_get_transfer j (db w) of
              None \<Rightarrow> None
            | Some u \<Rightarrow> if final u \<and> old u then None else Some u))
      \<and> tb_peers (db w3) = tb_peers (db w) \<and> tb_messages (db w3) = tb_messages (db w)
    else db w3 = db w2"
proof -
  have d1: "db w1 = sql_update_transfer i n s (os_now E (tick w)) (db w)"
    using assms(3) by (rule_tac run_sql_cases [of E "sql_update_transfer i n s (os_now E (tick w))" "step_tick w"])
      (auto simp: update_transfer_progress_def now_unix_def)
  have wf: "db_wf (db w1)" using assms(1) by (simp add: d1 db_wf_intros)
  have d3: "db w3 = (if ok then sql_delete_stale (os_now E (tick w2) - days * 86400) (db w2) else db w2)"
    using assms(5) by (rule_tac run_sql_cases [of E "sql_delete_stale (os_now E (tick w2) - days * 86400)" "step_tick w2"])
      (auto simp: delete_stale_transfers_def now_unix_def)
  show ?thesis
    using assms(2,4) get_after_clean [OF wf] ts.lookup_upd [of _ i "(n, s, os_now E (tick w))" "db w"]
    by (auto simp: d3 d1 final old progress_def sql_delete_stale_def sql_update_transfer_def split: option.split)
qed

theorem delete_stale_exact_witness:
  "\<exists>w1 w3. update_transfer_progress sample_env ''t'' 9 Failed two_transfers = (True, w1)
    \<and> delete_stale_transfers sample_env 7 (w1\<lparr>tick := 1000000\<rparr>) = (True, w3)
    \<and> sql_get_transfer ''t'' (db w3) = None \<and> sql_get_transfer ''u'' (db w3) \<noteq> None"
proof -
  let ?w1 = "snd (update_transfer_progress sample_env ''t'' 9 Failed two_transfers)"
  let ?w2 = "?w1\<lparr>tick := 1000000\<rparr>"
  have r: "update_transfer_progress sample_env ''t'' 9 Failed two_transfers = (True, ?w1)"
    "delete_stale_transfers sample_env 7 ?w2 = (True, snd (delete_stale_transfers sample_env 7 ?w2))"
    by (simp_all add: db_simps delete_stale_transfers_def now_unix_def)
  obtain t u where tu: "sql_get_transfer ''t'' (db two_transfers) = Some t" "sql_get_transfer ''u'' (db two_transfers) = Some u"
    and u: "t_state u = InProgress"
    using two_transfers_found by blast
  have time: "tick two_transfers = 0" by (simp add: two_transfers_def sample_world_def)
  have "sql_get_transfer ''t'' (db (snd (delete_stale_transfers sample_env 7 ?w2))) = None
    \<and> sql_get_transfer ''u'' (db (snd (delete_stale_transfers sample_env 7 ?w2))) = Some u"
    using delete_stale_exact [OF two_transfers_wf tu(1) r(1) _ r(2) refl refl] tu(2) u
    by (simp add: sample_env_times time nul_free_def)
  with r show ?thesis by blast
qed

text \<open>C17: The storage figure is the sum of the bytes of the completed inbound transfers, in any order
  SQLite visits them, as long as no stored count is negative and the sum stays below \<open>2 ^ 63\<close>; it
  is 0 when the statement fails.\<close>

theorem storage_used_is_sum:
  assumes "sql_scans_all E"
    and rows: "rows = filter (\<lambda>r. tr_outbound r = 0 \<and> tr_state r = ''completed'') (tb_transfers (db w))"
    and "\<forall>r \<in> set rows. 0 \<le> tr_transferred_bytes r" "sum_list (map tr_transferred_bytes rows) < 2 ^ 63"
  shows "int (unat (fst (storage_used_bytes E w))) =
    (if sql_ok E (tick w) then sum_list (map tr_transferred_bytes rows) else 0)"
proof -
  define xs where "xs = map tr_transferred_bytes (filter (\<lambda>r. tr_outbound r = 0 \<and> tr_state r = ''completed'')
     (scan E (tick w) (tb_transfers (db w))))"
  have m: "mset xs = mset (map tr_transferred_bytes rows)"
    by (simp add: xs_def rows mset_filter mset_scan [OF assms(1)])
  then have s: "sum_list xs = sum_list (map tr_transferred_bytes rows)" by (metis sum_mset_sum_list)
  moreover have pos: "\<forall>x \<in> set xs. 0 \<le> x" using mset_eq_setD [OF m] assms(3) by auto
  moreover have "0 \<le> sum_list xs" using pos by (auto intro: sum_list_nonneg)
  moreover have "fst (storage_used_bytes E w) =
      (if sql_ok E (tick w) then case sum_int64 0 xs of None \<Rightarrow> 0 | Some s \<Rightarrow> word_of_int s else 0)"
    by (simp only: storage_used_bytes_def sql_step_def xs_def Let_def prod.case split: option.split) simp
  ultimately have "fst (storage_used_bytes E w) = (if sql_ok E (tick w) then word_of_int (sum_list xs) else 0)"
    using sum_int64_nonneg [of xs 0] assms(4) by simp
  moreover have "int (unat (word_of_int (sum_list xs) :: u64)) = sum_list xs"
    using s assms(4) \<open>0 \<le> sum_list xs\<close>
    by (simp add: unat_eq_nat_uint uint_word_of_int take_bit_int_eq_self)
  ultimately show ?thesis unfolding s [symmetric] by (cases "sql_ok E (tick w)") simp_all
qed

theorem storage_used_is_sum_witness:
  "int (unat (fst (storage_used_bytes sample_env (sample_world\<lparr>db := sql_upsert_transfer
      \<lparr>t_id = ''t'', t_peer_id = ''p'', t_filename = ''f'', t_filepath = ''/f'', t_total_bytes = 7,
       t_transferred_bytes = 7, t_state = Completed, t_checksum = [], t_created_at = 1, t_updated_at = 2, t_outbound = False\<rparr>
      (db sample_world)\<rparr>)))) = 7"
  using storage_used_is_sum [OF _ refl, of sample_env "sample_world\<lparr>db := sql_upsert_transfer
      \<lparr>t_id = ''t'', t_peer_id = ''p'', t_filename = ''f'', t_filepath = ''/f'', t_total_bytes = 7,
       t_transferred_bytes = 7, t_state = Completed, t_checksum = [], t_created_at = 1, t_updated_at = 2, t_outbound = False\<rparr>
      (db sample_world)\<rparr>"]
  by (simp add: sql_upsert_transfer_def tbl_replace_def transfer_to_row_def sample_world_def sql_bool_def
      sample_sql_ok)

end
