(* ===== verification/Shr_Config.thy ===== *)
theory Shr_Config
  imports Shr_Crypto
begin

text \<open>
  \<open>src/config.cxx\<close> and \<open>src/identity.cxx\<close>: defaults, environment overrides, loading and saving
  the configuration file, and the node's identity.
\<close>

section \<open>Configuration\<close>

definition cfg_file_path :: "'x env_scheme \<Rightarrow> world \<Rightarrow> string \<times> world" where
  "cfg_file_path E w = (let (d, w) = shr_config_dir E w in (path_append d ''config.json'', w))"

definition set_defaults :: "'x env_scheme \<Rightarrow> world \<Rightarrow> world" where
  "set_defaults E w =
     (let (d1, w) = shr_config_dir E w;
          (d2, w) = shr_config_dir E w;
          (d3, w) = shr_config_dir E w;
          (d4, w) = shr_received_dir E w
      in w\<lparr>cfg := (cfg w)
           \<lparr>c_config_dir := d1,
            c_db_path := path_append d2 ''shr.db'',
            c_log_path := path_append d3 ''shr.log'',
            c_received_dir := d4,
            c_listen_port := SHR_DEFAULT_PORT,
            c_max_concurrent := SHR_MAX_CONCURRENT,
            c_retry_limit := int SHR_RETRY_LIMIT,
            c_retry_delay_ms := SHR_RETRY_DELAY_MS,
            c_verbose := False,
            c_log_level := ''info''\<rparr>\<rparr>)"

text \<open>\<open>std::atoi\<close>: white space, a sign, digits; no digits give 0.\<close>

fun dec_number :: "int \<Rightarrow> string \<Rightarrow> int" where
  "dec_number acc [] = acc"
| "dec_number acc (c # s) =
     (let n = of_char c :: nat in
      if 48 \<le> n \<and> n \<le> 57 then dec_number (10 * acc + int (n - 48)) s else acc)"

definition atoi :: "string \<Rightarrow> int" where
  "atoi s =
     (case dropWhile is_space s of
        [] \<Rightarrow> 0
      | c # r \<Rightarrow> if c = CHR ''-'' then - dec_number 0 r
                else if c = CHR ''+'' then dec_number 0 r
                else dec_number 0 (c # r))"

definition apply_env_overrides :: "'x env_scheme \<Rightarrow> AppConfig \<Rightarrow> AppConfig" where
  "apply_env_overrides E c =
     (let c = (case os_getenv E ''SHR_PORT'' of
                 Some p \<Rightarrow> c\<lparr>c_listen_port := word_of_int (atoi p)\<rparr> | None \<Rightarrow> c);
          c = (case os_getenv E ''SHR_VERBOSE'' of
                 Some v \<Rightarrow> c\<lparr>c_verbose := (v = ''1'' \<or> v = ''true'')\<rparr> | None \<Rightarrow> c)
      in case os_getenv E ''SHR_LOG_LEVEL'' of
           Some l \<Rightarrow> c\<lparr>c_log_level := l\<rparr> | None \<Rightarrow> c)"

text \<open>\<open>if (j.contains(k)) field = j[k];\<close>: a member of the wrong type throws (\<open>None\<close>).\<close>

definition load_member ::
  "'x lib_scheme \<Rightarrow> json \<Rightarrow> string \<Rightarrow> (json \<Rightarrow> string \<Rightarrow> 'v option) \<Rightarrow> ('v \<Rightarrow> AppConfig \<Rightarrow> AppConfig)
   \<Rightarrow> AppConfig \<Rightarrow> AppConfig option" where
  "load_member L j k getter setter c =
     (if json_contains L j k then map_option (\<lambda>v. setter v c) (getter j k) else Some c)"

text \<open>The assignments in order; an exception leaves the earlier ones in place.\<close>

fun load_members :: "(AppConfig \<Rightarrow> AppConfig option) list \<Rightarrow> AppConfig \<Rightarrow> bool \<times> AppConfig" where
  "load_members [] c = (True, c)"
| "load_members (f # fs) c = (case f c of None \<Rightarrow> (False, c) | Some c \<Rightarrow> load_members fs c)"

definition config_members :: "'x lib_scheme \<Rightarrow> json \<Rightarrow> (AppConfig \<Rightarrow> AppConfig option) list" where
  "config_members L j =
     [load_member L j ''user_id'' (json_get_str L) (\<lambda>v c. c\<lparr>c_user_id := v\<rparr>),
      load_member L j ''listen_port'' (json_get_u16 L) (\<lambda>v c. c\<lparr>c_listen_port := v\<rparr>),
      load_member L j ''max_concurrent'' (json_get_int L) (\<lambda>v c. c\<lparr>c_max_concurrent := v\<rparr>),
      load_member L j ''retry_limit'' (json_get_int L) (\<lambda>v c. c\<lparr>c_retry_limit := v\<rparr>),
      load_member L j ''retry_delay_ms'' (json_get_int L) (\<lambda>v c. c\<lparr>c_retry_delay_ms := v\<rparr>),
      load_member L j ''log_level'' (json_get_str L) (\<lambda>v c. c\<lparr>c_log_level := v\<rparr>),
      load_member L j ''verbose'' (json_get_bool L) (\<lambda>v c. c\<lparr>c_verbose := v\<rparr>)]"

definition config_load :: "'x env_scheme \<Rightarrow> world \<Rightarrow> bool \<times> world" where
  "config_load E w =
     (let w = set_defaults E w;
          w = w\<lparr>cfg := apply_env_overrides E (cfg w)\<rparr>;
          (path, w) = cfg_file_path E w
      in if \<not> file_exists path w then (True, w)
         else
           let (f, w) = ifstream_open E path w in
           case f of
             None \<Rightarrow> (False, w)
           | Some text \<Rightarrow>
               (case json_parse E text of
                  None \<Rightarrow> (False, w)
                | Some j \<Rightarrow>
                    let (ok, c) = load_members (config_members E j) (cfg w) in
                    if ok then (True, w\<lparr>cfg := apply_env_overrides E c\<rparr>)
                    else (False, w\<lparr>cfg := c\<rparr>)))"

definition config_json :: "AppConfig \<Rightarrow> (string \<times> json) list" where
  "config_json c =
     [(''user_id'', JStr (c_user_id c)), (''listen_port'', JUInt (ucast (c_listen_port c))),
      (''max_concurrent'', JInt (c_max_concurrent c)), (''retry_limit'', JInt (c_retry_limit c)),
      (''retry_delay_ms'', JInt (c_retry_delay_ms c)), (''log_level'', JStr (c_log_level c)),
      (''verbose'', JBool (c_verbose c))]"

text \<open>The file is opened, and its old content dropped, before \<open>dump\<close> runs; \<open>None\<close> is the exception
  of \<open>dump\<close>, which nothing catches.\<close>

definition config_save :: "'x env_scheme \<Rightarrow> world \<Rightarrow> bool option \<times> world" where
  "config_save E w =
     (let j = JObj (config_json (cfg w));
          (path, w) = cfg_file_path E w;
          (ok, w) = ofstream_open E path Trunc w
      in if \<not> ok then (Some False, w)
         else case json_dump E j of
           None \<Rightarrow> (None, w)
         | Some text \<Rightarrow> (let (good, w) = ofstream_write E path Trunc 0 text w in (Some good, w)))"

definition config_is_installed :: "world \<Rightarrow> bool" where
  "config_is_installed w \<longleftrightarrow> c_user_id (cfg w) \<noteq> []"

section \<open>Identity\<close>

definition identity_is_installed :: "world \<Rightarrow> bool" where
  "identity_is_installed w \<longleftrightarrow> ident w \<noteq> [] \<and> config_is_installed w"

text \<open>An exception of the key files or of the configuration file passes through (\<open>None\<close>).\<close>

definition identity_install :: "'x env_scheme \<Rightarrow> world \<Rightarrow> bool option \<times> world" where
  "identity_install E w =
     (let (new_id, w) = generate_uuid E w;
          w = w\<lparr>cfg := (cfg w)\<lparr>c_user_id := new_id\<rparr>\<rparr>;
          w = w\<lparr>ident := new_id\<rparr>;
          w = create_directories (c_config_dir (cfg w)) w;
          w = create_directories (c_received_dir (cfg w)) w;
          (ok, w) = load_or_generate_keypair E (c_config_dir (cfg w)) w
      in case ok of
           None \<Rightarrow> (None, w)
         | Some False \<Rightarrow> (Some False, LOG_ERROR E ''Failed to generate keypair'' w)
         | Some True \<Rightarrow>
             (let (ok, w) = config_save E w in
              case ok of
                None \<Rightarrow> (None, w)
              | Some False \<Rightarrow> (Some False, LOG_ERROR E ''Failed to save config'' w)
              | Some True \<Rightarrow> (Some True, w)))"

definition identity_load :: "world \<Rightarrow> bool \<times> world" where
  "identity_load w =
     (if c_user_id (cfg w) = [] then (False, w) else (True, w\<lparr>ident := c_user_id (cfg w)\<rparr>))"

section \<open>Lemmas\<close>

text \<open>A configuration with the paths every start derives from the home directory.\<close>

definition with_default_paths :: "'x env_scheme \<Rightarrow> AppConfig \<Rightarrow> AppConfig" where
  "with_default_paths E c = c\<lparr>c_config_dir := path_append (home_dir E) ''.shr'',
     c_db_path := path_append (path_append (home_dir E) ''.shr'') ''shr.db'',
     c_log_path := path_append (path_append (home_dir E) ''.shr'') ''shr.log'',
     c_received_dir := path_append (home_dir E) ''shr_received''\<rparr>"

lemma set_defaults_frame: "files (set_defaults E w) = files w"
  "cfg (set_defaults E w) = with_default_paths E ((cfg w)\<lparr>c_listen_port := SHR_DEFAULT_PORT,
            c_max_concurrent := SHR_MAX_CONCURRENT, c_retry_limit := int SHR_RETRY_LIMIT,
            c_retry_delay_ms := SHR_RETRY_DELAY_MS, c_verbose := False, c_log_level := ''info''\<rparr>)"
  by (simp_all add: set_defaults_def shr_config_dir_def shr_received_dir_def create_directories_def with_default_paths_def Let_def)

lemma config_members_load:
  assumes "\<forall>(k, v) \<in> set (config_json c). get_ok L j k v" and "\<forall>k. json_contains L j k \<longleftrightarrow> k \<in> fst ` set (config_json c)"
    and "\<forall>i \<in> {c_max_concurrent c, c_retry_limit c, c_retry_delay_ms c}. - (2 ^ 31) \<le> i \<and> i < 2 ^ 31"
  shows "load_members (config_members L j) c0 =
    (True, c0\<lparr>c_user_id := c_user_id c, c_listen_port := c_listen_port c, c_max_concurrent := c_max_concurrent c,
       c_retry_limit := c_retry_limit c, c_retry_delay_ms := c_retry_delay_ms c, c_log_level := c_log_level c, c_verbose := c_verbose c\<rparr>)"
proof -
  have u: "ucast (ucast x :: u64) = x" for x :: u16 by (rule bit_word_eqI) (simp add: bit_simps)
  show ?thesis
    using assms by (simp add: config_members_def load_member_def config_json_def get_ok_def u)
qed

lemma config_json_distinct: "distinct (map fst (config_json c))"
  by (simp add: config_json_def)

lemma config_json_flat: "flat_members (config_json c)"
  by (simp add: config_json_def flat_members_def)

lemma config_texts: "texts_utf8 (config_json c) \<longleftrightarrow> utf8 (c_user_id c) \<and> utf8 (c_log_level c)"
proof -
  have "utf8 ''user_id''" "utf8 ''listen_port''" "utf8 ''max_concurrent''" "utf8 ''retry_limit''"
    "utf8 ''retry_delay_ms''" "utf8 ''log_level''" "utf8 ''verbose''"
    by code_simp+
  then show ?thesis by (simp add: texts_utf8_def config_json_def)
qed

abbreviation config_file :: "'x env_scheme \<Rightarrow> string" where
  "config_file E \<equiv> path_append (path_append (home_dir E) ''.shr'') ''config.json''"

lemma config_file_written:
  assumes "disk_reliable E" and "config_save E w = (Some True, w1)"
  shows "\<exists>text. json_dump E (JObj (config_json (cfg w))) = Some text \<and> files w1 (config_file E) = Some text"
  using assms
  by (auto simp: config_save_def cfg_file_path_def shr_config_dir_def create_directories_def ofstream_open_def
      ofstream_write_def disk_reliable_def Let_def split: if_splits option.splits)

text \<open>The settings of the file over whatever defaults and overrides were there.\<close>

lemma saved_over_defaults:
  "(apply_env_overrides E (with_default_paths E c0))\<lparr>c_user_id := c_user_id c, c_listen_port := c_listen_port c,
     c_max_concurrent := c_max_concurrent c, c_retry_limit := c_retry_limit c, c_retry_delay_ms := c_retry_delay_ms c,
     c_log_level := c_log_level c, c_verbose := c_verbose c\<rparr> = with_default_paths E c"
  by (rule AppConfig.equality) (simp_all add: apply_env_overrides_def with_default_paths_def Let_def split: option.split)

section \<open>Properties\<close>

text \<open>C29: Saving and loading the configuration. When the identity and the log level are UTF-8, a
  successful save is read back by a later start: it gets the settings that were saved
  (identity, port, limits, delay, log level, verbosity), with the directories always those of the
  home directory, and on top of them the environment variables \<open>SHR_PORT\<close>, \<open>SHR_VERBOSE\<close> and
  \<open>SHR_LOG_LEVEL\<close>, which win over the file. When one of the two texts is not UTF-8 and the file
  can be opened, saving ends with an exception and leaves the configuration file empty.\<close>

theorem config_round_trip:
  assumes laws: "json_text_laws E" "disk_reliable E"
    and range: "\<forall>i \<in> {c_max_concurrent (cfg w), c_retry_limit (cfg w), c_retry_delay_ms (cfg w)}. - (2 ^ 31) \<le> i \<and> i < 2 ^ 31"
    and saved: "config_save E w = (ok, w1)" "ok \<noteq> Some False"
    and later: "files w2 = files w1" "\<forall>t p. os_readable E t p"
  shows "if utf8 (c_user_id (cfg w)) \<and> utf8 (c_log_level (cfg w))
    then ok = Some True \<and> (\<exists>w3. config_load E w2 = (True, w3) \<and> cfg w3 = apply_env_overrides E (with_default_paths E (cfg w)))
    else ok = None \<and> files w1 (config_file E) = Some []"
proof (cases "texts_utf8 (config_json (cfg w))")
  case False
  with laws(1) config_json_distinct config_json_flat have d: "json_dump E (JObj (config_json (cfg w))) = None"
    unfolding json_text_laws_def by metis
  have "ok = None \<and> files w1 (config_file E) = Some []"
    using saved d
    by (auto simp: config_save_def cfg_file_path_def shr_config_dir_def create_directories_def ofstream_open_def
        Let_def split: if_splits)
  with False show ?thesis by (auto simp: config_texts)
next
  case True
  then obtain dumped j where j: "json_dump E (JObj (config_json (cfg w))) = Some dumped" "json_parse E dumped = Some j"
    "\<forall>k. json_contains E j k \<longleftrightarrow> k \<in> fst ` set (config_json (cfg w))" "\<forall>(k, v) \<in> set (config_json (cfg w)). get_ok E j k v"
    using laws(1) config_json_distinct [of "cfg w"] config_json_flat [of "cfg w"] unfolding json_text_laws_def by metis
  have ok: "ok = Some True"
    using saved j(1) by (auto simp: config_save_def Let_def split: prod.splits if_splits)
  then have f: "files w1 (config_file E) = Some dumped"
    using config_file_written [OF laws(2)] saved(1) j(1) by fastforce
  have "\<exists>w3. config_load E w2 = (True, w3) \<and> cfg w3 = apply_env_overrides E (with_default_paths E (cfg w))"
    using f later
    by (simp add: config_load_def cfg_file_path_def shr_config_dir_def create_directories_def file_exists_def
        ifstream_open_def set_defaults_frame j(2) config_members_load [OF j(4,3) range] saved_over_defaults Let_def)
  with ok True show ?thesis by (simp add: config_texts)
qed

lemma sample_config:
  "utf8 ''node''" "utf8 ''info''" "\<not> utf8 [CHR 0xFF]"
  by code_simp+

lemma sample_saves:
  assumes "w = sample_world\<lparr>cfg := (cfg sample_world)\<lparr>c_retry_limit := 3, c_log_level := l\<rparr>\<rparr>"
  shows "fst (config_save sample_env w) \<noteq> Some False"
  using assms
  by (simp add: config_save_def cfg_file_path_def shr_config_dir_def create_directories_def ofstream_open_def
      ofstream_write_def sample_world_def sample_env_def home_dir_def path_append_def Let_def
      del: sample_encode.simps sample_dump.simps split: option.split)

theorem config_round_trip_witness:
  "(\<exists>w3. config_load sample_env (sample_world\<lparr>files := files (snd (config_save sample_env
        (sample_world\<lparr>cfg := (cfg sample_world)\<lparr>c_retry_limit := 3, c_log_level := ''info''\<rparr>\<rparr>)))\<rparr>) = (True, w3)
     \<and> c_retry_limit (cfg w3) = 3 \<and> c_user_id (cfg w3) = ''node'')
   \<and> files (snd (config_save sample_env (sample_world\<lparr>cfg := (cfg sample_world)\<lparr>c_retry_limit := 3, c_log_level := [CHR 0xFF]\<rparr>\<rparr>)))
       (config_file sample_env) = Some []"
proof
  define world where "world l = sample_world\<lparr>cfg := (cfg sample_world)\<lparr>c_retry_limit := 3, c_log_level := l\<rparr>\<rparr>" for l
  have range: "\<forall>i \<in> {c_max_concurrent (cfg (world l)), c_retry_limit (cfg (world l)), c_retry_delay_ms (cfg (world l))}.
      - (2 ^ 31) \<le> i \<and> i < 2 ^ 31" for l by (simp add: world_def sample_world_def)
  have rd: "\<forall>t p. os_readable sample_env t p"
    and env: "os_getenv sample_env ''SHR_PORT'' = None" "os_getenv sample_env ''SHR_VERBOSE'' = None" "os_getenv sample_env ''SHR_LOG_LEVEL'' = None"
    by (simp_all add: sample_env_def)
  note rt = config_round_trip [OF sample_json_text sample_reliable(4) range prod.collapse [symmetric] sample_saves [OF world_def] _ rd]
  have id: "c_user_id (cfg (world l)) = ''node''" "c_log_level (cfg (world l)) = l" for l
    by (simp_all add: world_def sample_world_def)
  show "\<exists>w3. config_load sample_env (sample_world\<lparr>files := files (snd (config_save sample_env
        (sample_world\<lparr>cfg := (cfg sample_world)\<lparr>c_retry_limit := 3, c_log_level := ''info''\<rparr>\<rparr>)))\<rparr>) = (True, w3)
     \<and> c_retry_limit (cfg w3) = 3 \<and> c_user_id (cfg w3) = ''node''"
    using rt [of "sample_world\<lparr>files := files (snd (config_save sample_env (world ''info'')))\<rparr>" "''info''"] sample_config
    by (auto simp: id apply_env_overrides_def with_default_paths_def env) (auto simp: world_def sample_world_def)
  show "files (snd (config_save sample_env (sample_world\<lparr>cfg := (cfg sample_world)\<lparr>c_retry_limit := 3, c_log_level := [CHR 0xFF]\<rparr>\<rparr>)))
       (config_file sample_env) = Some []"
    using rt [of "sample_world\<lparr>files := files (snd (config_save sample_env (world [CHR 0xFF])))\<rparr>" "[CHR 0xFF]"] sample_config
    by (simp add: id world_def)
qed

end
