(* ===== verification/Shr_Peers.thy ===== *)
theory Shr_Peers
  imports Shr_Network Shr_Database Shr_Config
begin

text \<open>
  \<open>src/peers.cxx\<close>: the peer list, liveness probes, discovery and the handlers for discovery,
  announcement, ping and pong packets.
\<close>

definition ping_json :: "string \<Rightarrow> int \<Rightarrow> json" where
  "ping_json i ts = JObj [(''from'', JStr i), (''ts'', JInt ts)]"

definition announce_json :: "string \<Rightarrow> u16 \<Rightarrow> json" where
  "announce_json i port = JObj [(''id'', JStr i), (''port'', JUInt (ucast port))]"

definition add_peer :: "'x env_scheme \<Rightarrow> string \<Rightarrow> string \<Rightarrow> u16 \<Rightarrow> world \<Rightarrow> bool \<times> world" where
  "add_peer E i ip port w =
     (if \<not> is_valid_uuid i then (False, eprint (''Invalid peer ID format'' @ [CHR 0x0A]) w)
      else upsert_peer E \<lparr>p_id = i, p_ip = ip, p_port = port, p_online = False, p_last_seen = 0, p_alias = []\<rparr> w)"

definition remove_peer :: "'x env_scheme \<Rightarrow> string \<Rightarrow> world \<Rightarrow> bool \<times> world" where
  "remove_peer E i w = delete_peer E i w"

definition list_peers :: "'x env_scheme \<Rightarrow> world \<Rightarrow> PeerInfo list \<times> world" where
  "list_peers E w = all_peers E w"

definition find_peer :: "'x env_scheme \<Rightarrow> string \<Rightarrow> world \<Rightarrow> PeerInfo option \<times> world" where
  "find_peer E i w = get_peer E i w"

definition ping_peer :: "'x env_scheme \<Rightarrow> string \<Rightarrow> world \<Rightarrow> bool \<times> world" where
  "ping_peer E i w =
     (let (peer, w) = get_peer E i w in
      case peer of
        None \<Rightarrow> (False, w)
      | Some p \<Rightarrow>
          let (ts, w) = now_unix E w;
              bytes = to_cbor E (ping_json (ident w) ts);
              (ok, w) = send_packet E (p_ip p) (p_port p) Ping bytes w
          in if ok then
               let (now, w) = now_unix E w;
                   (_, w) = upsert_peer E (p\<lparr>p_online := True, p_last_seen := now\<rparr>) w
               in (ok, w)
             else
               let (_, w) = upsert_peer E (p\<lparr>p_online := False\<rparr>) w in (ok, w))"

definition discover :: "'x env_scheme \<Rightarrow> world \<Rightarrow> world" where
  "discover E w =
     (let bytes = to_cbor E (announce_json (ident w) (c_listen_port (cfg w)));
          w = print (''Broadcasting discovery on local network...'' @ [CHR 0x0A]) w;
          (ok, w) = broadcast_udp E (c_listen_port (cfg w)) bytes w
      in if ok then print (''Discovery broadcast sent.'' @ [CHR 0x0A]) w
         else print (''Discovery broadcast failed (no network interface?).'' @ [CHR 0x0A]) w)"

text \<open>The members read from a discovery or announcement payload; \<open>None\<close> is an exception.\<close>

definition decode_announce :: "'x lib_scheme \<Rightarrow> bytes \<Rightarrow> (string \<times> u16) option" where
  "decode_announce L payload =
     do { j \<leftarrow> from_cbor L payload;
          i \<leftarrow> value_str L j ''id'' [];
          port \<leftarrow> value_u16 L j ''port'' SHR_DEFAULT_PORT;
          Some (i, port) }"

definition handle_discover :: "'x env_scheme \<Rightarrow> bytes \<Rightarrow> nat \<Rightarrow> world \<Rightarrow> world" where
  "handle_discover E payload conn w =
     (case decode_announce E payload of
        None \<Rightarrow> LOG_WARN E ''handle_discover: malformed payload'' w
      | Some (peer_id, peer_port) \<Rightarrow>
          if \<not> is_valid_uuid peer_id then w
          else if peer_id = ident w then w
          else
            let (existing, w) = get_peer E peer_id w;
                w = (case existing of
                       Some _ \<Rightarrow> w
                     | None \<Rightarrow>
                         let (now, w) = now_unix E w;
                             (_, w) = upsert_peer E \<lparr>p_id = peer_id, p_ip = [], p_port = peer_port,
                                p_online = True, p_last_seen = now, p_alias = []\<rparr> w
                         in LOG_INFO E (''Discovered new peer: '' @ peer_id) w);
                bytes = to_cbor E (announce_json (ident w) (c_listen_port (cfg w)))
            in snd (send_packet_conn E conn PeerAnnounce bytes w))"

definition handle_announce :: "'x env_scheme \<Rightarrow> bytes \<Rightarrow> nat \<Rightarrow> world \<Rightarrow> world" where
  "handle_announce E payload conn w =
     (case decode_announce E payload of
        None \<Rightarrow> w
      | Some (peer_id, peer_port) \<Rightarrow>
          if \<not> is_valid_uuid peer_id then w
          else if peer_id = ident w then w
          else
            let (now, w) = now_unix E w;
                (_, w) = upsert_peer E \<lparr>p_id = peer_id, p_ip = [], p_port = peer_port,
                   p_online = True, p_last_seen = now, p_alias = []\<rparr> w
            in LOG_INFO E (''Peer announced: '' @ peer_id) w)"

definition decode_from :: "'x lib_scheme \<Rightarrow> bytes \<Rightarrow> string option" where
  "decode_from L payload = do { j \<leftarrow> from_cbor L payload; value_str L j ''from'' [] }"

definition mark_seen :: "'x env_scheme \<Rightarrow> string \<Rightarrow> world \<Rightarrow> world" where
  "mark_seen E from w =
     (let (peer, w) = get_peer E from w in
      case peer of
        None \<Rightarrow> w
      | Some p \<Rightarrow>
          let (now, w) = now_unix E w
          in snd (upsert_peer E (p\<lparr>p_online := True, p_last_seen := now\<rparr>) w))"

definition handle_ping :: "'x env_scheme \<Rightarrow> bytes \<Rightarrow> nat \<Rightarrow> world \<Rightarrow> world" where
  "handle_ping E payload conn w =
     (case decode_from E payload of
        None \<Rightarrow> w
      | Some from \<Rightarrow>
          let w = mark_seen E from w;
              (ts, w) = now_unix E w;
              bytes = to_cbor E (ping_json (ident w) ts)
          in snd (send_packet_conn E conn Pong bytes w))"

definition handle_pong :: "'x env_scheme \<Rightarrow> bytes \<Rightarrow> nat \<Rightarrow> world \<Rightarrow> world" where
  "handle_pong E payload conn w =
     (case decode_from E payload of None \<Rightarrow> w | Some from \<Rightarrow> mark_seen E from w)"

definition start_beacon :: "world \<Rightarrow> world" where
  "start_beacon w = w\<lparr>beacon_running := True\<rparr>"

definition stop_beacon :: "world \<Rightarrow> world" where
  "stop_beacon w = w\<lparr>beacon_running := False\<rparr>"

text \<open>One round of \<open>beacon_loop\<close>: every peer with an address is pinged in turn.\<close>

fun beacon_pings :: "'x env_scheme \<Rightarrow> PeerInfo list \<Rightarrow> world \<Rightarrow> world" where
  "beacon_pings E [] w = w"
| "beacon_pings E (p # ps) w =
     (if p_ip p = [] then beacon_pings E ps w
      else
        let (ts, w) = now_unix E w;
            bytes = to_cbor E (ping_json (ident w) ts);
            (alive, w) = send_packet E (p_ip p) (p_port p) Ping bytes w;
            p = p\<lparr>p_online := alive\<rparr>;
            (p, w) = (if alive then let (now, w) = now_unix E w in (p\<lparr>p_last_seen := now\<rparr>, w) else (p, w));
            (_, w) = upsert_peer E p w
        in beacon_pings E ps w)"

definition beacon_round :: "'x env_scheme \<Rightarrow> world \<Rightarrow> world" where
  "beacon_round E w =
     (if beacon_running w then let (ps, w) = all_peers E w in beacon_pings E ps w else w)"

end
