(* ===== verification/Shr_Messaging.thy ===== *)
theory Shr_Messaging
  imports Shr_Peers
begin

text \<open>
  \<open>src/messaging.cxx\<close>: sending a text message with retries, the inbox, and the handler that
  stores a received message.
\<close>

definition message_json :: "string \<Rightarrow> string \<Rightarrow> string \<Rightarrow> string \<Rightarrow> int \<Rightarrow> json" where
  "message_json i sender recipient content ts =
     JObj [(''id'', JStr i), (''sender_id'', JStr sender), (''recipient_id'', JStr recipient),
           (''content'', JStr content), (''timestamp'', JInt ts)]"

text \<open>\<open>for (attempt = 0; attempt < n && !ok; ++attempt) ok = send();\<close>\<close>

fun retry_send :: "nat \<Rightarrow> (world \<Rightarrow> bool \<times> world) \<Rightarrow> world \<Rightarrow> bool \<times> world" where
  "retry_send 0 send w = (False, w)"
| "retry_send (Suc n) send w =
     (let (ok, w) = send w in if ok then (True, w) else retry_send n send w)"

definition send_msg :: "'x env_scheme \<Rightarrow> string \<Rightarrow> string \<Rightarrow> world \<Rightarrow> bool \<times> world" where
  "send_msg E recipient_id content w =
     (if \<not> is_valid_uuid recipient_id then
        (False, eprint (''error: invalid recipient ID'' @ [CHR 0x0A]) w)
      else if content = [] then (False, eprint (''error: message is empty'' @ [CHR 0x0A]) w)
      else
        let (peer, w) = find_peer E recipient_id w in
        case peer of
          None \<Rightarrow> (False, eprint (''error: peer not found or IP unknown. Use: shr connect <id> <ip>'' @ [CHR 0x0A]) w)
        | Some p \<Rightarrow>
            if p_ip p = [] then
              (False, eprint (''error: peer not found or IP unknown. Use: shr connect <id> <ip>'' @ [CHR 0x0A]) w)
            else
              let (msg_id, w) = generate_uuid E w;
                  (ts, w) = now_unix E w;
                  bytes = to_cbor E (message_json msg_id (ident w) recipient_id content ts);
                  (ok, w) = retry_send SHR_RETRY_LIMIT (send_packet E (p_ip p) (p_port p) MsgSend bytes) w
              in if \<not> ok then
                   (False, eprint (''error: failed to deliver message after '' @ show_nat SHR_RETRY_LIMIT
                       @ '' attempts'' @ [CHR 0x0A]) w)
                 else
                   let (_, w) = insert_message E \<lparr>m_id = msg_id, m_sender_id = ident w,
                         m_recipient_id = recipient_id, m_content = content, m_timestamp = ts,
                         m_read = True\<rparr> w
                   in (True, print (''['' @ timestamp_to_str E ts @ ''] Message sent to '' @ recipient_id
                         @ [CHR 0x0A]) w))"

definition messaging_get_inbox :: "'x env_scheme \<Rightarrow> int \<Rightarrow> int \<Rightarrow> world \<Rightarrow> Message list option \<times> world" where
  "messaging_get_inbox E page page_size w = get_inbox E page page_size w"

definition messaging_unread_count :: "'x env_scheme \<Rightarrow> world \<Rightarrow> int \<times> world" where
  "messaging_unread_count E w = unread_count E w"

text \<open>The defaults of \<open>value\<close> are evaluated before the member is looked up, so an identifier is
  drawn and the clock is read for every message.\<close>

definition handle_msg_receive :: "'x env_scheme \<Rightarrow> bytes \<Rightarrow> world \<Rightarrow> world" where
  "handle_msg_receive E payload w =
     (case from_cbor E payload of
        None \<Rightarrow> LOG_WARN E ''handle_msg_receive: malformed payload'' w
      | Some j \<Rightarrow>
          let (fresh, w) = generate_uuid E w in
          case (do { i \<leftarrow> value_str E j ''id'' fresh;
                     sender \<leftarrow> value_str E j ''sender_id'' ''unknown'';
                     recipient \<leftarrow> value_str E j ''recipient_id'' (ident w);
                     content \<leftarrow> value_str E j ''content'' [];
                     Some (i, sender, recipient, content) }) of
            None \<Rightarrow> LOG_WARN E ''handle_msg_receive: malformed payload'' w
          | Some (i, sender, recipient, content) \<Rightarrow>
              let (now, w) = now_unix E w in
              case value_i64 E j ''timestamp'' now of
                None \<Rightarrow> LOG_WARN E ''handle_msg_receive: malformed payload'' w
              | Some ts \<Rightarrow>
                  let (_, w) = insert_message E \<lparr>m_id = i, m_sender_id = sender,
                        m_recipient_id = recipient, m_content = content, m_timestamp = ts,
                        m_read = False\<rparr> w
                  in LOG_INFO E (''Message received from '' @ sender) w)"

end
