(* ===== verification/Shr_Frame.thy ===== *)
theory Shr_Frame
  imports Shr_Messaging
begin

text \<open>
  What packet traffic leaves alone. The relation \<open>quiet\<close> says that two worlds agree on the
  files, the tables, the configuration and the flags of the process; sending and reading
  packets, connecting, reading the clock, drawing random bytes, looking up a row and printing
  are quiet. The field lemmas derived from it are simplification rules for the proofs on
  handlers and transfers.
\<close>

section \<open>The relation\<close>

definition quiet :: "world \<Rightarrow> world \<Rightarrow> bool" where
  "quiet w w' \<longleftrightarrow> files w' = files w \<and> dirs w' = dirs w \<and> db w' = db w \<and> cfg w' = cfg w
     \<and> ident w' = ident w \<and> active_count w' = active_count w \<and> net_running w' = net_running w
     \<and> listen_sock w' = listen_sock w \<and> db_open w' = db_open w \<and> keypair w' = keypair w"

lemma quiet_refl [simp]: "quiet w w"
  by (simp add: quiet_def)

lemma quiet_trans: "quiet w w' \<Longrightarrow> quiet w' w'' \<Longrightarrow> quiet w w''"
  by (simp add: quiet_def)

lemma quietD:
  assumes "quiet w w'"
  shows "files w' = files w" "dirs w' = dirs w" "db w' = db w" "cfg w' = cfg w" "ident w' = ident w"
    "active_count w' = active_count w" "net_running w' = net_running w"
    "listen_sock w' = listen_sock w" "db_open w' = db_open w" "keypair w' = keypair w"
  using assms by (simp_all add: quiet_def)

lemma quiet_basic [simp]:
  "quiet w (step_tick w')  \<longleftrightarrow> quiet w w'" "quiet w (print s w') \<longleftrightarrow> quiet w w'"
  "quiet w (eprint s w') \<longleftrightarrow> quiet w w'" "quiet w (close_conn c w') \<longleftrightarrow> quiet w w'"
  "quiet w (log E l m w') \<longleftrightarrow> quiet w w'" "quiet w (sock_put c d w') \<longleftrightarrow> quiet w w'"
  "quiet w (sock_take c n w') \<longleftrightarrow> quiet w w'"
  by (simp_all add: quiet_def close_conn_def sock_put_def sock_take_def)

lemma quiet_sock_frame: "sock_frame s w k w' \<Longrightarrow> quiet w w'"
  by (auto simp: sock_frame_def quiet_def)

lemma quiet_send_packet_conn [simp]: "quiet w (snd (send_packet_conn E s t p w))"
  by (rule send_packet_conn_invariant [where P = "quiet w"]) (simp_all add: send_some_def Let_def)

lemma quiet_read_packet [simp]: "quiet w (snd (read_packet E s out w))"
  by (rule read_packet_invariant [where P = "quiet w"]) (simp_all add: recv_some_eq)

lemma quiet_connect_to [simp]: "quiet w (snd (connect_to E ip port w))"
  by (simp add: connect_to_def Let_def) (simp add: quiet_def)

lemma quiet_send_packet [simp]: "quiet w (snd (send_packet E ip port t p w))"
proof -
  obtain c w1 where c: "connect_to E ip port w = (c, w1)" by fastforce
  with quiet_connect_to [of w E ip port] have "quiet w w1" by simp
  then have "quiet w (snd (send_packet_conn E s t p w1))" for s
    by (rule quiet_trans) simp
  with c \<open>quiet w w1\<close> show ?thesis
    by (simp add: send_packet_def case_prod_beta split: option.split)
qed

lemma quiet_retry_send:
  assumes "\<And>w. quiet w (snd (f w))"
  shows "quiet w (snd (retry_send n f w))"
  using assms
proof (induction n arbitrary: w)
  case (Suc n)
  then have "quiet w (snd (f w))" "quiet (snd (f w)) (snd (retry_send n f (snd (f w))))" by blast+
  then show ?case by (auto simp: case_prod_beta intro: quiet_trans)
qed simp

lemma quiet_get [simp]:
  "quiet w (snd (get_peer E i w))" "quiet w (snd (get_transfer E i w))" "quiet w (snd (find_peer E i w))"
  "quiet w (snd (now_unix E w))" "quiet w (snd (generate_uuid E w))" "quiet w (snd (sha256_file E path w))"
  "quiet w (snd (ifstream_open E path w))" "quiet w (snd (rand_bytes E n w))"
  by (simp_all add: get_peer_def get_transfer_def find_peer_def sql_step_def now_unix_def generate_uuid_world
      sha256_file_def ifstream_open_def rand_bytes_def Let_def split: option.split)

lemmas quiet_fields [simp] =
  quietD [OF quiet_send_packet_conn] quietD [OF quiet_read_packet] quietD [OF quiet_connect_to]
  quietD [OF quiet_send_packet] quietD [OF quiet_get(1)] quietD [OF quiet_get(2)] quietD [OF quiet_get(3)]
  quietD [OF quiet_get(4)] quietD [OF quiet_get(5)] quietD [OF quiet_get(6)] quietD [OF quiet_get(7)]
  quietD [OF quiet_get(8)]

lemma close_conn_fields [simp]:
  "files (close_conn s w) = files w" "dirs (close_conn s w) = dirs w" "db (close_conn s w) = db w"
  "cfg (close_conn s w) = cfg w" "ident (close_conn s w) = ident w" "tick (close_conn s w) = tick w"
  "active_count (close_conn s w) = active_count w" "net_running (close_conn s w) = net_running w"
  "db_open (close_conn s w) = db_open w" "socks (close_conn s w) = (socks w)(s := None)"
  "next_sock (close_conn s w) = next_sock w" "listen_sock (close_conn s w) = listen_sock w"
  "keypair (close_conn s w) = keypair w"
  "closed_socks (close_conn s w) =
     (case socks w s of None \<Rightarrow> closed_socks w | Some k \<Rightarrow> (closed_socks w)(s \<mapsto> k))"
  by (simp_all add: close_conn_def)

section \<open>Other connections\<close>

text \<open>Traffic on one connection leaves the others alone.\<close>

definition others :: "nat \<Rightarrow> world \<Rightarrow> world \<Rightarrow> bool" where
  "others s w w' \<longleftrightarrow> (\<forall>s'. s' \<noteq> s \<longrightarrow> socks w' s' = socks w s')"

lemma others_basic [simp]:
  "others s w w" "others s w (step_tick w') \<longleftrightarrow> others s w w'" "others s w (print t w') \<longleftrightarrow> others s w w'"
  "others s w (eprint t w') \<longleftrightarrow> others s w w'" "others s w (log E l m w') \<longleftrightarrow> others s w w'"
  "others s w (snd (run_sql E f w')) \<longleftrightarrow> others s w w'" "others s w (close_conn s w') \<longleftrightarrow> others s w w'"
  "others s w (sock_put s d w') \<longleftrightarrow> others s w w'" "others s w (sock_take s n w') \<longleftrightarrow> others s w w'"
  "others s w (w'\<lparr>active_count := a\<rparr>) \<longleftrightarrow> others s w w'"
  by (auto simp: others_def sock_put_def sock_take_def)

lemma others_send: "others s w w' \<Longrightarrow> others s w (snd (send_packet_conn E s t p w'))"
  by (rule send_packet_conn_invariant [where P = "others s w"]) (simp_all add: send_some_def Let_def)

lemma others_read: "others s w w' \<Longrightarrow> others s w (snd (read_packet E s out w'))"
  by (rule read_packet_invariant [where P = "others s w"]) (simp_all add: recv_some_eq)

lemma others_retry: "others s w w' \<Longrightarrow> others s w (snd (retry_send n (send_packet_conn E s t p) w'))"
  by (induction n arbitrary: w') (auto simp: case_prod_beta others_send)

lemmas others_traffic = others_send others_read others_retry

end
