(* ===== verification/Shr_Transfer.thy ===== *)
theory Shr_Transfer
  imports Shr_Frame
begin

text \<open>
  \<open>src/transfer.cxx\<close>: sending a file in chunks, the handlers of the receiving side, and the
  transfer list. The sending loop and the handlers follow the C++ statement by statement;
  sleeping between attempts has no effect on the state and is left out.
\<close>

section \<open>Messages of the transfer protocol\<close>

definition offer_json :: "string \<Rightarrow> string \<Rightarrow> u64 \<Rightarrow> string \<Rightarrow> string \<Rightarrow> json" where
  "offer_json xfer_id fname sz checksum sender =
     JObj [(''transfer_id'', JStr xfer_id), (''filename'', JStr fname), (''size'', JUInt sz),
           (''checksum'', JStr checksum), (''sender_id'', JStr sender)]"

definition chunk_json :: "'x lib_scheme \<Rightarrow> string \<Rightarrow> u64 \<Rightarrow> u64 \<Rightarrow> bytes \<Rightarrow> json" where
  "chunk_json L xfer_id index offset d =
     JObj [(''transfer_id'', JStr xfer_id), (''index'', JUInt index), (''offset'', JUInt offset),
           (''size'', JUInt (word_of_nat (length d))), (''checksum'', JStr (sha256_bytes L d)),
           (''data'', JStr (base64_encode L d))]"

definition complete_json :: "string \<Rightarrow> string \<Rightarrow> json" where
  "complete_json xfer_id checksum = JObj [(''transfer_id'', JStr xfer_id), (''checksum'', JStr checksum)]"

definition accept_json :: "string \<Rightarrow> json" where
  "accept_json xfer_id = JObj [(''transfer_id'', JStr xfer_id)]"

definition resume_json :: "u64 \<Rightarrow> json" where
  "resume_json offset = JObj [(''offset'', JUInt offset)]"

definition ack_json :: "string \<Rightarrow> u64 \<Rightarrow> json" where
  "ack_json xfer_id offset = JObj [(''transfer_id'', JStr xfer_id), (''offset'', JUInt offset)]"

section \<open>Progress display\<close>

definition pad_left :: "nat \<Rightarrow> string \<Rightarrow> string" where
  "pad_left n s = replicate (n - length s) CHR '' '' @ s"

definition percent :: "u64 \<Rightarrow> u64 \<Rightarrow> int" where
  "percent sofar tot = (if 0 < tot then sint (ucast (sofar * 100 div tot) :: u32) else 0)"

definition progress_line :: "u64 \<Rightarrow> u64 \<Rightarrow> u64 \<Rightarrow> string" where
  "progress_line sofar tot speed =
     (let pct = percent sofar tot; bar = sgn pct * (\<bar>pct\<bar> div 5)
      in [CHR 0x0D] @ ''['' @ map (\<lambda>i. if int i < bar then CHR ''#'' else CHR '' '') [0..<20] @ ''] ''
         @ pad_left 3 (show_int pct) @ ''% '' @ format_bytes sofar @ '' / '' @ format_bytes tot
         @ ''  '' @ pad_left 10 (format_speed speed) @ ''          ''
         @ (if tot \<le> sofar then [CHR 0x0A] else []))"

section \<open>Sending\<close>

datatype send_outcome = LoopDone | ChunkSendFailed

definition no_packet :: RawPacket where
  "no_packet = \<lparr>k_type = Unlisted 0, k_payload = [], k_peer_ip = [], k_peer_port = 0\<rparr>"

text \<open>The body of the sending loop for one non-empty chunk: send it with retries, wait for a
  packet from the peer, account for the bytes.\<close>

datatype chunk_result = SendFailed | NoAck | Acked

definition send_one_chunk ::
  "'x env_scheme \<Rightarrow> nat \<Rightarrow> string \<Rightarrow> u64 \<Rightarrow> bytes \<Rightarrow> u64 \<Rightarrow> u64 \<Rightarrow> world \<Rightarrow> chunk_result \<times> u64 \<times> world" where
  "send_one_chunk E conn xfer_id file_sz chunk chunk_index transferred w =
     (let bytes = to_cbor E (chunk_json E xfer_id chunk_index transferred chunk);
          (sent, w) = retry_send SHR_RETRY_LIMIT (send_packet_conn E conn FileChunk bytes) w
      in if \<not> sent then (SendFailed, transferred, w)
         else
           case read_packet E conn no_packet w of
             (None, w) \<Rightarrow> (NoAck, transferred, eprint ([CHR 0x0A] @ ''error: no chunk ack'' @ [CHR 0x0A]) w)
           | (Some ack, w) \<Rightarrow>
               let transferred = transferred + word_of_nat (length chunk);
                   (due, speed) = os_progress E (tick w);
                   w = step_tick w;
                   w = (if due \<or> file_sz \<le> transferred
                        then print (progress_line transferred file_sz speed) w else w);
                   (_, w) = update_transfer_progress E xfer_id transferred InProgress w
               in (Acked, transferred, w))"

text \<open>
  The loop over an input stream on \<open>data\<close> at position \<open>pos\<close> with stream state \<open>good\<close>:
  \<open>read\<close> delivers up to \<open>SHR_CHUNK_SIZE\<close> bytes and leaves the stream good only when it got
  all of them. The result says whether the loop ran to its end (also after a missing
  acknowledgement) or a chunk could not be sent.
\<close>

function send_chunks ::
  "'x env_scheme \<Rightarrow> nat \<Rightarrow> string \<Rightarrow> u64 \<Rightarrow> bytes \<Rightarrow> nat \<Rightarrow> bool \<Rightarrow> u64 \<Rightarrow> u64 \<Rightarrow> world
   \<Rightarrow> send_outcome \<times> u64 \<times> world" where
  "send_chunks E conn xfer_id file_sz data pos good chunk_index transferred w =
     (let chunk = take SHR_CHUNK_SIZE (drop pos data) in
      if \<not> good \<or> chunk = [] then (LoopDone, transferred, w)
      else
        case send_one_chunk E conn xfer_id file_sz chunk chunk_index transferred w of
          (SendFailed, transferred, w) \<Rightarrow> (ChunkSendFailed, transferred, w)
        | (NoAck, transferred, w) \<Rightarrow> (LoopDone, transferred, w)
        | (Acked, transferred, w) \<Rightarrow>
            send_chunks E conn xfer_id file_sz data (pos + length chunk) (length chunk = SHR_CHUNK_SIZE)
              (chunk_index + 1) transferred w)"
  by pat_completeness auto
termination
  by (relation "measure (\<lambda>(E, conn, xfer_id, file_sz, data, pos, good, ci, tr, w). length data - pos)")
     (auto simp: min_def SHR_CHUNK_SIZE_def)

declare send_chunks.simps [simp del]

text \<open>\<open>update_transfer_progress(xfer_id, n, Failed)\<close> and the empty result of every error exit.\<close>

definition send_failed :: "'x env_scheme \<Rightarrow> string \<Rightarrow> u64 \<Rightarrow> world \<Rightarrow> string \<times> world" where
  "send_failed E xfer_id n w =
     (let (_, w) = update_transfer_progress E xfer_id n Failed w in ([], w))"

text \<open>From the accepted offer to the end: open the file, position it, send the chunks, complete.\<close>

definition send_body ::
  "'x env_scheme \<Rightarrow> nat \<Rightarrow> string \<Rightarrow> string \<Rightarrow> string \<Rightarrow> u64 \<Rightarrow> string \<Rightarrow> u64 \<Rightarrow> world \<Rightarrow> string \<times> world" where
  "send_body E conn xfer_id abs_path fname file_sz checksum resume_offset w =
     (let (file, w) = ifstream_open E abs_path w in
      case file of
        None \<Rightarrow>
          send_failed E xfer_id 0
            (close_conn conn (eprint (''error: cannot open file for reading'' @ [CHR 0x0A]) w))
      | Some data \<Rightarrow>
          let good = (0 \<le> sint resume_offset);
              (_, w) = update_transfer_progress E xfer_id resume_offset InProgress w;
              w = w\<lparr>active_count := active_count w + 1\<rparr>;
              (outcome, transferred, w) =
                send_chunks E conn xfer_id file_sz data (unat resume_offset) good
                  (resume_offset div word_of_nat SHR_CHUNK_SIZE) resume_offset w
          in case outcome of
               ChunkSendFailed \<Rightarrow>
                 let w = eprint ([CHR 0x0A] @ ''error: chunk send failed'' @ [CHR 0x0A]) w;
                     w = close_conn conn w;
                     (r, w) = send_failed E xfer_id transferred w
                 in (r, w\<lparr>active_count := active_count w - 1\<rparr>)
             | LoopDone \<Rightarrow>
                 let bytes = to_cbor E (complete_json xfer_id checksum);
                     (_, w) = send_packet_conn E conn FileComplete bytes w;
                     w = close_conn conn w;
                     (_, w) = update_transfer_progress E xfer_id transferred Completed w;
                     w = w\<lparr>active_count := active_count w - 1\<rparr>
                 in (xfer_id, print (''Transfer complete: '' @ fname @ '' ('' @ format_bytes file_sz @ '')''
                       @ [CHR 0x0A]) w))"

definition decode_offset :: "'x lib_scheme \<Rightarrow> bytes \<Rightarrow> u64" where
  "decode_offset L payload =
     (case do { j \<leftarrow> from_cbor L payload; value_u64 L j ''offset'' 0 } of None \<Rightarrow> 0 | Some n \<Rightarrow> n)"

text \<open>From the stored record to the peer's answer.\<close>

definition send_offer ::
  "'x env_scheme \<Rightarrow> PeerInfo \<Rightarrow> string \<Rightarrow> string \<Rightarrow> string \<Rightarrow> u64 \<Rightarrow> string \<Rightarrow> world \<Rightarrow> string \<times> world" where
  "send_offer E peer xfer_id abs_path fname file_sz checksum w =
     (let offer_bytes = to_cbor E (offer_json xfer_id fname file_sz checksum (ident w)) in
      case connect_to E (p_ip peer) (p_port peer) w of
        (None, w) \<Rightarrow>
          send_failed E xfer_id 0
            (eprint (''error: cannot connect to peer '' @ p_ip peer @ '':'' @ show_nat (unat (p_port peer))
               @ [CHR 0x0A]) w)
      | (Some conn, w) \<Rightarrow>
          let (_, w) = send_packet_conn E conn FileOffer offer_bytes w in
          case read_packet E conn no_packet w of
            (None, w) \<Rightarrow>
              send_failed E xfer_id 0
                (close_conn conn (eprint (''error: no response from peer'' @ [CHR 0x0A]) w))
          | (Some resp, w) \<Rightarrow>
              if k_type resp = FileReject then
                send_failed E xfer_id 0
                  (close_conn conn (eprint (''error: peer rejected file transfer'' @ [CHR 0x0A]) w))
              else
                let resume_offset = (if k_type resp = FileResume then decode_offset E (k_payload resp) else 0)
                in send_body E conn xfer_id abs_path fname file_sz checksum resume_offset w)"

definition send_file :: "'x env_scheme \<Rightarrow> string \<Rightarrow> string \<Rightarrow> world \<Rightarrow> string \<times> world" where
  "send_file E filepath recipient_id w =
     (if \<not> is_valid_uuid recipient_id then
        ([], eprint (''error: invalid recipient ID'' @ [CHR 0x0A]) w)
      else
        case os_canonical E filepath of
          None \<Rightarrow> ([], eprint (''error: file not found: '' @ filepath @ [CHR 0x0A]) w)
        | Some abs_path \<Rightarrow>
            if files w abs_path = None then
              ([], eprint (''error: not a regular file: '' @ filepath @ [CHR 0x0A]) w)
            else
              let (peer, w) = find_peer E recipient_id w in
              case peer of
                None \<Rightarrow> ([], eprint (''error: peer not reachable. Use: shr connect <id> <ip>'' @ [CHR 0x0A]) w)
              | Some p \<Rightarrow>
                  if p_ip p = [] then
                    ([], eprint (''error: peer not reachable. Use: shr connect <id> <ip>'' @ [CHR 0x0A]) w)
                  else if SHR_MAX_CONCURRENT \<le> active_count w then
                    ([], eprint (''error: max concurrent transfers ('' @ show_int SHR_MAX_CONCURRENT
                       @ '') reached'' @ [CHR 0x0A]) w)
                  else
                    let file_sz = file_size abs_path w;
                        (checksum, w) = sha256_file E abs_path w;
                        (xfer_id, w) = generate_uuid E w;
                        fname = path_filename abs_path;
                        (created, w) = now_unix E w;
                        (updated, w) = now_unix E w;
                        rec = \<lparr>t_id = xfer_id, t_peer_id = recipient_id, t_filename = fname,
                               t_filepath = abs_path, t_total_bytes = file_sz, t_transferred_bytes = 0,
                               t_state = Pending, t_checksum = checksum, t_created_at = created,
                               t_updated_at = updated, t_outbound = True\<rparr>;
                        (_, w) = upsert_transfer E rec w
                    in send_offer E p xfer_id abs_path fname file_sz checksum w)"

section \<open>Receiving\<close>

definition decode_offer ::
  "'x lib_scheme \<Rightarrow> json \<Rightarrow> string \<Rightarrow> (string \<times> string \<times> u64 \<times> string \<times> string) option" where
  "decode_offer L j fresh =
     do { xfer_id \<leftarrow> value_str L j ''transfer_id'' fresh;
          filename \<leftarrow> value_str L j ''filename'' ''unknown'';
          sz \<leftarrow> value_u64 L j ''size'' 0;
          checksum \<leftarrow> value_str L j ''checksum'' [];
          sender \<leftarrow> value_str L j ''sender_id'' [];
          Some (xfer_id, filename, sz, checksum, sender) }"

text \<open>The branch of \<open>handle_file_offer\<close> that stores a new record and accepts.\<close>

definition accept_offer ::
  "'x env_scheme \<Rightarrow> string \<Rightarrow> string \<Rightarrow> u64 \<Rightarrow> string \<Rightarrow> string \<Rightarrow> nat \<Rightarrow> world \<Rightarrow> world" where
  "accept_offer E xfer_id filename sz checksum sender_id conn w =
     (let dest = path_append (c_received_dir (cfg w)) filename;
          (created, w) = now_unix E w;
          (updated, w) = now_unix E w;
          rec = \<lparr>t_id = xfer_id, t_peer_id = sender_id, t_filename = filename, t_filepath = dest,
                 t_total_bytes = sz, t_transferred_bytes = 0, t_state = Pending,
                 t_checksum = checksum, t_created_at = created, t_updated_at = updated,
                 t_outbound = False\<rparr>;
          (_, w) = upsert_transfer E rec w
      in snd (send_packet_conn E conn FileAccept (to_cbor E (accept_json xfer_id)) w))"

definition handle_file_offer :: "'x env_scheme \<Rightarrow> bytes \<Rightarrow> nat \<Rightarrow> world \<Rightarrow> world" where
  "handle_file_offer E payload conn w =
     (case from_cbor E payload of
        None \<Rightarrow> LOG_WARN E ''handle_file_offer: malformed payload'' w
      | Some j \<Rightarrow>
          let (fresh, w) = generate_uuid E w in
          case decode_offer E j fresh of
            None \<Rightarrow> LOG_WARN E ''handle_file_offer: malformed payload'' w
          | Some (xfer_id, filename, sz, checksum, sender_id) \<Rightarrow>
              let filename = sanitize_filename filename;
                  (existing, w) = get_transfer E xfer_id w
              in case existing of
                   Some rec \<Rightarrow>
                     if t_state rec = Paused then
                       snd (send_packet_conn E conn FileResume
                              (to_cbor E (resume_json (t_transferred_bytes rec))) w)
                     else accept_offer E xfer_id filename sz checksum sender_id conn w
                 | None \<Rightarrow> accept_offer E xfer_id filename sz checksum sender_id conn w)"

definition decode_chunk :: "'x lib_scheme \<Rightarrow> bytes \<Rightarrow> (string \<times> u64 \<times> string \<times> string) option" where
  "decode_chunk L payload =
     do { j \<leftarrow> from_cbor L payload;
          xfer_id \<leftarrow> value_str L j ''transfer_id'' [];
          offset \<leftarrow> value_u64 L j ''offset'' 0;
          b64data \<leftarrow> value_str L j ''data'' [];
          checksum \<leftarrow> value_str L j ''checksum'' [];
          Some (xfer_id, offset, b64data, checksum) }"

text \<open>The file write of a chunk: offset 0 truncates, every other offset opens in append mode. A
  position that does not fit a signed 64-bit offset puts the stream in a failed state, and
  nothing is written.\<close>

definition write_chunk :: "'x env_scheme \<Rightarrow> string \<Rightarrow> u64 \<Rightarrow> bytes \<Rightarrow> world \<Rightarrow> bool \<times> world" where
  "write_chunk E path offset d w =
     (let mode = (if offset = 0 then Trunc else App);
          (ok, w) = ofstream_open E path mode w
      in if \<not> ok then (False, w)
         else if sint offset < 0 then (True, w)
         else let (_, w) = ofstream_write E path mode (unat offset) d w in (True, w))"

definition handle_file_chunk :: "'x env_scheme \<Rightarrow> bytes \<Rightarrow> nat \<Rightarrow> world \<Rightarrow> world" where
  "handle_file_chunk E payload conn w =
     (case decode_chunk E payload of
        None \<Rightarrow> LOG_WARN E ''handle_file_chunk: exception'' w
      | Some (xfer_id, offset, b64data, checksum) \<Rightarrow>
          let chunk_data = base64_decode E b64data in
          if sha256_bytes E chunk_data \<noteq> checksum then
            LOG_WARN E (''chunk checksum mismatch for transfer '' @ xfer_id) w
          else
            let (rec, w) = get_transfer E xfer_id w in
            case rec of
              None \<Rightarrow> w
            | Some r \<Rightarrow>
                let (ok, w) = write_chunk E (t_filepath r) offset chunk_data w in
                if \<not> ok then LOG_ERROR E (''cannot open receive file: '' @ t_filepath r) w
                else
                  let new_transferred = offset + word_of_nat (length chunk_data);
                      (_, w) = update_transfer_progress E xfer_id new_transferred InProgress w
                  in snd (send_packet_conn E conn FileChunkAck
                            (to_cbor E (ack_json xfer_id new_transferred)) w))"

definition decode_complete :: "'x lib_scheme \<Rightarrow> bytes \<Rightarrow> (string \<times> string) option" where
  "decode_complete L payload =
     do { j \<leftarrow> from_cbor L payload;
          xfer_id \<leftarrow> value_str L j ''transfer_id'' [];
          checksum \<leftarrow> value_str L j ''checksum'' [];
          Some (xfer_id, checksum) }"

definition handle_file_complete :: "'x env_scheme \<Rightarrow> bytes \<Rightarrow> nat \<Rightarrow> world \<Rightarrow> world" where
  "handle_file_complete E payload conn w =
     (case decode_complete E payload of
        None \<Rightarrow> LOG_WARN E ''handle_file_complete: exception'' w
      | Some (xfer_id, checksum) \<Rightarrow>
          let (rec, w) = get_transfer E xfer_id w in
          case rec of
            None \<Rightarrow> w
          | Some r \<Rightarrow>
              let (actual, w) = sha256_file E (t_filepath r) w in
              if actual \<noteq> checksum then
                let w = LOG_ERROR E (''File integrity check failed for '' @ t_filename r) w
                in snd (update_transfer_progress E xfer_id (t_transferred_bytes r) Failed w)
              else
                let (_, w) = update_transfer_progress E xfer_id (t_total_bytes r) Completed w
                in LOG_INFO E (''File received: '' @ t_filename r @ '' -> '' @ t_filepath r) w)"

definition handle_file_accept :: "'x env_scheme \<Rightarrow> bytes \<Rightarrow> nat \<Rightarrow> world \<Rightarrow> world" where
  "handle_file_accept E payload conn w = w"

definition handle_file_resume :: "'x env_scheme \<Rightarrow> bytes \<Rightarrow> nat \<Rightarrow> world \<Rightarrow> world" where
  "handle_file_resume E payload conn w = w"

section \<open>Transfer list\<close>

fun pending_lines :: "nat \<Rightarrow> TransferRecord list \<Rightarrow> string" where
  "pending_lines i [] = []"
| "pending_lines i (t # ts) =
     ''['' @ show_nat (i + 1) @ ''] '' @ t_filename t @ '' from '' @ t_peer_id t @ [CHR 0x0A]
     @ ''    Size: '' @ format_bytes (t_total_bytes t) @ ''  Received: ''
     @ format_bytes (t_transferred_bytes t) @ ''  ID: '' @ t_id t @ [CHR 0x0A] @ pending_lines (i + 1) ts"

definition receive_pending :: "'x env_scheme \<Rightarrow> bool \<Rightarrow> world \<Rightarrow> bool \<times> world" where
  "receive_pending E interactive w =
     (let (pending, w) = pending_inbound E w in
      if pending = [] then (True, print (''No pending transfers.'' @ [CHR 0x0A]) w)
      else
        let w = print (''Pending inbound transfers:'' @ [CHR 0x0A]) w;
            w = print (replicate 70 CHR ''-'' @ [CHR 0x0A]) w;
            w = print (pending_lines 0 pending) w;
            w = print (replicate 70 CHR ''-'' @ [CHR 0x0A]) w
        in if \<not> interactive then (True, w)
           else
             let w = print ''Enter transfer number to download (or 0 to skip): '' w;
                 choice = os_stdin_int E
             in if choice < 1 \<or> int (length pending) < choice then (True, w)
                else (True, print (''Downloading '' @ t_filename (pending ! nat (choice - 1)) @ ''...''
                        @ [CHR 0x0A]) w))"

definition list_active :: "'x env_scheme \<Rightarrow> world \<Rightarrow> TransferRecord list \<times> world" where
  "list_active E w = active_transfers E w"

definition list_pending_inbound :: "'x env_scheme \<Rightarrow> world \<Rightarrow> TransferRecord list \<times> world" where
  "list_pending_inbound E w = pending_inbound E w"

definition cancel_transfer :: "'x env_scheme \<Rightarrow> string \<Rightarrow> world \<Rightarrow> bool \<times> world" where
  "cancel_transfer E i w =
     (let (rec, w) = get_transfer E i w in
      case rec of
        None \<Rightarrow> (False, w)
      | Some r \<Rightarrow> update_transfer_progress E i (t_transferred_bytes r) Cancelled w)"

section \<open>The sending loop\<close>

text \<open>What every round keeps, the loop keeps.\<close>

lemma send_chunks_invariant:
  assumes step: "\<And>b x off w. P w \<Longrightarrow> P (snd (snd (send_one_chunk E s i sz b x off w)))"
  shows "P w \<Longrightarrow> P (snd (snd (send_chunks E s i sz data pos good x off w)))"
  using step
proof (induction E s i sz data pos good x off w rule: send_chunks.induct)
  case (1 E s i sz data pos good x off w)
  let ?c = "take SHR_CHUNK_SIZE (drop pos data)"
  obtain res off' w1 where s1: "send_one_chunk E s i sz ?c x off w = (res, off', w1)" by (metis prod_cases3)
  then have w1: "P w1" using "1.prems"(2) [OF "1.prems"(1), of ?c x off] by simp
  show ?case
  proof (cases "good \<and> ?c \<noteq> [] \<and> res = Acked")
    case True
    then show ?thesis using "1.IH" [OF refl _ s1 [symmetric] _ refl w1 "1.prems"(2)] s1
      by (subst send_chunks.simps) (simp add: Let_def)
  next
    case False
    then show ?thesis using w1 s1 "1.prems"(1)
      by (auto simp: send_chunks.simps [of E s i sz data pos good x off w] Let_def split: chunk_result.split)
  qed
qed

end
