(* ===== verification/Shr_App.thy ===== *)
theory Shr_App
  imports Shr_Transfer
begin

text \<open>
  \<open>src/main.cxx\<close>: start-up, one definition per command, the handler table and the command
  dispatch. A command returns its exit code; \<open>None\<close> stands for an abnormal end: undefined
  behaviour (the overflow of the page offset) or an exception nobody catches (a configuration
  that cannot be dumped as JSON, key files whose permissions cannot be set). The table of packet handlers belongs to the \<open>Network\<close>
  object; \<open>main\<close> passes it along explicitly.
\<close>

abbreviation nl :: string where "nl \<equiv> [CHR 0x0A]"

definition pad_right :: "nat \<Rightarrow> string \<Rightarrow> string" where
  "pad_right n s = s @ replicate (n - length s) CHR '' ''"

definition usage :: "world \<Rightarrow> world" where
  "usage w = print
     (''shr v'' @ SHR_VERSION @ '' - Decentralized file transfer & messaging'' @ nl @ nl
      @ ''Usage: shr <command> [args]'' @ nl @ nl
      @ ''Identity:'' @ nl
      @ ''  install                        Generate identity and configuration'' @ nl
      @ ''  whoami                         Print your user ID'' @ nl @ nl
      @ ''File Transfer:'' @ nl
      @ ''  send <file> <recipient_id>     Send a file to a peer'' @ nl
      @ ''  receive                        List and download pending transfers'' @ nl @ nl
      @ ''Messaging:'' @ nl
      @ ''  msg <recipient_id> <message>   Send a text message'' @ nl
      @ ''  inbox [page]                   Show received messages'' @ nl @ nl
      @ ''Network:'' @ nl
      @ ''  peers                          List known peers'' @ nl
      @ ''  discover                       Broadcast discovery on local network'' @ nl
      @ ''  connect <peer_id> <ip> [port]  Manually add a peer'' @ nl @ nl
      @ ''Utility:'' @ nl
      @ ''  status                         Show connection and transfer status'' @ nl
      @ ''  config                         Show current configuration'' @ nl
      @ ''  clean                          Remove stale transfers and cache'' @ nl @ nl) w"

section \<open>Start-up\<close>

definition log_level_of :: "string \<Rightarrow> LogLevel" where
  "log_level_of s =
     (if s = ''debug'' then LDebug else if s = ''warn'' then LWarn
      else if s = ''error'' then LError else LInfo)"

definition init_app :: "'x env_scheme \<Rightarrow> bool \<Rightarrow> world \<Rightarrow> bool option \<times> world" where
  "init_app E require_install w =
     (let (ok, w) = config_load E w in
      if \<not> ok then (Some False, eprint (''error: failed to load config'' @ nl) w)
      else
        let w = logger_init E (c_log_path (cfg w)) (log_level_of (c_log_level (cfg w))) w in
        if require_install \<and> \<not> config_is_installed w then
          (Some False, eprint (''error: not installed. Run: shr install'' @ nl) w)
        else if config_is_installed w then
          let (_, w) = identity_load w;
              (ok, w) = database_open E (c_db_path (cfg w)) w
          in if \<not> ok then (Some False, eprint (''error: failed to open database'' @ nl) w)
             else
               (case crypto_init E (c_config_dir (cfg w)) w of
                  (None, w) \<Rightarrow> (None, w)
                | (Some False, w) \<Rightarrow> (Some False, eprint (''error: failed to initialize crypto'' @ nl) w)
                | (Some True, w) \<Rightarrow> (Some True, w))
        else (Some True, w))"

text \<open>\<open>if (!init_app()) return 1;\<close> in front of the body of a command.\<close>

definition with_app ::
  "'x env_scheme \<Rightarrow> (world \<Rightarrow> int option \<times> world) \<Rightarrow> world \<Rightarrow> int option \<times> world" where
  "with_app E body w =
     (case init_app E True w of
        (None, w) \<Rightarrow> (None, w)
      | (Some False, w) \<Rightarrow> (Some 1, w)
      | (Some True, w) \<Rightarrow> body w)"

section \<open>Commands\<close>

definition cmd_install :: "'x env_scheme \<Rightarrow> world \<Rightarrow> int option \<times> world" where
  "cmd_install E w =
     (let (ok, w) = config_load E w in
      if \<not> ok then (Some 1, eprint (''error: failed to load config'' @ nl) w)
      else
        let w = logger_init E [] LWarn w in
        if config_is_installed w then
          (Some 0, print (''Already installed. Your ID: '' @ c_user_id (cfg w) @ nl) w)
        else
          (case identity_install E w of
             (None, w) \<Rightarrow> (None, w)
           | (Some False, w) \<Rightarrow> (Some 1, eprint (''error: installation failed'' @ nl) w)
           | (Some True, w) \<Rightarrow>
               let (ok, w) = database_open E (c_db_path (cfg w)) w in
               if \<not> ok then (Some 1, eprint (''error: failed to initialize database'' @ nl) w)
               else
                 (Some 0, print (''Installation complete. Your ID: '' @ ident w @ nl
                    @ ''Config directory: '' @ c_config_dir (cfg w) @ nl
                    @ ''Received files:   '' @ c_received_dir (cfg w) @ nl) w)))"

definition cmd_whoami :: "'x env_scheme \<Rightarrow> world \<Rightarrow> int option \<times> world" where
  "cmd_whoami E = with_app E (\<lambda>w. (Some 0, print (ident w @ nl) w))"

definition cmd_send :: "'x env_scheme \<Rightarrow> string \<Rightarrow> string \<Rightarrow> world \<Rightarrow> int option \<times> world" where
  "cmd_send E filepath recipient_id = with_app E (\<lambda>w.
     if \<not> is_valid_uuid recipient_id then
       (Some 1, eprint (''error: invalid recipient ID format'' @ nl) w)
     else if \<not> file_exists filepath w then
       (Some 1, eprint (''error: file not found: '' @ filepath @ nl) w)
     else
       let w = print (''Sending '' @ path_filename filepath @ '' to '' @ recipient_id @ ''...'' @ nl) w;
           (xfer_id, w) = send_file E filepath recipient_id w
       in (if xfer_id = [] then Some 1 else Some 0, w))"

definition cmd_receive :: "'x env_scheme \<Rightarrow> bool \<Rightarrow> world \<Rightarrow> int option \<times> world" where
  "cmd_receive E interactive =
     with_app E (\<lambda>w. let (_, w) = receive_pending E interactive w in (Some 0, w))"

definition cmd_msg :: "'x env_scheme \<Rightarrow> string \<Rightarrow> string \<Rightarrow> world \<Rightarrow> int option \<times> world" where
  "cmd_msg E recipient_id message = with_app E (\<lambda>w.
     if \<not> is_valid_uuid recipient_id then
       (Some 1, eprint (''error: invalid recipient ID format'' @ nl) w)
     else let (ok, w) = send_msg E recipient_id message w in (if ok then Some 0 else Some 1, w))"

fun inbox_loop :: "'x env_scheme \<Rightarrow> Message list \<Rightarrow> world \<Rightarrow> world" where
  "inbox_loop E [] w = w"
| "inbox_loop E (m # ms) w =
     (let marker = (if m_read m then ''  '' else ''* '');
          w = print (marker @ ''['' @ timestamp_to_str E (m_timestamp m) @ ''] '' @ ''From: '' @ m_sender_id m @ nl
                @ ''  '' @ m_content m @ nl @ replicate 72 CHR ''-'' @ nl) w;
          w = (if \<not> m_read m then snd (mark_message_read E (m_id m) w) else w)
      in inbox_loop E ms w)"

definition cmd_inbox :: "'x env_scheme \<Rightarrow> int \<Rightarrow> world \<Rightarrow> int option \<times> world" where
  "cmd_inbox E page = with_app E (\<lambda>w.
     let page_size = 20;
         (msgs, w) = messaging_get_inbox E page page_size w
     in case msgs of
          None \<Rightarrow> (None, w)
        | Some msgs \<Rightarrow>
            if msgs = [] then (Some 0, print (''Inbox is empty.'' @ nl) w)
            else
              let (unread, w) = messaging_unread_count E w;
                  w = print (''Inbox (page '' @ show_int page @ '')  -  '' @ show_int unread @ '' unread'' @ nl) w;
                  w = print (replicate 72 CHR ''='' @ nl) w;
                  w = inbox_loop E msgs w;
                  w = (if int (length msgs) = page_size
                       then print (''-- More messages: shr inbox '' @ show_int (page + 1) @ '' --'' @ nl) w
                       else w)
              in (Some 0, w))"

definition peer_line :: "'x env_scheme \<Rightarrow> PeerInfo \<Rightarrow> string" where
  "peer_line E p =
     (let addr = p_ip p @ '':'' @ show_nat (unat (p_port p));
          status = (if p_online p then ''online'' else ''offline'');
          last_text = (if 0 < p_last_seen p then timestamp_to_str E (p_last_seen p) else ''never'')
      in pad_right 38 (p_id p) @ pad_right 18 addr @ pad_right 8 status @ last_text @ nl)"

definition cmd_peers :: "'x env_scheme \<Rightarrow> world \<Rightarrow> int option \<times> world" where
  "cmd_peers E = with_app E (\<lambda>w.
     let (peers, w) = list_peers E w in
     if peers = [] then (Some 0, print (''No known peers. Run: shr discover'' @ nl) w)
     else
       let w = print (pad_right 38 ''ID'' @ pad_right 18 ''IP:Port'' @ pad_right 8 ''Status'' @ ''Last Seen'' @ nl) w;
           w = print (replicate 80 CHR ''-'' @ nl) w;
           w = print (concat (map (peer_line E) peers)) w
       in (Some 0, w))"

definition cmd_discover :: "'x env_scheme \<Rightarrow> world \<Rightarrow> int option \<times> world" where
  "cmd_discover E = with_app E (\<lambda>w. (Some 0, discover E w))"

definition cmd_connect :: "'x env_scheme \<Rightarrow> string \<Rightarrow> string \<Rightarrow> u16 \<Rightarrow> world \<Rightarrow> int option \<times> world" where
  "cmd_connect E peer_id ip port = with_app E (\<lambda>w.
     if \<not> is_valid_uuid peer_id then (Some 1, eprint (''error: invalid peer ID format'' @ nl) w)
     else
       let (ok, w) = add_peer E peer_id ip port w in
       if \<not> ok then (Some 1, eprint (''error: failed to store peer'' @ nl) w)
       else
         let w = print (''Peer added: '' @ peer_id @ '' at '' @ ip @ '':'' @ show_nat (unat port) @ nl) w;
             (alive, w) = ping_peer E peer_id w
         in (Some 0, print (''Ping: '' @ (if alive then ''reachable'' else ''unreachable'') @ nl) w))"

text \<open>The manipulator \<open>std::left\<close> of the first row stays in force, so the percentage is
  right-adjusted in the first row and left-adjusted in the others.\<close>

definition status_line :: "bool \<Rightarrow> TransferRecord \<Rightarrow> string" where
  "status_line first t =
     (let pct = show_int (percent (t_transferred_bytes t) (t_total_bytes t))
      in (if t_outbound t then ''OUT'' else '' IN'') @ '' ''
         @ (if first then pad_left 3 pct else pad_right 3 pct) @ ''% ''
         @ pad_right 30 (t_filename t) @ '' ['' @ transfer_state_str (t_state t) @ '']'' @ nl)"

definition status_lines :: "TransferRecord list \<Rightarrow> string" where
  "status_lines ts =
     (case ts of [] \<Rightarrow> [] | t # r \<Rightarrow> status_line True t @ concat (map (status_line False) r))"

definition cmd_status :: "'x env_scheme \<Rightarrow> world \<Rightarrow> int option \<times> world" where
  "cmd_status E = with_app E (\<lambda>w.
     let w = print (''shr v'' @ SHR_VERSION @ nl @ replicate 50 CHR ''-'' @ nl
               @ ''User ID:     '' @ ident w @ nl
               @ ''Listen port: '' @ show_nat (unat (c_listen_port (cfg w))) @ nl
               @ ''Local IP:    '' @ get_local_ip E @ nl @ nl) w;
         (active, w) = list_active E w;
         w = print (''Active/Pending Transfers: '' @ show_nat (length active) @ nl) w;
         w = (if active \<noteq> [] then print (replicate 50 CHR ''-'' @ nl @ status_lines active) w else w);
         w = print nl w;
         (unread, w) = messaging_unread_count E w;
         w = print (''Unread messages: '' @ show_int unread @ nl) w;
         (storage, w) = storage_used_bytes E w;
         w = print (''Storage used:    '' @ format_bytes storage @ nl) w;
         (peers, w) = list_peers E w;
         online = length (filter p_online peers);
         w = print (''Peers online:    '' @ show_nat online @ ''/'' @ show_nat (length peers) @ nl) w
     in (Some 0, w))"

definition cmd_config :: "'x env_scheme \<Rightarrow> world \<Rightarrow> int option \<times> world" where
  "cmd_config E w =
     (let (ok, w) = init_app E False w;
          w = (if ok = Some False then snd (config_load E w) else w);
          c = cfg w
      in if ok = None then (None, w) else (Some 0, print
           (''shr configuration'' @ nl @ replicate 50 CHR ''-'' @ nl
            @ ''user_id:        '' @ (if c_user_id c = [] then ''(not installed)'' else c_user_id c) @ nl
            @ ''config_dir:     '' @ c_config_dir c @ nl
            @ ''db_path:        '' @ c_db_path c @ nl
            @ ''log_path:       '' @ c_log_path c @ nl
            @ ''received_dir:   '' @ c_received_dir c @ nl
            @ ''listen_port:    '' @ show_nat (unat (c_listen_port c)) @ nl
            @ ''max_concurrent: '' @ show_int (c_max_concurrent c) @ nl
            @ ''retry_limit:    '' @ show_int (c_retry_limit c) @ nl
            @ ''retry_delay_ms: '' @ show_int (c_retry_delay_ms c) @ nl
            @ ''log_level:      '' @ c_log_level c @ nl
            @ ''verbose:        '' @ (if c_verbose c then ''true'' else ''false'') @ nl
            @ nl @ ''Environment overrides: SHR_PORT, SHR_VERBOSE, SHR_LOG_LEVEL'' @ nl) w))"

text \<open>\<open>std::filesystem::remove_all\<close>: everything below the directory goes; when the system
  reports an error, an arbitrary part of it may be gone.\<close>

definition below :: "string \<Rightarrow> string \<Rightarrow> bool" where
  "below d p \<longleftrightarrow> p = d \<or> take (length d + 1) p = d @ ''/''"

definition remove_all :: "'x env_scheme \<Rightarrow> string \<Rightarrow> world \<Rightarrow> bool \<times> world" where
  "remove_all E d w =
     (let ok = os_remove_all E (tick w) d; w = step_tick w; t = tick w; w = step_tick w;
          gone = (\<lambda>p. below d p \<and> (ok \<or> os_remove_all E t p))
      in (ok, w\<lparr>files := (\<lambda>p. if gone p then None else files w p), dirs := {p \<in> dirs w. \<not> gone p}\<rparr>))"

definition cmd_clean :: "'x env_scheme \<Rightarrow> world \<Rightarrow> int option \<times> world" where
  "cmd_clean E = with_app E (\<lambda>w.
     let (ok, w) = delete_stale_transfers E 7 w;
         w = (if ok then print (''Removed completed/failed transfers older than 7 days.'' @ nl) w else w);
         tmp_dir = path_append (c_config_dir (cfg w)) ''tmp'';
         w = (if file_exists tmp_dir w then
                let (ok, w) = remove_all E tmp_dir w
                in if ok then print (''Cleared temporary files.'' @ nl) w else w
              else w)
     in (Some 0, print (''Clean complete.'' @ nl) w))"

section \<open>Handlers and dispatch\<close>

definition msg_ack_json :: json where
  "msg_ack_json = JObj [(''ok'', JBool True)]"

definition on_msg_send :: "'x env_scheme \<Rightarrow> RawPacket \<Rightarrow> nat \<Rightarrow> world \<Rightarrow> world" where
  "on_msg_send E pkt conn w =
     (let w = handle_msg_receive E (k_payload pkt) w
      in snd (send_packet_conn E conn MsgAck (to_cbor E msg_ack_json) w))"

definition setup_network_handlers :: "'x env_scheme \<Rightarrow> handlers \<Rightarrow> handlers" where
  "setup_network_handlers E hs =
     (let hs = register_handler FileOffer (\<lambda>pkt conn. handle_file_offer E (k_payload pkt) conn) hs;
          hs = register_handler FileChunk (\<lambda>pkt conn. handle_file_chunk E (k_payload pkt) conn) hs;
          hs = register_handler FileComplete (\<lambda>pkt conn. handle_file_complete E (k_payload pkt) conn) hs;
          hs = register_handler FileAccept (\<lambda>pkt conn. handle_file_accept E (k_payload pkt) conn) hs;
          hs = register_handler FileResume (\<lambda>pkt conn. handle_file_resume E (k_payload pkt) conn) hs;
          hs = register_handler MsgSend (on_msg_send E) hs;
          hs = register_handler PeerDiscover (\<lambda>pkt conn. handle_discover E (k_payload pkt) conn) hs;
          hs = register_handler PeerAnnounce (\<lambda>pkt conn. handle_announce E (k_payload pkt) conn) hs;
          hs = register_handler Ping (\<lambda>pkt conn. handle_ping E (k_payload pkt) conn) hs
      in register_handler Pong (\<lambda>pkt conn. handle_pong E (k_payload pkt) conn) hs)"

abbreviation app_handlers :: "'x env_scheme \<Rightarrow> handlers" where
  "app_handlers E \<equiv> setup_network_handlers E Map.empty"

text \<open>\<open>args\<close> are \<open>argv[1]\<close> to \<open>argv[argc - 1]\<close>.\<close>

definition main :: "'x env_scheme \<Rightarrow> string list \<Rightarrow> handlers \<Rightarrow> world \<Rightarrow> int option \<times> handlers \<times> world" where
  "main E args hs w =
     (case args of
        [] \<Rightarrow> (Some 0, hs, usage w)
      | cmd # rest \<Rightarrow>
          if cmd = ''install'' then (let (r, w) = cmd_install E w in (r, hs, w))
          else if cmd = ''--help'' \<or> cmd = ''-h'' \<or> cmd = ''help'' then (Some 0, hs, usage w)
          else if cmd = ''--version'' \<or> cmd = ''-v'' then (Some 0, hs, print (''shr '' @ SHR_VERSION @ nl) w)
          else if cmd = ''whoami'' then (let (r, w) = cmd_whoami E w in (r, hs, w))
          else if cmd = ''config'' then (let (r, w) = cmd_config E w in (r, hs, w))
          else if cmd = ''send'' then
            (case rest of
               filepath # recipient_id # _ \<Rightarrow>
                 let hs = setup_network_handlers E hs; (r, w) = cmd_send E filepath recipient_id w in (r, hs, w)
             | _ \<Rightarrow> (Some 1, hs, eprint (''usage: shr send <file_path> <recipient_id>'' @ nl) w))
          else if cmd = ''receive'' then
            (let hs = setup_network_handlers E hs; (r, w) = cmd_receive E True w in (r, hs, w))
          else if cmd = ''msg'' then
            (case rest of
               recipient_id # word # words \<Rightarrow>
                 let hs = setup_network_handlers E hs;
                     (r, w) = cmd_msg E recipient_id (join (word # words) '' '') w
                 in (r, hs, w)
             | _ \<Rightarrow> (Some 1, hs, eprint (''usage: shr msg <recipient_id> <message>'' @ nl) w))
          else if cmd = ''inbox'' then
            (let page = (case rest of p # _ \<Rightarrow> atoi p | [] \<Rightarrow> 1);
                 page = (if page < 1 then 1 else page);
                 (r, w) = cmd_inbox E page w
             in (r, hs, w))
          else if cmd = ''peers'' then (let (r, w) = cmd_peers E w in (r, hs, w))
          else if cmd = ''discover'' then
            (let hs = setup_network_handlers E hs; (r, w) = cmd_discover E w in (r, hs, w))
          else if cmd = ''connect'' then
            (case rest of
               peer_id # ip # opt \<Rightarrow>
                 let port = (case opt of p # _ \<Rightarrow> word_of_int (atoi p) | [] \<Rightarrow> SHR_DEFAULT_PORT);
                     (r, w) = cmd_connect E peer_id ip port w
                 in (r, hs, w)
             | _ \<Rightarrow> (Some 1, hs, eprint (''usage: shr connect <peer_id> <ip> [port]'' @ nl) w))
          else if cmd = ''status'' then (let (r, w) = cmd_status E w in (r, hs, w))
          else if cmd = ''clean'' then (let (r, w) = cmd_clean E w in (r, hs, w))
          else (Some 1, hs,
             eprint (''error: unknown command '' @ [CHR 0x27] @ cmd @ [CHR 0x27] @ nl
               @ ''Run '' @ [CHR 0x27] @ ''shr help'' @ [CHR 0x27] @ '' for usage.'' @ nl) w))"

end
