(* ===== verification/Shr_Samples.thy ===== *)
theory Shr_Samples
  imports Shr_Transfer
begin

text \<open>
  A sample identifier, a sample peer and two sample nodes, a sender that holds one file and a
  receiver with one open connection, on which theorems are instantiated.
\<close>

definition sample_id :: string where
  "sample_id = ''00000000-0000-4000-8000-000000000001''"

lemma sample_id_valid [simp]: "is_valid_uuid sample_id"
  by (simp add: sample_id_def is_valid_uuid_def hex_value_def Let_def numeral_eq_Suc)

definition sample_peer :: PeerInfo where
  "sample_peer = \<lparr>p_id = sample_id, p_ip = ''10.0.0.7'', p_port = 60000, p_online = True, p_last_seen = 0, p_alias = []\<rparr>"

definition sample_sender :: world where
  "sample_sender = sample_world\<lparr>files := [''/h/a.txt'' \<mapsto> [104, 105]],
     db := sql_upsert_peer sample_peer (db sample_world)\<rparr>"

definition sample_receiver :: world where
  "sample_receiver = sample_world\<lparr>socks := [0 \<mapsto> \<lparr>s_sent = [], s_consumed = 0\<rparr>]\<rparr>"

end
