(* ===== verification/Shr_Node.thy ===== *)
theory Shr_Node
  imports Shr_App Shr_Samples
begin

text \<open>
  A running node as a transition system. Its tables change by the statements of \<open>db_step\<close>
  only (the relation \<open>evolves\<close>), the handlers write to no connection but their own
  (\<open>conn_only\<close>), and files change at paths of stored transfers only. The step relation
  \<open>node_step\<close> has one rule per operation; the invariants follow by rule induction. The
  handler table of \<open>main.cxx\<close> satisfies the contract of the dispatch loop.
\<close>

section \<open>Database statements of a running node\<close>

text \<open>The statements a node may run on its tables, for a received directory \<open>d\<close>: transfers
  enter as pending, inbound ones with a path made from \<open>d\<close> and a sanitised name, and no
  statement sets the state \<open>Paused\<close>.\<close>

inductive db_step :: "string \<Rightarrow> tables \<Rightarrow> tables \<Rightarrow> bool" for d where
  put_peer: "db_step d T (sql_upsert_peer p T)"
| drop_peer: "db_step d T (sql_delete_peer i T)"
| put_message: "db_step d T (sql_insert_message m T)"
| read_message: "db_step d T (sql_mark_read i T)"
| offer_in: "t_state t = Pending \<Longrightarrow> \<not> t_outbound t \<Longrightarrow> t_filepath t = path_append d (sanitize_filename n)
    \<Longrightarrow> db_step d T (sql_upsert_transfer t T)"
| offer_out: "t_state t = Pending \<Longrightarrow> t_outbound t \<Longrightarrow> db_step d T (sql_upsert_transfer t T)"
| advance: "s \<noteq> Paused \<Longrightarrow> db_step d T (sql_update_transfer i n s now T)"
| drop_stale: "db_step d T (sql_delete_stale cutoff T)"

inductive_simps db_step_simps: "db_step d T T'"

abbreviation db_steps :: "string \<Rightarrow> tables \<Rightarrow> tables \<Rightarrow> bool" where
  "db_steps d \<equiv> (db_step d)\<^sup>*\<^sup>*"

text \<open>What every operation of a node keeps, and how it changes the tables.\<close>

definition evolves :: "world \<Rightarrow> world \<Rightarrow> bool" where
  "evolves w w' \<longleftrightarrow> cfg w' = cfg w \<and> ident w' = ident w \<and> net_running w' = net_running w
     \<and> listen_sock w' = listen_sock w \<and> dirs w' = dirs w \<and> db_steps (c_received_dir (cfg w)) (db w) (db w')"

lemma evolves_refl [simp, intro]: "evolves w w"
  by (simp add: evolves_def)

lemma evolves_trans: "evolves w w' \<Longrightarrow> evolves w' w'' \<Longrightarrow> evolves w w''"
  by (auto simp: evolves_def)

lemma evolves_quiet: "evolves w w' \<Longrightarrow> quiet w' w'' \<Longrightarrow> evolves w w''"
  by (simp add: evolves_def quiet_def)

lemma evolves_run_sql:
  assumes "evolves w w'" and "\<And>T. db_step (c_received_dir (cfg w)) T (f T)"
  shows "evolves w (snd (run_sql E f w'))"
proof -
  have "db_steps (c_received_dir (cfg w)) (db w) (db (snd (run_sql E f w')))"
    using assms by (rule_tac run_sql_cases [of E f w']) (auto simp: evolves_def intro: rtranclp.rtrancl_into_rtrancl)
  with assms(1) show ?thesis by (simp add: evolves_def)
qed

lemma evolves_basic [simp]:
  "evolves w (step_tick w') \<longleftrightarrow> evolves w w'" "evolves w (print t w') \<longleftrightarrow> evolves w w'"
  "evolves w (eprint t w') \<longleftrightarrow> evolves w w'" "evolves w (close_conn c w') \<longleftrightarrow> evolves w w'"
  "evolves w (log E l m w') \<longleftrightarrow> evolves w w'" "evolves w (w'\<lparr>active_count := n\<rparr>) \<longleftrightarrow> evolves w w'"
  "evolves w (w'\<lparr>udp_out := u\<rparr>) \<longleftrightarrow> evolves w w'" "evolves w (w'\<lparr>files := fs\<rparr>) \<longleftrightarrow> evolves w w'"
  by (simp_all add: evolves_def)

lemma evolves_sql_methods:
  assumes "evolves w w'"
  shows "evolves w (snd (upsert_peer E p w'))" "evolves w (snd (delete_peer E i w'))"
    "evolves w (snd (insert_message E m w'))" "evolves w (snd (mark_message_read E i w'))"
    "s \<noteq> Paused \<Longrightarrow> evolves w (snd (update_transfer_progress E i n s w'))"
    "evolves w (snd (delete_stale_transfers E days w'))"
  using assms
  by (auto simp: upsert_methods update_transfer_progress_def delete_stale_transfers_def now_unix_def Let_def
      intro!: evolves_run_sql db_step.intros)

lemma evolves_upsert_transfer:
  assumes "evolves w w'" and "t_state t = Pending"
    and "t_outbound t \<or> (\<exists>n. t_filepath t = path_append (c_received_dir (cfg w)) (sanitize_filename n))"
  shows "evolves w (snd (upsert_transfer E t w'))"
  using assms by (auto simp: upsert_transfer_def intro!: evolves_run_sql intro: db_step.intros)

lemma evolves_silent:
  assumes "evolves w w'"
  shows "evolves w (snd (send_packet_conn E s t p w'))" "evolves w (snd (read_packet E s out w'))"
    "evolves w (snd (connect_to E ip port w'))" "evolves w (snd (send_packet E ip port t p w'))"
    "evolves w (snd (get_peer E i w'))" "evolves w (snd (get_transfer E i w'))" "evolves w (snd (find_peer E i w'))"
    "evolves w (snd (now_unix E w'))" "evolves w (snd (generate_uuid E w'))" "evolves w (snd (sha256_file E path w'))"
    "evolves w (snd (ifstream_open E path w'))"
    "evolves w (snd (retry_send m (send_packet_conn E s t p) w'))" "evolves w (snd (retry_send m (send_packet E ip port t p) w'))"
  using evolves_quiet [OF assms] quiet_retry_send [of "send_packet_conn E s t p"] quiet_retry_send [of "send_packet E ip port t p"]
  by simp_all

lemmas evolves_intros = evolves_sql_methods evolves_silent

section \<open>Every operation evolves\<close>

lemma evolves_add_remove:
  "evolves w (snd (add_peer E i ip port w))" "evolves w (snd (remove_peer E i w))"
  by (simp_all add: add_peer_def remove_peer_def evolves_intros)

lemma evolves_ping_peer: "evolves w (snd (ping_peer E i w))"
  by (simp add: ping_peer_def case_prod_beta Let_def evolves_intros split: option.split)

lemma evolves_mark_seen: "evolves w w' \<Longrightarrow> evolves w (mark_seen E i w')"
  by (simp add: mark_seen_def case_prod_beta Let_def evolves_intros split: option.split)

lemma evolves_broadcast: "evolves w w' \<Longrightarrow> evolves w (snd (broadcast_loop E port p ips ok w'))"
  by (induction ips arbitrary: ok w') (simp_all add: Let_def)

lemma evolves_discover: "evolves w (discover E w)"
  by (simp add: discover_def broadcast_udp_def case_prod_beta Let_def evolves_broadcast)

lemma evolves_peer_handlers:
  "evolves w (handle_discover E p s w)" "evolves w (handle_announce E p s w)"
  "evolves w (handle_ping E p s w)" "evolves w (handle_pong E p s w)"
  by (simp_all add: handle_discover_def handle_announce_def handle_ping_def handle_pong_def case_prod_beta
      Let_def evolves_intros evolves_mark_seen split: option.split)

lemma evolves_messaging:
  "evolves w (snd (send_msg E i text w))" "evolves w (handle_msg_receive E p w)" "evolves w (on_msg_send E pkt s w)"
  by (simp_all add: send_msg_def on_msg_send_def handle_msg_receive_def case_prod_beta Let_def evolves_intros
      split: option.split)

lemma evolves_beacon: "evolves w w' \<Longrightarrow> evolves w (beacon_pings E ps w')"
  by (induction ps arbitrary: w') (simp_all add: case_prod_beta Let_def evolves_intros)

lemma evolves_beacon_round: "evolves w (beacon_round E w)"
  by (simp add: beacon_round_def all_peers_def case_prod_beta Let_def evolves_beacon)

lemma evolves_write_chunk: "evolves w w' \<Longrightarrow> evolves w (snd (write_chunk E path off d w'))"
  by (simp add: write_chunk_def ofstream_open_def ofstream_write_def case_prod_beta Let_def)

lemma evolves_transfer_handlers:
  "evolves w (handle_file_offer E p s w)" "evolves w (handle_file_chunk E p s w)"
  "evolves w (handle_file_complete E p s w)" "evolves w (snd (cancel_transfer E i w))"
  by (auto simp: handle_file_offer_def accept_offer_def handle_file_chunk_def handle_file_complete_def
      cancel_transfer_def case_prod_beta Let_def
      intro!: evolves_intros evolves_upsert_transfer evolves_write_chunk split: option.split)

lemma evolves_send_one_chunk:
  "evolves w w' \<Longrightarrow> evolves w (snd (snd (send_one_chunk E s i sz b x off w')))"
  by (simp add: send_one_chunk_def case_prod_beta Let_def evolves_intros split: option.split)

lemma evolves_send_chunks:
  "evolves w w' \<Longrightarrow> evolves w (snd (snd (send_chunks E s i sz data pos good x off w')))"
  by (rule send_chunks_invariant [where P = "evolves w"]) (rule evolves_send_one_chunk)

lemma evolves_send_failed: "evolves w w' \<Longrightarrow> evolves w (snd (send_failed E i n w'))"
  by (simp add: send_failed_def case_prod_beta Let_def evolves_intros)

lemma evolves_send_body: "evolves w w' \<Longrightarrow> evolves w (snd (send_body E s i ap f sz c off w'))"
  by (simp add: send_body_def case_prod_beta Let_def evolves_intros evolves_send_failed evolves_send_chunks
      split: option.split send_outcome.split)

lemma evolves_send_offer: "evolves w w' \<Longrightarrow> evolves w (snd (send_offer E p i ap f sz c w'))"
  by (simp add: send_offer_def case_prod_beta Let_def evolves_intros evolves_send_failed evolves_send_body
      split: option.split)

lemma evolves_send_file: "evolves w (snd (send_file E path i w))"
  by (simp add: send_file_def case_prod_beta Let_def evolves_intros evolves_send_offer evolves_upsert_transfer
      split: option.split)

section \<open>Invariants of the tables\<close>

definition no_paused :: "tables \<Rightarrow> bool" where
  "no_paused T \<longleftrightarrow> (\<forall>r \<in> set (tb_transfers T). tr_state r \<noteq> ''paused'')"

text \<open>The path of an inbound transfer is the received directory with one more component, which has
  neither a separator nor another character that file names may not have. The directory is
  closed by a slash, as \<open>operator/\<close> does. The component is what is left of the sanitised name
  when the statement cuts the path at a NUL byte, so it may also be empty, a dot or two dots.\<close>

definition inbound_inside :: "string \<Rightarrow> tables \<Rightarrow> bool" where
  "inbound_inside d T \<longleftrightarrow> (\<forall>r \<in> set (tb_transfers T). tr_outbound r = 0 \<longrightarrow>
     (\<exists>name. tr_filepath r = c_str (path_append d []) @ name \<and> nul_free name \<and> (\<forall>c \<in> set name. \<not> bad_name_char c)))"

lemma received_path:
  "\<exists>name. c_str (path_append d (sanitize_filename n)) = c_str (path_append d []) @ name
     \<and> nul_free name \<and> (\<forall>c \<in> set name. \<not> bad_name_char c)"
proof -
  let ?x = "sanitize_filename n"
  have no: "\<not> bad_name_char c" if "c \<in> set ?x" for c using that by (rule sanitize_no_bad)
  then have "hd ?x \<noteq> CHR ''/''" using sanitize_not_special [of n] hd_in_set [of ?x] by (force simp: bad_name_char_def)
  then have p: "path_append d ?x = path_append d [] @ ?x" by (auto simp: path_append_def)
  show ?thesis
  proof (cases "nul_free (path_append d [])")
    case True
    then have "c_str (path_append d ?x) = c_str (path_append d []) @ c_str ?x" by (simp add: p c_str_append)
    moreover have "set (c_str ?x) \<subseteq> set ?x" by (auto simp: c_str_def dest: set_takeWhileD)
    ultimately show ?thesis using no by (intro exI [of _ "c_str ?x"]) auto
  next
    case False
    then have "c_str (path_append d ?x) = c_str (path_append d [])" by (simp add: p c_str_cut)
    then show ?thesis by (intro exI [of _ "[]"]) (simp add: nul_free_def)
  qed
qed

definition node_inv :: "string \<Rightarrow> tables \<Rightarrow> bool" where
  "node_inv d T \<longleftrightarrow> db_wf T \<and> no_paused T \<and> inbound_inside d T"

lemma transfers_unchanged [simp]:
  "tb_transfers (sql_upsert_peer p T) = tb_transfers T" "tb_transfers (sql_delete_peer i T) = tb_transfers T"
  "tb_transfers (sql_insert_message m T) = tb_transfers T" "tb_transfers (sql_mark_read i T) = tb_transfers T"
  by (simp_all add: sql_upsert_peer_def sql_delete_peer_def sql_insert_message_def sql_mark_read_def)

lemma transfer_rows_after:
  "r \<in> set (tb_transfers (sql_upsert_transfer t T)) \<Longrightarrow> r = transfer_to_row t \<or> r \<in> set (tb_transfers T)"
  "r \<in> set (tb_transfers (sql_update_transfer i n s now T)) \<Longrightarrow> r \<in> set (tb_transfers T) \<or>
     (\<exists>r0 \<in> set (tb_transfers T). r = r0\<lparr>tr_transferred_bytes := sint n, tr_state := transfer_state_str s, tr_updated_at := now\<rparr>)"
  "r \<in> set (tb_transfers (sql_delete_stale c T)) \<Longrightarrow> r \<in> set (tb_transfers T)"
  by (auto simp: sql_upsert_transfer_def set_tbl_replace sql_update_transfer_def tbl_update_def sql_delete_stale_def)

lemma paused_text [simp]: "transfer_state_str s = ''paused'' \<longleftrightarrow> s = Paused"
  by (cases s) auto

lemma db_step_wf: "db_step d T T' \<Longrightarrow> db_wf T \<Longrightarrow> db_wf T'"
  by (induction rule: db_step.induct) (auto intro: db_wf_intros)

lemma db_step_no_paused: "db_step d T T' \<Longrightarrow> no_paused T \<Longrightarrow> no_paused T'"
  by (induction rule: db_step.induct)
     (fastforce simp: no_paused_def transfer_to_row_def dest: transfer_rows_after)+

lemma db_step_inside: "db_step d T T' \<Longrightarrow> inbound_inside d T \<Longrightarrow> inbound_inside d T'"
proof (induction rule: db_step.induct)
  case (offer_in t n T)
  then have "tr_filepath (transfer_to_row t) = c_str (path_append d (sanitize_filename n))"
    by (simp add: transfer_to_row_def)
  with received_path [of d n] offer_in.prems show ?case
    unfolding inbound_inside_def by (metis transfer_rows_after(1))
qed (fastforce simp: inbound_inside_def transfer_to_row_def sql_bool_def dest: transfer_rows_after)+

lemma inbound_path:
  assumes "inbound_inside d T" "d \<noteq> []" "last d \<noteq> CHR ''/''" "nul_free d" "r \<in> set (tb_transfers T)" "tr_outbound r = 0"
  obtains name where "tr_filepath r = d @ ''/'' @ name" "nul_free name" "\<forall>c \<in> set name. \<not> bad_name_char c"
proof -
  have "c_str (path_append d []) = d @ ''/''" using assms(2-4) by (simp add: path_append_def nul_free_def)
  with assms(1,5,6) that show ?thesis by (force simp: inbound_inside_def)
qed

lemma db_steps_inv: "db_steps d T T' \<Longrightarrow> node_inv d T \<Longrightarrow> node_inv d T'"
  by (induction rule: rtranclp_induct) (auto simp: node_inv_def dest: db_step_wf db_step_no_paused db_step_inside)

section \<open>Connections\<close>

text \<open>Nothing but more output on the connection \<open>s\<close>.\<close>

definition conn_only :: "nat \<Rightarrow> world \<Rightarrow> world \<Rightarrow> bool" where
  "conn_only s w w' \<longleftrightarrow> (\<exists>d. socks w' = (socks w)(s := map_option (\<lambda>k. k\<lparr>s_sent := s_sent k @ d\<rparr>) (socks w s)))"

lemma conn_only_same: "socks w' = socks w \<Longrightarrow> conn_only s w w'"
  unfolding conn_only_def by (rule exI [of _ "[]"]) (simp add: fun_upd_idem option.map_ident)

lemma conn_only_trans:
  assumes "conn_only s w w'" and "conn_only s w' w''"
  shows "conn_only s w w''"
proof -
  obtain d d' where "socks w' = (socks w)(s := map_option (\<lambda>k. k\<lparr>s_sent := s_sent k @ d\<rparr>) (socks w s))"
    "socks w'' = (socks w')(s := map_option (\<lambda>k. k\<lparr>s_sent := s_sent k @ d'\<rparr>) (socks w' s))"
    using assms unfolding conn_only_def by blast
  then show ?thesis
    unfolding conn_only_def by (intro exI [of _ "d @ d'"]) (simp add: option.map_comp comp_def)
qed

lemma conn_only_basic [simp]:
  "conn_only s w (step_tick w') \<longleftrightarrow> conn_only s w w'" "conn_only s w (print t w') \<longleftrightarrow> conn_only s w w'"
  "conn_only s w (eprint t w') \<longleftrightarrow> conn_only s w w'" "conn_only s w (log E l m w') \<longleftrightarrow> conn_only s w w'"
  "conn_only s w (snd (run_sql E f w')) \<longleftrightarrow> conn_only s w w'" "conn_only s w (w'\<lparr>files := fs\<rparr>) \<longleftrightarrow> conn_only s w w'"
  "conn_only s w w"
  by (simp_all add: conn_only_same) (simp_all add: conn_only_def)

lemma conn_only_reads [simp]:
  "conn_only s w (snd (get_peer E i w')) \<longleftrightarrow> conn_only s w w'" "conn_only s w (snd (get_transfer E i w')) \<longleftrightarrow> conn_only s w w'"
  "conn_only s w (snd (now_unix E w')) \<longleftrightarrow> conn_only s w w'" "conn_only s w (snd (generate_uuid E w')) \<longleftrightarrow> conn_only s w w'"
  "conn_only s w (snd (sha256_file E path w')) \<longleftrightarrow> conn_only s w w'"
  "conn_only s w (snd (update_transfer_progress E i n st w')) \<longleftrightarrow> conn_only s w w'"
  "conn_only s w (snd (write_chunk E path off d w')) \<longleftrightarrow> conn_only s w w'"
  by (simp_all add: get_peer_def get_transfer_def sql_step_def now_unix_def generate_uuid_world sha256_file_def
      ifstream_open_def update_transfer_progress_def write_chunk_def ofstream_open_def ofstream_write_def
      case_prod_beta Let_def split: option.split)

lemma conn_only_send: "conn_only s w w' \<Longrightarrow> conn_only s w (snd (send_packet_conn E s t p w'))"
proof (erule conn_only_trans, cases "socks w' s")
  case None
  then show "conn_only s w' (snd (send_packet_conn E s t p w'))"
    by (simp add: send_packet_conn_closed)
next
  case (Some k)
  obtain ok w1 where o: "send_packet_conn E s t p w' = (ok, w1)" by fastforce
  from send_packet_conn_spec [OF Some o] obtain n where
    f: "sock_frame s w' (k\<lparr>s_sent := s_sent k @ take n (serialize_packet E t p [])\<rparr>) w1" by blast
  show "conn_only s w' (snd (send_packet_conn E s t p w'))"
    unfolding conn_only_def o
    by (rule exI [of _ "take n (serialize_packet E t p [])"]) (simp add: Some sock_frame_fields [OF f])
qed

lemma conn_only_handlers:
  "conn_only s w (handle_file_offer E p s w)" "conn_only s w (handle_file_chunk E p s w)"
  "conn_only s w (handle_file_complete E p s w)" "conn_only s w (on_msg_send E pkt s w)"
  "conn_only s w (handle_discover E p s w)" "conn_only s w (handle_announce E p s w)"
  "conn_only s w (handle_ping E p s w)" "conn_only s w (handle_pong E p s w)"
  by (simp_all add: handle_file_offer_def accept_offer_def handle_file_chunk_def handle_file_complete_def on_msg_send_def
      handle_msg_receive_def handle_discover_def handle_announce_def handle_ping_def handle_pong_def mark_seen_def
      upsert_methods case_prod_beta Let_def conn_only_send split: option.split)

section \<open>The handler table\<close>

lemma app_handlers_cases:
  assumes "app_handlers E t = Some h"
  shows "conn_only s w (h pkt s w) \<and> evolves w (h pkt s w)"
  using assms
  by (auto simp: setup_network_handlers_def register_handler_def handle_file_accept_def handle_file_resume_def
      conn_only_handlers evolves_transfer_handlers evolves_peer_handlers evolves_messaging
      split: if_splits)

lemma conn_only_keeps:
  assumes "\<And>pkt s w. conn_only s w (h pkt s w)"
  shows "keeps_conn h"
  unfolding keeps_conn_def
proof (intro allI impI)
  fix pkt s and w :: world and k assume k: "socks w s = Some k"
  from assms [of s w pkt] obtain d where
    "socks (h pkt s w) = (socks w)(s := map_option (\<lambda>k. k\<lparr>s_sent := s_sent k @ d\<rparr>) (socks w s))"
    unfolding conn_only_def by blast
  with k show "\<exists>k'. socks (h pkt s w) s = Some k' \<and> s_consumed k' = s_consumed k" by simp
qed

interpretation app: handler_table "app_handlers E" for E :: "'x env_scheme"
  by unfold_locales (use app_handlers_cases conn_only_keeps in blast)

lemma dispatch_app: "conn_only s w (dispatch (app_handlers E) pkt s w) \<and> evolves w (dispatch (app_handlers E) pkt s w)"
  using app_handlers_cases [of E "k_type pkt" _ s w pkt] by (cases "app_handlers E (k_type pkt)") (simp_all add: dispatch_def)

section \<open>Files\<close>

lemma sql_get_transfer_row:
  assumes "sql_get_transfer i T = Some r"
  obtains x where "x \<in> set (tb_transfers T)" and "r = row_to_transfer x"
  using assms by (auto simp: sql_get_transfer_def dest: tbl_find_key)

lemma get_transfer_Some: "fst (get_transfer E i w) = Some r \<Longrightarrow> sql_get_transfer i (db w) = Some r"
  by (simp add: get_transfer_def sql_step_def split: if_splits)

lemma files_update [simp]: "files (snd (update_transfer_progress E i n st w)) = files w"
  by (simp add: update_transfer_progress_def now_unix_def Let_def)

lemma files_mark_seen [simp]: "files (mark_seen E i w) = files w"
  by (simp add: mark_seen_def upsert_methods case_prod_beta Let_def split: option.split)

lemma files_msg_receive [simp]: "files (handle_msg_receive E p w) = files w"
  by (simp add: handle_msg_receive_def upsert_methods case_prod_beta Let_def split: option.split)

lemma files_other_handlers [simp]:
  "files (handle_file_offer E p s w) = files w" "files (handle_file_complete E p s w) = files w"
  "files (on_msg_send E pkt s w) = files w" "files (handle_discover E p s w) = files w"
  "files (handle_announce E p s w) = files w" "files (handle_ping E p s w) = files w"
  "files (handle_pong E p s w) = files w"
  by (simp_all add: handle_file_offer_def accept_offer_def handle_file_complete_def on_msg_send_def
      handle_discover_def handle_announce_def handle_ping_def handle_pong_def
      upsert_methods case_prod_beta Let_def split: option.split)

lemma write_chunk_other: "p \<noteq> path \<Longrightarrow> files (snd (write_chunk E path off d w)) p = files w p"
  by (simp add: write_chunk_def ofstream_open_def ofstream_write_def case_prod_beta Let_def)

lemma write_chunk_directory: "path \<in> dirs w \<Longrightarrow> files (snd (write_chunk E path off d w)) = files w"
  by (simp add: write_chunk_def ofstream_open_def case_prod_beta Let_def)

lemma handle_file_chunk_files:
  assumes "files (handle_file_chunk E payload s w) p \<noteq> files w p"
  shows "p \<notin> dirs w \<and> (\<exists>i r. sql_get_transfer i (db w) = Some r \<and> t_filepath r = p)"
proof (rule ccontr)
  assume no: "\<not> ?thesis"
  have "p \<noteq> t_filepath r \<or> t_filepath r \<in> dirs w" if "fst (get_transfer E i w) = Some r" for i r
    using get_transfer_Some [OF that] no by auto
  then have "files (snd (write_chunk E (t_filepath r) off d (snd (get_transfer E i w)))) p = files w p"
    if "fst (get_transfer E i w) = Some r" for i r off d
    using that by (cases "p = t_filepath r") (auto simp: write_chunk_other write_chunk_directory)
  then have "files (handle_file_chunk E payload s w) p = files w p"
    by (auto simp: handle_file_chunk_def case_prod_beta Let_def split: option.split)
  with assms show False by simp
qed

lemma dispatch_files:
  assumes "files (dispatch (app_handlers E) pkt s w) p \<noteq> files w p"
  shows "k_type pkt = FileChunk \<and> p \<notin> dirs w \<and> (\<exists>i r. sql_get_transfer i (db w) = Some r \<and> t_filepath r = p)"
proof -
  have "k_type pkt = FileChunk \<and> files (handle_file_chunk E (k_payload pkt) s w) p \<noteq> files w p"
    using assms
    by (cases "k_type pkt") (auto simp: dispatch_def setup_network_handlers_def register_handler_def
        handle_file_accept_def handle_file_resume_def)
  with handle_file_chunk_files show ?thesis by blast
qed

lemma files_send_one_chunk [simp]: "files (snd (snd (send_one_chunk E s i sz b x off w))) = files w"
  using quiet_retry_send [of "send_packet_conn E s t p" w n for t p n]
  by (simp add: send_one_chunk_def case_prod_beta Let_def quiet_def split: option.split)

lemma files_send_chunks [simp]: "files (snd (snd (send_chunks E s i sz data pos good x off w))) = files w"
  by (rule send_chunks_invariant [where P = "\<lambda>w'. files w' = files w"]) simp_all

lemma files_send_failed [simp]: "files (snd (send_failed E i n w)) = files w"
  by (simp add: send_failed_def case_prod_beta Let_def)

lemma files_send_body [simp]: "files (snd (send_body E s i ap f sz c off w)) = files w"
  by (simp add: send_body_def case_prod_beta Let_def split: option.split send_outcome.split)

lemma files_send_offer [simp]: "files (snd (send_offer E p i ap f sz c w)) = files w"
  by (simp add: send_offer_def case_prod_beta Let_def split: option.split)

lemma files_send_file [simp]: "files (snd (send_file E path i w)) = files w"
  by (simp add: send_file_def upsert_methods case_prod_beta Let_def split: option.split)

lemma files_send_msg [simp]: "files (snd (send_msg E i text w)) = files w"
  using quiet_retry_send [of "send_packet E ip port t p" v n for ip port t p v n]
  by (simp add: send_msg_def upsert_methods case_prod_beta Let_def quiet_def split: option.split)

lemma files_beacon [simp]: "files (beacon_pings E ps w) = files w"
  by (induction ps arbitrary: w) (simp_all add: upsert_methods case_prod_beta Let_def)

lemma files_broadcast [simp]: "files (snd (broadcast_loop E port p ips ok w)) = files w"
  by (induction ips arbitrary: ok w) (simp_all add: Let_def)

lemma files_peer_ops [simp]:
  "files (snd (ping_peer E i w)) = files w" "files (snd (add_peer E i ip port w)) = files w"
  "files (snd (remove_peer E i w)) = files w" "files (discover E w) = files w" "files (beacon_round E w) = files w"
  "files (snd (cancel_transfer E i w)) = files w" "files (snd (delete_stale_transfers E days w)) = files w"
  "files (snd (mark_message_read E i w)) = files w"
  by (simp_all add: ping_peer_def add_peer_def remove_peer_def discover_def broadcast_udp_def beacon_round_def all_peers_def
      cancel_transfer_def delete_stale_transfers_def now_unix_def upsert_methods case_prod_beta Let_def split: option.split)

section \<open>Steps of a node\<close>

text \<open>The operations of a running process in any order: packets on any connection, connections
  that open and close, the background beacon, and the operations the commands call after
  start-up. Start-up itself, the install command and the removal of the temporary directory by
  the clean command are not steps.\<close>

inductive node_step :: "'x env_scheme \<Rightarrow> world \<Rightarrow> world \<Rightarrow> bool" for E where
  packet: "node_step E w (dispatch (app_handlers E) pkt s w)"
| opened: "node_step E w (snd (accept_conn w))"
| closed: "node_step E w (close_conn s w)"
| sending: "node_step E w (snd (send_file E path i w))"
| messaging: "node_step E w (snd (send_msg E i text w))"
| pinging: "node_step E w (snd (ping_peer E i w))"
| discovering: "node_step E w (discover E w)"
| adding: "node_step E w (snd (add_peer E i ip port w))"
| removing: "node_step E w (snd (remove_peer E i w))"
| cancelling: "node_step E w (snd (cancel_transfer E i w))"
| cleaning: "node_step E w (snd (delete_stale_transfers E days w))"
| reading: "node_step E w (snd (mark_message_read E i w))"
| beacon: "node_step E w (beacon_round E w)"

inductive_cases node_stepE: "node_step E w w'"

lemma accept_conn_frame: "quiet w (snd (accept_conn w))"
  by (simp add: accept_conn_def quiet_def)

lemma node_step_evolves: "node_step E w w' \<Longrightarrow> evolves w w'"
  by (induction rule: node_step.induct)
     (auto simp: dispatch_app evolves_send_file evolves_messaging evolves_ping_peer evolves_discover evolves_add_remove
        evolves_transfer_handlers evolves_beacon_round
        intro: evolves_sql_methods evolves_quiet [OF _ accept_conn_frame])

lemma node_steps_evolve: "(node_step E)\<^sup>*\<^sup>* w w' \<Longrightarrow> evolves w w'"
  by (induction rule: rtranclp_induct) (auto intro: evolves_trans node_step_evolves)

lemma node_steps_inv:
  assumes "(node_step E)\<^sup>*\<^sup>* w w'" and "node_inv (c_received_dir (cfg w)) (db w)"
  shows "node_inv (c_received_dir (cfg w)) (db w')" "cfg w' = cfg w"
  using node_steps_evolve [OF assms(1)] assms(2) by (auto simp: evolves_def intro: db_steps_inv)

lemma node_step_files:
  assumes "node_step E w w'" and "files w' p \<noteq> files w p"
  shows "p \<notin> dirs w \<and> (\<exists>r \<in> set (tb_transfers (db w)). tr_filepath r = p)"
proof -
  from assms(1) have "(\<exists>pkt s. w' = dispatch (app_handlers E) pkt s w) \<or> files w' = files w"
    by (cases rule: node_step.cases) (auto simp: accept_conn_def)
  with assms(2) obtain pkt s where "w' = dispatch (app_handlers E) pkt s w" by auto
  with assms(2) dispatch_files [of E pkt s w p] obtain i r where
    "p \<notin> dirs w" "sql_get_transfer i (db w) = Some r" "t_filepath r = p" by blast
  then show ?thesis by (auto elim!: sql_get_transfer_row simp: row_to_transfer_def)
qed

text \<open>A whole connection is a sequence of such steps.\<close>

lemma conn_loop_evolves:
  "conn_loop E (app_handlers E) s pkt w = Some w' \<Longrightarrow> evolves w w'"
proof -
  assume r: "conn_loop E (app_handlers E) s pkt w = Some w'"
  have "\<forall>E'. E' = E \<longrightarrow> app_handlers E = app_handlers E' \<longrightarrow> evolves w w'"
  proof (rule conn_loop.raw_induct [where P = "\<lambda>E hs s pkt w w'. \<forall>E'. E' = E \<longrightarrow> hs = app_handlers E' \<longrightarrow> evolves w w'", OF _ r])
    fix loop and E :: "'a env_scheme" and hs s pkt w w'
    assume IH: "\<And>E hs s pkt w w'. loop E hs s pkt w = Some w' \<Longrightarrow> \<forall>E'. E' = E \<longrightarrow> hs = app_handlers E' \<longrightarrow> evolves w w'"
      and eq: "(case read_packet E s pkt w of (None, w) \<Rightarrow> Some w
        | (Some pkt, w) \<Rightarrow> if closing_type (k_type pkt) then Some (dispatch hs pkt s w) else loop E hs s pkt (dispatch hs pkt s w)) = Some w'"
    show "\<forall>E'. E' = E \<longrightarrow> hs = app_handlers E' \<longrightarrow> evolves w w'"
    proof (intro allI impI)
      fix E' assume h: "E' = E" "hs = app_handlers E'"
      obtain m w1 where r1: "read_packet E s pkt w = (m, w1)" by fastforce
      have w1: "evolves w w1" using evolves_silent(2) [OF evolves_refl, of w E s pkt] r1 by simp
      have d: "evolves w (dispatch hs q s w1)" for q
        using evolves_trans [OF w1] dispatch_app [of s w1 E q] h by blast
      show "evolves w w'"
        using eq r1 w1 d IH h evolves_trans by (fastforce split: option.splits if_splits)
    qed
  qed
  then show ?thesis by blast
qed

lemma decode_offer_written:
  assumes "cbor_laws L"
  obtains j where "from_cbor L (to_cbor L (offer_json i f n c s)) = Some j"
    and "\<And>fresh. decode_offer L j fresh = Some (i, f, n, c, s)"
proof -
  have d: "distinct (map fst [(''transfer_id'', JStr i), (''filename'', JStr f), (''size'', JUInt n),
      (''checksum'', JStr c), (''sender_id'', JStr s)])" by simp
  from cbor_lawsD [OF assms d] obtain j where
    j: "from_cbor L (to_cbor L (offer_json i f n c s)) = Some j"
    and m: "\<And>k. member_ok L j k (map_of [(''transfer_id'', JStr i), (''filename'', JStr f), (''size'', JUInt n),
      (''checksum'', JStr c), (''sender_id'', JStr s)] k)"
    unfolding offer_json_def by blast
  have "decode_offer L j fresh = Some (i, f, n, c, s)" for fresh
    using m [of "''transfer_id''"] m [of "''filename''"] m [of "''size''"] m [of "''checksum''"] m [of "''sender_id''"]
    by (simp add: member_ok_def decode_offer_def)
  with j that show ?thesis by blast
qed

section \<open>Properties\<close>

text \<open>C2: Whatever a node does and whatever its peers send, in any order and in any environment,
  its tables stay well formed (unique primary keys, only the six state texts), no transfer is
  ever in the state paused, the path of every inbound transfer is the received directory, a
  slash and one component without a slash, a backslash, a NUL or one of the other characters not
  allowed in names, and the configuration, the identity, the directories and the listener stay
  as they are. The component can be empty, a dot or two dots: a peer that offers a name with a
  NUL byte gets the path cut there when it is stored.\<close>

theorem node_invariant:
  assumes "(node_step E)\<^sup>*\<^sup>* w w'" and "node_inv d (db w)"
    and d: "d = c_received_dir (cfg w)" "d \<noteq> []" "last d \<noteq> CHR ''/''" "nul_free d"
  shows "db_wf (db w') \<and> no_paused (db w')
    \<and> (\<forall>r \<in> set (tb_transfers (db w')). tr_outbound r = 0 \<longrightarrow>
         (\<exists>name. tr_filepath r = d @ ''/'' @ name \<and> set name \<inter> set (CHR 0x00 # CHR 0x5C # CHR 0x22 # ''/:*?<>|'') = {}))
    \<and> cfg w' = cfg w \<and> ident w' = ident w \<and> dirs w' = dirs w
    \<and> net_running w' = net_running w \<and> listen_sock w' = listen_sock w"
proof -
  have inv: "db_wf (db w')" "no_paused (db w')" "inbound_inside d (db w')"
    using node_steps_inv(1) [OF assms(1)] assms(2) d(1) by (simp_all add: node_inv_def)
  moreover have "\<exists>name. tr_filepath r = d @ ''/'' @ name \<and> set name \<inter> set (CHR 0x00 # CHR 0x5C # CHR 0x22 # ''/:*?<>|'') = {}"
    if r: "r \<in> set (tb_transfers (db w'))" "tr_outbound r = 0" for r
  proof -
    obtain name where "tr_filepath r = d @ ''/'' @ name" "nul_free name" "\<forall>c \<in> set name. \<not> bad_name_char c"
      using inbound_path [OF inv(3) d(2-4) r] .
    then show ?thesis by (intro exI [of _ name]) (auto simp: nul_free_def bad_name_char_def)
  qed
  ultimately show ?thesis using node_steps_evolve [OF assms(1)] by (simp add: evolves_def)
qed

lemma sample_node_inv: "node_inv d (db sample_world)" "db sample_receiver = db sample_world"
  by (simp_all add: node_inv_def db_wf_def no_paused_def inbound_inside_def tbl_keys_distinct_def
      sample_world_def sample_receiver_def)

text \<open>An offer whose name is two dots and a NUL byte: the stored path is the parent of the received
  directory, in the form the invariant allows.\<close>

definition sample_offered :: world where
  "sample_offered = dispatch (app_handlers sample_env)
     \<lparr>k_type = FileOffer, k_payload = to_cbor sample_env (offer_json ''t'' [CHR ''.'', CHR ''.'', CHR 0x00] 1 [] ''peer''),
      k_peer_ip = [], k_peer_port = 0\<rparr> 0 sample_receiver"

lemma sample_offered_row:
  "\<exists>r. tb_transfers (db sample_offered) = [r] \<and> tr_outbound r = 0 \<and> tr_filepath r = ''/h/shr_received/..''"
proof -
  let ?n = "[CHR ''.'', CHR ''.'', CHR 0x00]"
  obtain j where j: "from_cbor sample_env (to_cbor sample_env (offer_json ''t'' ?n 1 [] ''peer'')) = Some j"
    and o: "\<And>fresh. decode_offer sample_env j fresh = Some (''t'', ?n, 1, [], ''peer'')"
    using decode_offer_written [OF sample_cbor] by blast
  have n: "sanitize_filename ?n = ?n" by (simp add: sanitize_filename_def bad_name_char_def)
  have c: "c_str (''/h/shr_received/'' @ ?n) = ''/h/shr_received/..''" by code_simp
  have e: "tb_transfers (db sample_receiver) = []" "sql_get_transfer ''t'' (db sample_receiver) = None"
    "c_received_dir (cfg sample_receiver) = ''/h/shr_received''"
    by (simp_all add: sample_receiver_def sample_world_def sql_get_transfer_def tbl_find_Nil)
  show ?thesis using e c
    by (simp add: sample_offered_def dispatch_def setup_network_handlers_def register_handler_def handle_file_offer_def j o n
        accept_offer_def upsert_methods db_simps now_unix_def generate_uuid_world sql_upsert_transfer_def tbl_replace_def
        transfer_to_row_def path_append_def case_prod_beta Let_def sql_bool_def)
qed

theorem node_invariant_witness:
  "\<exists>r name. tb_transfers (db sample_offered) = [r] \<and> tr_outbound r = 0
     \<and> tr_filepath r = ''/h/shr_received'' @ ''/'' @ name \<and> CHR ''/'' \<notin> set name \<and> name = ''..''"
proof -
  have s: "(node_step sample_env)\<^sup>*\<^sup>* sample_receiver sample_offered"
    unfolding sample_offered_def by (rule r_into_rtranclp) (rule node_step.packet)
  have d: "c_received_dir (cfg sample_receiver) = ''/h/shr_received''" by (simp add: sample_receiver_def sample_world_def)
  obtain r where r: "tb_transfers (db sample_offered) = [r]" "tr_outbound r = 0" "tr_filepath r = ''/h/shr_received/..''"
    using sample_offered_row by blast
  from node_invariant [OF s _ d [symmetric]] r obtain name
    where "tr_filepath r = ''/h/shr_received'' @ ''/'' @ name" "CHR ''/'' \<notin> set name"
    by (auto simp: sample_node_inv nul_free_def)
  with r show ?thesis by (intro exI [of _ r] exI [of _ name]) simp
qed

text \<open>C8: Serving a connection ends. For every peer that sends finitely many bytes, in any
  environment, \<open>handle_conn\<close> with the handler table of the program returns, the connection
  is closed, and the invariants of the tables still hold.\<close>

theorem handle_conn_terminates:
  assumes "\<forall>d. length (peer_stream E s d) \<le> N" and "socks w s \<noteq> None"
    and "node_inv (c_received_dir (cfg w)) (db w)"
  shows "\<exists>w'. handle_conn E (app_handlers E) s ip w = Some w' \<and> socks w' s = None
    \<and> node_inv (c_received_dir (cfg w)) (db w')"
proof -
  obtain w' where w': "handle_conn E (app_handlers E) s ip w = Some w'" "socks w' s = None"
    using app.handle_conn_returns [of E s N w E ip] assms(1,2) by blast
  then obtain w1 where "conn_loop E (app_handlers E) s \<lparr>k_type = Unlisted 0, k_payload = [], k_peer_ip = ip, k_peer_port = 0\<rparr> w = Some w1"
    "w' = close_conn s w1" by (auto simp: handle_conn_def)
  then have "evolves w w'" using conn_loop_evolves by simp
  with assms(3) w' show ?thesis by (auto simp: evolves_def intro: db_steps_inv)
qed

theorem handle_conn_terminates_witness:
  "\<exists>w'. handle_conn sample_env (app_handlers sample_env) 0 ''10.0.0.7'' sample_receiver = Some w' \<and> socks w' 0 = None"
  using handle_conn_terminates [of sample_env 0 0 sample_receiver "''10.0.0.7''"]
  by (auto simp: sample_node_inv) (auto simp: sample_env_def sample_receiver_def)

text \<open>C23: A handler answers on the connection its packet came from and nowhere else: whatever the
  packet and the environment, the other sockets are untouched, nothing is consumed from the
  connection, and its output is only extended.\<close>

theorem dispatch_own_connection:
  "\<exists>d. socks (dispatch (app_handlers E) pkt s w) =
     (socks w)(s := map_option (\<lambda>k. k\<lparr>s_sent := s_sent k @ d\<rparr>) (socks w s))"
  using dispatch_app [of s w E pkt] by (simp add: conn_only_def)

end
