(* ===== verification/Shr_Receive.thy ===== *)
theory Shr_Receive
  imports Shr_Node
begin

text \<open>
  The receiving side of a transfer: the handlers on packets that a correct sender wrote, the
  packets of a transfer, and the dispatch loop served with them. The lemma \<open>serve_offered\<close>
  describes the node after an offer and any number of chunks, \<open>serve_complete\<close> after the
  closing packet.
\<close>

section \<open>Decoding what the encoder wrote\<close>

lemma decode_chunk_written:
  assumes "cbor_laws L"
  shows "decode_chunk L (to_cbor L (chunk_json L i x off d)) = Some (i, off, base64_encode L d, sha256_bytes L d)"
proof -
  let ?kvs = "[(''transfer_id'', JStr i), (''index'', JUInt x), (''offset'', JUInt off),
           (''size'', JUInt (word_of_nat (length d))), (''checksum'', JStr (sha256_bytes L d)),
           (''data'', JStr (base64_encode L d))]"
  have d: "distinct (map fst ?kvs)" by simp
  from cbor_lawsD [OF assms d] obtain j where
    j: "from_cbor L (to_cbor L (chunk_json L i x off d)) = Some j" and m: "\<And>k. member_ok L j k (map_of ?kvs k)"
    unfolding chunk_json_def by blast
  then show ?thesis
    using m [of "''transfer_id''"] m [of "''offset''"] m [of "''checksum''"] m [of "''data''"]
    by (simp add: member_ok_def decode_chunk_def)
qed

lemma decode_complete_written:
  assumes "cbor_laws L"
  shows "decode_complete L (to_cbor L (complete_json i c)) = Some (i, c)"
proof -
  let ?kvs = "[(''transfer_id'', JStr i), (''checksum'', JStr c)]"
  have d: "distinct (map fst ?kvs)" by simp
  from cbor_lawsD [OF assms d] obtain j where
    j: "from_cbor L (to_cbor L (complete_json i c)) = Some j" and m: "\<And>k. member_ok L j k (map_of ?kvs k)"
    unfolding complete_json_def by blast
  then show ?thesis
    using m [of "''transfer_id''"] m [of "''checksum''"] by (simp add: member_ok_def decode_complete_def)
qed

lemmas written = decode_chunk_written decode_complete_written

section \<open>The handlers in a reliable environment\<close>

lemma run_sql_socks [simp]: "tick (snd (run_sql E f w)) = Suc (tick w)"
  by (rule run_sql_cases [of E f w]) auto

text \<open>Answering on the connection.\<close>

lemma send_conn_socks:
  assumes "sockets_reliable E" and "socks w s = Some k" and "length p + HEADER_SIZE < 2 ^ 32"
  shows "socks (snd (send_packet_conn E s t p w)) =
    (socks w)(s \<mapsto> k\<lparr>s_sent := s_sent k @ serialize_packet E t p []\<rparr>)"
    "fst (send_packet_conn E s t p w)"
    "next_sock (snd (send_packet_conn E s t p w)) = next_sock w"
    "closed_socks (snd (send_packet_conn E s t p w)) = closed_socks w"
proof -
  obtain w' where w': "send_packet_conn E s t p w = (True, w')"
    and f: "sock_frame s w (k\<lparr>s_sent := s_sent k @ serialize_packet E t p []\<rparr>) w'"
    using send_packet_conn_reliable [OF assms] .
  then show "socks (snd (send_packet_conn E s t p w)) =
      (socks w)(s \<mapsto> k\<lparr>s_sent := s_sent k @ serialize_packet E t p []\<rparr>)"
    "fst (send_packet_conn E s t p w)"
    "next_sock (snd (send_packet_conn E s t p w)) = next_sock w"
    "closed_socks (snd (send_packet_conn E s t p w)) = closed_socks w"
    by (simp_all add: sock_frame_fields [OF f])
qed

definition inbound_record :: "string \<Rightarrow> string \<Rightarrow> string \<Rightarrow> string \<Rightarrow> u64 \<Rightarrow> string \<Rightarrow> int \<Rightarrow> int \<Rightarrow> TransferRecord" where
  "inbound_record i sender f path n c created updated =
     \<lparr>t_id = i, t_peer_id = sender, t_filename = f, t_filepath = path, t_total_bytes = n,
      t_transferred_bytes = 0, t_state = Pending, t_checksum = c, t_created_at = created,
      t_updated_at = updated, t_outbound = False\<rparr>"

lemma accept_offer_effect:
  assumes rel: "sql_reliable E" "sockets_reliable E" and k: "socks w s = Some k"
    and fit: "length (to_cbor E (accept_json i)) + HEADER_SIZE < 2 ^ 32"
  shows "\<exists>x y. db (accept_offer E i f n c sender s w) =
      sql_upsert_transfer (inbound_record i sender f (path_append (c_received_dir (cfg w)) f) n c x y) (db w)"
    "socks (accept_offer E i f n c sender s w) =
      (socks w)(s \<mapsto> k\<lparr>s_sent := s_sent k @ serialize_packet E FileAccept (to_cbor E (accept_json i)) []\<rparr>)"
    "files (accept_offer E i f n c sender s w) = files w" "dirs (accept_offer E i f n c sender s w) = dirs w"
    "cfg (accept_offer E i f n c sender s w) = cfg w"
  using k by (auto simp: accept_offer_def now_unix_def upsert_methods db_simps rel
      send_conn_socks [OF rel(2) _ fit] inbound_record_def Let_def)

lemma handle_file_offer_accepts:
  assumes laws: "cbor_laws E" and rel: "sql_reliable E" "sockets_reliable E" and k: "socks w s = Some k"
    and fit: "length (to_cbor E (accept_json i)) + HEADER_SIZE < 2 ^ 32"
    and new: "\<forall>r. sql_get_transfer i (db w) = Some r \<longrightarrow> t_state r \<noteq> Paused"
    and w': "w' = handle_file_offer E (to_cbor E (offer_json i f n c sender)) s w"
  shows "\<exists>x y. db w' = sql_upsert_transfer
      (inbound_record i sender (sanitize_filename f) (path_append (c_received_dir (cfg w)) (sanitize_filename f)) n c x y) (db w)"
    "socks w' = (socks w)(s \<mapsto> k\<lparr>s_sent := s_sent k @ serialize_packet E FileAccept (to_cbor E (accept_json i)) []\<rparr>)"
    "files w' = files w" "dirs w' = dirs w" "cfg w' = cfg w"
proof -
  obtain j where j: "from_cbor E (to_cbor E (offer_json i f n c sender)) = Some j"
    and d: "\<And>fresh. decode_offer E j fresh = Some (i, f, n, c, sender)"
    using decode_offer_written [OF laws] by blast
  let ?w = "step_tick (snd (generate_uuid E w))"
  have eq: "w' = accept_offer E i (sanitize_filename f) n c sender s ?w"
    using new unfolding w'
    by (auto simp: handle_file_offer_def j d db_simps rel generate_uuid_world Let_def case_prod_beta
        split: option.split)
  have k': "socks ?w s = Some k" using k by (simp add: generate_uuid_world)
  note e = accept_offer_effect [OF rel k' fit, of "sanitize_filename f" n c sender]
  show "\<exists>x y. db w' = sql_upsert_transfer
      (inbound_record i sender (sanitize_filename f) (path_append (c_received_dir (cfg w)) (sanitize_filename f)) n c x y) (db w)"
    "socks w' = (socks w)(s \<mapsto> k\<lparr>s_sent := s_sent k @ serialize_packet E FileAccept (to_cbor E (accept_json i)) []\<rparr>)"
    "files w' = files w" "dirs w' = dirs w" "cfg w' = cfg w"
    using e unfolding eq by (simp_all add: generate_uuid_world)
qed

text \<open>What a chunk does to the receive file.\<close>

definition chunk_written :: "u64 \<Rightarrow> bytes option \<Rightarrow> bytes \<Rightarrow> bytes" where
  "chunk_written off old d = (if off = 0 then d else (case old of None \<Rightarrow> [] | Some b \<Rightarrow> b) @ d)"

lemma write_chunk_effect:
  assumes "disk_reliable E" and "\<forall>t. os_writable E t path" and "path \<notin> dirs w" and "0 \<le> sint off"
  shows "write_chunk E path off d w =
    (True, (step_tick (step_tick w))\<lparr>files := (files w)(path \<mapsto> chunk_written off (files w path) d)\<rparr>)"
  using assms
  by (auto simp: write_chunk_def ofstream_open_def ofstream_write_def disk_reliable_def chunk_written_def
      step_tick_def Let_def split: option.split)

lemma handle_file_chunk_effect:
  assumes rel: "sql_reliable E" "sockets_reliable E" "disk_reliable E" and k: "socks w s = Some k"
    and dec: "decode_chunk E payload = Some (i, off, b64, sha256_bytes E (base64_decode E b64))"
    and r: "sql_get_transfer i (db w) = Some r"
    and path: "\<forall>t. os_writable E t (t_filepath r)" "t_filepath r \<notin> dirs w" and off: "0 \<le> sint off"
    and d: "d = base64_decode E b64" and w': "w' = handle_file_chunk E payload s w"
    and fit: "length (to_cbor E (ack_json i (off + word_of_nat (length d)))) + HEADER_SIZE < 2 ^ 32"
  shows "files w' = (files w)(t_filepath r \<mapsto> chunk_written off (files w (t_filepath r)) d)"
    "\<exists>now. db w' = sql_update_transfer i (off + word_of_nat (length d)) InProgress now (db w)"
    "socks w' = (socks w)(s \<mapsto> k\<lparr>s_sent := s_sent k @
       serialize_packet E FileChunkAck (to_cbor E (ack_json i (off + word_of_nat (length d)))) []\<rparr>)"
    "dirs w' = dirs w" "cfg w' = cfg w"
proof -
  let ?w = "(step_tick (step_tick (step_tick w)))
     \<lparr>files := (files w)(t_filepath r \<mapsto> chunk_written off (files w (t_filepath r)) d)\<rparr>"
  have wc: "write_chunk E (t_filepath r) off d (step_tick w) = (True, ?w)"
    using write_chunk_effect [OF rel(3) path(1), of "step_tick w" off d] path off by simp
  have eq: "w' = snd (send_packet_conn E s FileChunkAck (to_cbor E (ack_json i (off + word_of_nat (length d))))
      (snd (update_transfer_progress E i (off + word_of_nat (length d)) InProgress ?w)))"
    unfolding w' using r
    by (simp add: handle_file_chunk_def dec d [symmetric] db_simps rel wc Let_def case_prod_beta)
  have k': "socks (snd (update_transfer_progress E i (off + word_of_nat (length d)) InProgress ?w)) s = Some k"
    using k by (simp add: db_simps rel)
  show "files w' = (files w)(t_filepath r \<mapsto> chunk_written off (files w (t_filepath r)) d)"
    "\<exists>now. db w' = sql_update_transfer i (off + word_of_nat (length d)) InProgress now (db w)"
    "socks w' = (socks w)(s \<mapsto> k\<lparr>s_sent := s_sent k @
       serialize_packet E FileChunkAck (to_cbor E (ack_json i (off + word_of_nat (length d)))) []\<rparr>)"
    "dirs w' = dirs w" "cfg w' = cfg w"
    unfolding eq send_conn_socks [OF rel(2) k' fit] by (auto simp: db_simps rel)
qed

lemma handle_file_chunk_accepts:
  assumes laws: "cbor_laws E" "base64_laws E" and rel: "sql_reliable E" "sockets_reliable E" "disk_reliable E"
    and k: "socks w s = Some k" and r: "sql_get_transfer i (db w) = Some r"
    and path: "\<forall>t. os_writable E t (t_filepath r)" "t_filepath r \<notin> dirs w" and off: "0 \<le> sint off"
    and w': "w' = handle_file_chunk E (to_cbor E (chunk_json E i x off d)) s w"
    and fit: "length (to_cbor E (ack_json i (off + word_of_nat (length d)))) + HEADER_SIZE < 2 ^ 32"
  shows "files w' = (files w)(t_filepath r \<mapsto> chunk_written off (files w (t_filepath r)) d)"
    "\<exists>now. db w' = sql_update_transfer i (off + word_of_nat (length d)) InProgress now (db w)"
    "socks w' = (socks w)(s \<mapsto> k\<lparr>s_sent := s_sent k @
       serialize_packet E FileChunkAck (to_cbor E (ack_json i (off + word_of_nat (length d)))) []\<rparr>)"
    "dirs w' = dirs w" "cfg w' = cfg w"
proof -
  have d: "base64_decode E (base64_encode E d) = d" using laws(2) by (rule base64_roundtrip)
  have "decode_chunk E (to_cbor E (chunk_json E i x off d)) =
      Some (i, off, base64_encode E d, sha256_bytes E (base64_decode E (base64_encode E d)))"
    by (simp add: decode_chunk_written laws d)
  note e = handle_file_chunk_effect [OF rel k this r path off d [symmetric] w' fit]
  show "files w' = (files w)(t_filepath r \<mapsto> chunk_written off (files w (t_filepath r)) d)"
    "\<exists>now. db w' = sql_update_transfer i (off + word_of_nat (length d)) InProgress now (db w)"
    "socks w' = (socks w)(s \<mapsto> k\<lparr>s_sent := s_sent k @
       serialize_packet E FileChunkAck (to_cbor E (ack_json i (off + word_of_nat (length d)))) []\<rparr>)"
    "dirs w' = dirs w" "cfg w' = cfg w"
    using e by blast+
qed

text \<open>What a stream opened for reading delivers: the content of a file, nothing for a directory;
  \<open>None\<close> when there is neither.\<close>

definition stored_content :: "world \<Rightarrow> string \<Rightarrow> bytes option" where
  "stored_content w path =
     (case files w path of Some d \<Rightarrow> Some d | None \<Rightarrow> if path \<in> dirs w then Some [] else None)"

lemma stored_file [simp]: "files w path = Some d \<Longrightarrow> stored_content w path = Some d"
  by (simp add: stored_content_def)

lemma stored_nothing: "path \<notin> dirs w \<Longrightarrow> stored_content w path = files w path"
  by (simp add: stored_content_def split: option.split)

lemma read_stored: "os_readable E (tick w) path \<Longrightarrow> fst (ifstream_open E path w) = stored_content w path"
  by (simp add: ifstream_open_def stored_content_def)

lemma handle_file_complete_effect:
  assumes laws: "cbor_laws E" "digest_laws E" and rel: "sql_reliable E"
    and r: "sql_get_transfer i (db w) = Some r" and readable: "\<forall>t. os_readable E t (t_filepath r)"
    and w': "w' = handle_file_complete E (to_cbor E (complete_json i c)) s w"
  shows "\<exists>now. db w' =
      (if (case stored_content w (t_filepath r) of None \<Rightarrow> [] | Some b \<Rightarrow> sha256_bytes E b) = c
       then sql_update_transfer i (t_total_bytes r) Completed now (db w)
       else sql_update_transfer i (t_transferred_bytes r) Failed now (db w))"
    "files w' = files w" "socks w' = socks w"
  unfolding w' using r readable
  by (auto simp: handle_file_complete_def written laws db_simps rel sha256_file_eq ifstream_open_def stored_content_def
      Let_def case_prod_beta)

section \<open>The packets of a transfer\<close>

type_synonym packet = "PacketType \<times> bytes"

definition frames :: "'x lib_scheme \<Rightarrow> packet list \<Rightarrow> bytes" where
  "frames L ps = concat (map (\<lambda>(t, p). serialize_packet L t p []) ps)"

text \<open>The chunks of a file from a block number and an offset on, and the answers to them.\<close>

fun chunk_packets :: "'x lib_scheme \<Rightarrow> string \<Rightarrow> u64 \<Rightarrow> u64 \<Rightarrow> bytes list \<Rightarrow> packet list" where
  "chunk_packets L i x off [] = []"
| "chunk_packets L i x off (b # bs) =
     (FileChunk, to_cbor L (chunk_json L i x off b))
     # chunk_packets L i (x + 1) (off + word_of_nat (length b)) bs"

fun ack_packets :: "'x lib_scheme \<Rightarrow> string \<Rightarrow> u64 \<Rightarrow> bytes list \<Rightarrow> packet list" where
  "ack_packets L i off [] = []"
| "ack_packets L i off (b # bs) =
     (FileChunkAck, to_cbor L (ack_json i (off + word_of_nat (length b))))
     # ack_packets L i (off + word_of_nat (length b)) bs"

definition offer_packet :: "'x lib_scheme \<Rightarrow> string \<Rightarrow> string \<Rightarrow> u64 \<Rightarrow> string \<Rightarrow> string \<Rightarrow> packet" where
  "offer_packet L i f n c sender = (FileOffer, to_cbor L (offer_json i f n c sender))"

definition accept_packet :: "'x lib_scheme \<Rightarrow> string \<Rightarrow> packet" where
  "accept_packet L i = (FileAccept, to_cbor L (accept_json i))"

definition complete_packet :: "'x lib_scheme \<Rightarrow> string \<Rightarrow> string \<Rightarrow> packet" where
  "complete_packet L i c = (FileComplete, to_cbor L (complete_json i c))"

text \<open>Packets whose frames are below 4 GiB, what \<open>write_raw\<close> can send and the length field can hold.\<close>

definition fits :: "packet list \<Rightarrow> bool" where
  "fits ps \<longleftrightarrow> list_all (\<lambda>(t, p). length p + HEADER_SIZE < 2 ^ 32) ps"

lemma frames_simps [simp]:
  "frames L [] = []" "frames L ((t, p) # ps) = serialize_packet L t p [] @ frames L ps"
  "frames L (ps @ qs) = frames L ps @ frames L qs"
  by (simp_all add: frames_def)

lemma fits_simps [simp]:
  "fits []" "fits ((t, p) # ps) \<longleftrightarrow> length p + HEADER_SIZE < 2 ^ 32 \<and> fits ps" "fits (ps @ qs) \<longleftrightarrow> fits ps \<and> fits qs"
  by (simp_all add: fits_def)

section \<open>One round of the dispatch loop\<close>

lemma sock_avail_const:
  assumes "\<forall>d. peer_stream E s d = stream" and "socks w s = Some k"
  shows "sock_avail E s w = drop (s_consumed k) stream"
  using assms by (simp add: sock_avail_def)

lemma conn_loop_packet:
  assumes rel: "sockets_reliable E" and k: "socks w s = Some k"
    and av: "sock_avail E s w = serialize_packet L t p [] @ rest"
    and p: "length p < 2 ^ 32" and t: "t \<in> set listed_types"
  obtains w1 where "sock_frame s w (k\<lparr>s_consumed := s_consumed k + (HEADER_SIZE + length p)\<rparr>) w1"
    and "sock_avail E s w1 = rest"
    and "conn_loop E hs s out w =
      (if closing_type t then Some (dispatch hs (out\<lparr>k_type := t, k_payload := p\<rparr>) s w1)
       else conn_loop E hs s (out\<lparr>k_type := t, k_payload := p\<rparr>) (dispatch hs (out\<lparr>k_type := t, k_payload := p\<rparr>) s w1))"
proof -
  obtain w1 where r: "read_packet E s out w = (Some (out\<lparr>k_type := t, k_payload := p\<rparr>), w1)"
    and f: "sock_frame s w (k\<lparr>s_consumed := s_consumed k + (HEADER_SIZE + length p)\<rparr>) w1"
    using read_packet_reliable [OF rel k av p, of out] packet_type_of_code [OF t] by metis
  moreover have "sock_avail E s w1 = rest"
    using sock_avail_take [OF f k, of E] serialize_length [of "[]" L t p] by (simp add: av)
  ultimately show ?thesis by (intro that [of w1]) (auto simp: conn_loop.simps [of E hs s out w])
qed

lemma conn_loop_end:
  assumes "socks w s = Some k" and "sock_avail E s w = []"
  shows "\<exists>w'. conn_loop E hs s out w = Some w' \<and> sock_frame s w k w'"
proof -
  obtain r w1 where r: "read_packet E s out w = (r, w1)" by fastforce
  from read_packet_consumes [OF assms(1) r] obtain n where
    n: "sock_frame s w (k\<lparr>s_consumed := s_consumed k + n\<rparr>) w1" "n \<le> 0" "r \<noteq> None \<longrightarrow> HEADER_SIZE \<le> n"
    using assms(2) by auto
  then have "r = None" by (cases r) (auto simp: HEADER_SIZE_def)
  with n r show ?thesis by (subst conn_loop.simps) auto
qed

lemma app_handler_simps:
  "dispatch (app_handlers E) pkt s w =
     (case k_type pkt of
        FileOffer \<Rightarrow> handle_file_offer E (k_payload pkt) s w
      | FileChunk \<Rightarrow> handle_file_chunk E (k_payload pkt) s w
      | FileComplete \<Rightarrow> handle_file_complete E (k_payload pkt) s w
      | MsgSend \<Rightarrow> on_msg_send E pkt s w
      | PeerDiscover \<Rightarrow> handle_discover E (k_payload pkt) s w
      | PeerAnnounce \<Rightarrow> handle_announce E (k_payload pkt) s w
      | Ping \<Rightarrow> handle_ping E (k_payload pkt) s w
      | Pong \<Rightarrow> handle_pong E (k_payload pkt) s w
      | _ \<Rightarrow> w)"
  by (cases "k_type pkt")
     (simp_all add: dispatch_def setup_network_handlers_def register_handler_def handle_file_accept_def
        handle_file_resume_def)

lemma listed_mem [simp]:
  "FileOffer \<in> set listed_types" "FileAccept \<in> set listed_types" "FileChunk \<in> set listed_types"
  "FileChunkAck \<in> set listed_types" "FileComplete \<in> set listed_types" "MsgSend \<in> set listed_types"
  "MsgAck \<in> set listed_types" "Ping \<in> set listed_types" "Pong \<in> set listed_types"
  "PeerAnnounce \<in> set listed_types" "PeerDiscover \<in> set listed_types"
  by (simp_all add: listed_types_def)

section \<open>The receiving side\<close>

text \<open>What the receiving node needs: faithful codecs, a database and a disk that work, and a
  readable, writable destination.\<close>

definition node_ok :: "'x env_scheme \<Rightarrow> bool" where
  "node_ok E \<longleftrightarrow> cbor_laws E \<and> base64_laws E \<and> digest_laws E \<and> sql_reliable E \<and> sockets_reliable E \<and> disk_reliable E"

lemma node_okD:
  assumes "node_ok E"
  shows "cbor_laws E" "base64_laws E" "digest_laws E" "sql_reliable E" "sockets_reliable E" "disk_reliable E"
  using assms by (simp_all add: node_ok_def)

definition path_ok :: "'x env_scheme \<Rightarrow> string \<Rightarrow> bool" where
  "path_ok E path \<longleftrightarrow> (\<forall>t. os_readable E t path) \<and> (\<forall>t. os_writable E t path)"

text \<open>The receiver holds the first bytes of the file.\<close>

definition holding :: "string \<Rightarrow> string \<Rightarrow> string \<Rightarrow> u64 \<Rightarrow> bytes \<Rightarrow> world \<Rightarrow> bool" where
  "holding i f path n got w \<longleftrightarrow>
     (\<exists>r. sql_get_transfer i (db w) = Some r \<and> t_filepath r = path \<and> t_total_bytes r = n
        \<and> t_filename r = f \<and> \<not> t_outbound r)
   \<and> path \<notin> dirs w \<and> (got = [] \<or> files w path = Some got)"

lemma holding_frame: "holding i f path n got w \<Longrightarrow> sock_frame s w k w' \<Longrightarrow> holding i f path n got w'"
  by (simp add: holding_def sock_frame_fields)

lemma offset_word:
  assumes "n < 2 ^ 63"
  shows "0 \<le> sint (word_of_nat n :: u64)" "(word_of_nat n :: u64) = 0 \<longleftrightarrow> n = 0"
proof -
  have u: "unat (word_of_nat n :: u64) = n" using assms by (simp add: unat_of_nat)
  have "(word_of_nat n :: u64) = 0 \<longleftrightarrow> unat (word_of_nat n :: u64) = 0"
    by (simp only: unat_eq_0)
  then show "(word_of_nat n :: u64) = 0 \<longleftrightarrow> n = 0" by (simp only: u)
  have "uint (word_of_nat n :: u64) = int (unat (word_of_nat n :: u64))" by simp
  then have "uint (word_of_nat n :: u64) = int n" by (simp only: u)
  then show "0 \<le> sint (word_of_nat n :: u64)"
    using assms by (simp add: sint_uint signed_take_bit_int_eq_self)
qed

lemma chunk_round:
  assumes ok: "node_ok E" "path_ok E path" and h: "holding i f path n got w"
    and k: "socks w s = Some k" and len: "length got < 2 ^ 63" "b \<noteq> []"
    and w': "w' = handle_file_chunk E (to_cbor E (chunk_json E i x (word_of_nat (length got)) b)) s w"
    and fit: "length (to_cbor E (ack_json i (word_of_nat (length got) + word_of_nat (length b)))) + HEADER_SIZE < 2 ^ 32"
  shows "holding i f path n (got @ b) w'"
    "socks w' = (socks w)(s \<mapsto> k\<lparr>s_sent := s_sent k @ serialize_packet E FileChunkAck
        (to_cbor E (ack_json i (word_of_nat (length got) + word_of_nat (length b)))) []\<rparr>)"
proof -
  from h obtain r where r: "sql_get_transfer i (db w) = Some r" "t_filepath r = path" "t_total_bytes r = n"
    "t_filename r = f" "\<not> t_outbound r" and d: "path \<notin> dirs w" and g: "got = [] \<or> files w path = Some got"
    by (auto simp: holding_def)
  note e = handle_file_chunk_accepts [OF node_okD(1,2,4,5,6) [OF ok(1)] k r(1) _ _ offset_word(1) [OF len(1)] w' fit,
      unfolded r(2), OF _ d]
  have wr: "\<forall>t. os_writable E t path" using ok(2) by (simp add: path_ok_def)
  note e = e [OF wr]
  have "chunk_written (word_of_nat (length got)) (files w path) b = got @ b"
    using g offset_word(2) [OF len(1)] by (auto simp: chunk_written_def)
  with e(1) have "files w' path = Some (got @ b)" by simp
  moreover obtain now where "db w' = sql_update_transfer i (word_of_nat (length got) + word_of_nat (length b)) InProgress now (db w)"
    using e(2) by blast
  then have "sql_get_transfer i (db w') = Some (progress (word_of_nat (length got) + word_of_nat (length b), InProgress, now) r)"
    using ts.lookup_upd [of i i "(word_of_nat (length got) + word_of_nat (length b), InProgress, now)" "db w"] r(1) by simp
  ultimately show "holding i f path n (got @ b) w'"
    using r d e(4) by (auto simp: holding_def progress_def)
  show "socks w' = (socks w)(s \<mapsto> k\<lparr>s_sent := s_sent k @ serialize_packet E FileChunkAck
        (to_cbor E (ack_json i (word_of_nat (length got) + word_of_nat (length b)))) []\<rparr>)"
    by (rule e(3))
qed

lemma serve_chunks:
  assumes ok: "node_ok E" "path_ok E path" and const: "\<forall>d. peer_stream E s d = stream"
    and h: "holding i f path n got w" and k: "socks w s = Some k"
    and av: "sock_avail E s w = frames E (chunk_packets E i x (word_of_nat (length got)) bs) @ rest"
    and len: "length got + length (concat bs) < 2 ^ 63" and ne: "[] \<notin> set bs"
    and fit: "fits (chunk_packets E i x (word_of_nat (length got)) bs)" "fits (ack_packets E i (word_of_nat (length got)) bs)"
  shows "\<exists>out' w' k'. conn_loop E (app_handlers E) s out w = conn_loop E (app_handlers E) s out' w'
    \<and> holding i f path n (got @ concat bs) w' \<and> socks w' s = Some k' \<and> sock_avail E s w' = rest
    \<and> s_sent k' = s_sent k @ frames E (ack_packets E i (word_of_nat (length got)) bs)"
  using h k av len ne fit
proof (induction bs arbitrary: got w k x out)
  case Nil
  then show ?case by (intro exI [of _ out] exI [of _ w] exI [of _ k]) simp
next
  case (Cons b bs)
  let ?p = "to_cbor E (chunk_json E i x (word_of_nat (length got)) b)"
  let ?out = "out\<lparr>k_type := FileChunk, k_payload := ?p\<rparr>"
  have av: "sock_avail E s w = serialize_packet E FileChunk ?p [] @
      (frames E (chunk_packets E i (x + 1) (word_of_nat (length (got @ b))) bs) @ rest)"
    using Cons.prems(3) by simp
  have p: "length ?p < 2 ^ 32" using Cons.prems(6) by simp
  have ack: "length (to_cbor E (ack_json i (word_of_nat (length got) + word_of_nat (length b)))) + HEADER_SIZE < 2 ^ 32"
    using Cons.prems(7) by simp
  from conn_loop_packet [OF node_okD(5) [OF ok(1)] Cons.prems(2) av p listed_mem(3), of "app_handlers E" out]
  obtain w1 where f1: "sock_frame s w (k\<lparr>s_consumed := s_consumed k + (HEADER_SIZE + length ?p)\<rparr>) w1"
    and av1: "sock_avail E s w1 = frames E (chunk_packets E i (x + 1) (word_of_nat (length (got @ b))) bs) @ rest"
    and l1: "conn_loop E (app_handlers E) s out w =
      conn_loop E (app_handlers E) s ?out (handle_file_chunk E ?p s w1)"
    by (auto simp: closing_type_def app_handler_simps)
  define w2 where "w2 = handle_file_chunk E ?p s w1"
  have h1: "holding i f path n got w1" using Cons.prems(1) f1 by (rule holding_frame)
  have b: "b \<noteq> []" "length got < 2 ^ 63" using Cons.prems(4,5) by auto
  note c = chunk_round [OF ok h1 sock_frame_sock [OF f1] b(2,1) w2_def ack]
  let ?k2 = "k\<lparr>s_consumed := s_consumed k + (HEADER_SIZE + length ?p),
     s_sent := s_sent k @ serialize_packet E FileChunkAck
        (to_cbor E (ack_json i (word_of_nat (length got) + word_of_nat (length b)))) []\<rparr>"
  have k2: "socks w2 s = Some ?k2" using c(2) by simp
  have av2: "sock_avail E s w2 = frames E (chunk_packets E i (x + 1) (word_of_nat (length (got @ b))) bs) @ rest"
    using av1 sock_avail_const [OF const k2] sock_avail_const [OF const sock_frame_sock [OF f1]] by simp
  have "length (got @ b) + length (concat bs) < 2 ^ 63" "[] \<notin> set bs"
    "fits (chunk_packets E i (x + 1) (word_of_nat (length (got @ b))) bs)"
    "fits (ack_packets E i (word_of_nat (length (got @ b))) bs)"
    using Cons.prems(4-7) by simp_all
  from Cons.IH [OF c(1) k2 av2 this, of ?out] show ?case
    unfolding l1 w2_def [symmetric] by simp
qed

lemma serve_offer:
  assumes ok: "node_ok E" and const: "\<forall>d. peer_stream E s d = stream"
    and k: "socks w s = Some k"
    and av: "sock_avail E s w = frames E [offer_packet E i f n c sender] @ rest"
    and path: "path = path_append (c_received_dir (cfg w)) (sanitize_filename f)" "path \<notin> dirs w" "nul_free path"
    and new: "\<forall>r. sql_get_transfer i (db w) = Some r \<longrightarrow> t_state r \<noteq> Paused"
    and fit: "fits [offer_packet E i f n c sender]" "fits [accept_packet E i]"
  shows "\<exists>out' w' k'. conn_loop E (app_handlers E) s out w = conn_loop E (app_handlers E) s out' w'
    \<and> holding i (c_str (sanitize_filename f)) path n [] w' \<and> socks w' s = Some k' \<and> sock_avail E s w' = rest
    \<and> s_sent k' = s_sent k @ frames E [accept_packet E i] \<and> files w' = files w"
proof -
  let ?p = "to_cbor E (offer_json i f n c sender)"
  let ?out = "out\<lparr>k_type := FileOffer, k_payload := ?p\<rparr>"
  have av: "sock_avail E s w = serialize_packet E FileOffer ?p [] @ rest"
    using av by (simp add: offer_packet_def)
  have p: "length ?p < 2 ^ 32" "length (to_cbor E (accept_json i)) + HEADER_SIZE < 2 ^ 32"
    using fit by (simp_all add: offer_packet_def accept_packet_def)
  from conn_loop_packet [OF node_okD(5) [OF ok] k av p(1) listed_mem(1), of "app_handlers E" out]
  obtain w1 where f1: "sock_frame s w (k\<lparr>s_consumed := s_consumed k + (HEADER_SIZE + length ?p)\<rparr>) w1"
    and av1: "sock_avail E s w1 = rest"
    and l1: "conn_loop E (app_handlers E) s out w =
      conn_loop E (app_handlers E) s ?out (handle_file_offer E ?p s w1)"
    by (auto simp: closing_type_def app_handler_simps)
  define w2 where "w2 = handle_file_offer E ?p s w1"
  have new1: "\<forall>r. sql_get_transfer i (db w1) = Some r \<longrightarrow> t_state r \<noteq> Paused"
    using new by (simp add: sock_frame_fields [OF f1])
  note e = handle_file_offer_accepts [OF node_okD(1,4,5) [OF ok] sock_frame_sock [OF f1] p(2) new1 w2_def]
  obtain u v where "db w2 = sql_upsert_transfer (inbound_record i sender (sanitize_filename f) path n c u v) (db w1)"
    using e(1) path(1) by (auto simp: sock_frame_fields [OF f1])
  then have "sql_get_transfer i (db w2) = Some (norm_transfer (inbound_record i sender (sanitize_filename f) path n c u v))"
    using ts.lookup_same [of "inbound_record i sender (sanitize_filename f) path n c u v" "db w1"]
    by (simp add: inbound_record_def)
  then have h: "holding i (c_str (sanitize_filename f)) path n [] w2"
    using path(2,3) e(4) by (simp add: holding_def norm_transfer_def inbound_record_def sock_frame_fields [OF f1])
  let ?k2 = "k\<lparr>s_consumed := s_consumed k + (HEADER_SIZE + length ?p), s_sent := s_sent k @ frames E [accept_packet E i]\<rparr>"
  have k2: "socks w2 s = Some ?k2" using e(2) by (simp add: accept_packet_def)
  have "sock_avail E s w2 = rest"
    using av1 sock_avail_const [OF const k2] sock_avail_const [OF const sock_frame_sock [OF f1]] by simp
  with h k2 e(3) sock_frame_fields(1) [OF f1] show ?thesis unfolding l1 w2_def [symmetric]
    by (intro exI [of _ ?out] exI [of _ w2] exI [of _ ?k2]) simp
qed

text \<open>The frames of a transfer up to its last chunk.\<close>

definition offered :: "'x lib_scheme \<Rightarrow> string \<Rightarrow> string \<Rightarrow> u64 \<Rightarrow> string \<Rightarrow> string \<Rightarrow> bytes list \<Rightarrow> packet list" where
  "offered L i f n c sender bs = offer_packet L i f n c sender # chunk_packets L i 0 0 bs"

definition answered :: "'x lib_scheme \<Rightarrow> string \<Rightarrow> bytes list \<Rightarrow> packet list" where
  "answered L i bs = accept_packet L i # ack_packets L i 0 bs"

lemma frames_Cons: "frames L (p # ps) = frames L [p] @ frames L ps"
  by (cases p) simp

lemma fits_Cons: "fits (p # ps) \<longleftrightarrow> fits [p] \<and> fits ps"
  by (cases p) simp

lemma serve_offered:
  assumes ok: "node_ok E" "path_ok E path" and const: "\<forall>d. peer_stream E s d = stream"
    and k: "socks w s = Some k"
    and av: "sock_avail E s w = frames E (offered E i f n c sender bs) @ rest"
    and path: "path = path_append (c_received_dir (cfg w)) (sanitize_filename f)" "path \<notin> dirs w" "nul_free path"
    and new: "\<forall>r. sql_get_transfer i (db w) = Some r \<longrightarrow> t_state r \<noteq> Paused"
    and fit: "fits (offered E i f n c sender bs)" "fits (answered E i bs)"
    and bs: "length (concat bs) < 2 ^ 63" "[] \<notin> set bs"
  shows "\<exists>out' w' k'. conn_loop E (app_handlers E) s out w = conn_loop E (app_handlers E) s out' w'
    \<and> holding i (c_str (sanitize_filename f)) path n (concat bs) w' \<and> socks w' s = Some k' \<and> sock_avail E s w' = rest
    \<and> s_sent k' = s_sent k @ frames E (answered E i bs)"
proof -
  have "sock_avail E s w = frames E [offer_packet E i f n c sender] @ (frames E (chunk_packets E i 0 0 bs) @ rest)"
    using av by (simp add: offered_def frames_Cons [of E _ "chunk_packets E i 0 0 bs"])
  moreover have fit1: "fits [offer_packet E i f n c sender]" "fits (chunk_packets E i 0 0 bs)"
    using fit(1) fits_Cons [of "offer_packet E i f n c sender" "chunk_packets E i 0 0 bs"]
    unfolding offered_def by blast+
  moreover have fit2: "fits [accept_packet E i]" "fits (ack_packets E i 0 bs)"
    using fit(2) fits_Cons [of "accept_packet E i" "ack_packets E i 0 bs"]
    unfolding answered_def by blast+
  ultimately obtain out1 w1 k1 where
    l1: "conn_loop E (app_handlers E) s out w = conn_loop E (app_handlers E) s out1 w1"
    and h1: "holding i (c_str (sanitize_filename f)) path n [] w1" and k1: "socks w1 s = Some k1"
    and av1: "sock_avail E s w1 = frames E (chunk_packets E i 0 0 bs) @ rest"
    and s1: "s_sent k1 = s_sent k @ frames E [accept_packet E i]"
    using serve_offer [OF ok(1) const k _ path new fit1(1) fit2(1), of _ out] by blast
  from serve_chunks [OF ok const h1 k1, of 0 bs rest out1] av1 bs fit1(2) fit2(2)
  show ?thesis unfolding l1 using s1 by (simp add: answered_def frames_Cons [of E _ "ack_packets E i 0 bs"])
qed

text \<open>The last packet: the digest is compared and the transfer is closed.\<close>

lemma serve_complete:
  assumes ok: "node_ok E" "path_ok E path" and k: "socks w s = Some k"
    and h: "holding i f path n got w" and got: "got \<noteq> []"
    and av: "sock_avail E s w = frames E [complete_packet E i (sha256_bytes E got)] @ rest"
    and fit: "fits [complete_packet E i (sha256_bytes E got)]"
  shows "\<exists>w' r. conn_loop E (app_handlers E) s out w = Some w' \<and> files w' path = Some got
    \<and> sql_get_transfer i (db w') = Some r \<and> t_state r = Completed \<and> t_transferred_bytes r = n
    \<and> t_total_bytes r = n \<and> t_filepath r = path \<and> t_filename r = f \<and> \<not> t_outbound r"
proof -
  let ?p = "to_cbor E (complete_json i (sha256_bytes E got))"
  let ?out = "out\<lparr>k_type := FileComplete, k_payload := ?p\<rparr>"
  have av: "sock_avail E s w = serialize_packet E FileComplete ?p [] @ rest"
    using av by (simp add: complete_packet_def)
  have p: "length ?p < 2 ^ 32" using fit by (simp add: complete_packet_def)
  from conn_loop_packet [OF node_okD(5) [OF ok(1)] k av p listed_mem(5), of "app_handlers E" out]
  obtain w1 where f1: "sock_frame s w (k\<lparr>s_consumed := s_consumed k + (HEADER_SIZE + length ?p)\<rparr>) w1"
    and l1: "conn_loop E (app_handlers E) s out w = Some (handle_file_complete E ?p s w1)"
    by (auto simp: closing_type_def app_handler_simps)
  define w2 where "w2 = handle_file_complete E ?p s w1"
  from holding_frame [OF h f1] obtain r where r: "sql_get_transfer i (db w1) = Some r" "t_filepath r = path"
    "t_total_bytes r = n" "t_filename r = f" "\<not> t_outbound r" and g: "files w1 path = Some got"
    using got by (auto simp: holding_def)
  have rd: "\<forall>t. os_readable E t (t_filepath r)" using ok(2) r(2) by (simp add: path_ok_def)
  note e = handle_file_complete_effect [OF node_okD(1,3,4) [OF ok(1)] r(1) rd w2_def]
  obtain now where "db w2 = sql_update_transfer i n Completed now (db w1)"
    using e(1) g r(2,3) by auto
  then have "sql_get_transfer i (db w2) = Some (progress (n, Completed, now) r)"
    using ts.lookup_upd [of i i "(n, Completed, now)" "db w1"] r(1) by simp
  then show ?thesis
    using r e(2) g by (intro exI [of _ w2] exI [of _ "progress (n, Completed, now) r"])
      (simp add: l1 w2_def [symmetric] progress_def)
qed


section \<open>Properties\<close>


text \<open>A node that holds an accepted offer.\<close>

definition sample_holder :: world where
  "sample_holder = sample_receiver\<lparr>dirs := {''/h/shr_received/'', ''/h/shr_received/.'', ''/h/shr_received/..''}, db := sql_upsert_transfer
     (inbound_record ''t1'' ''peer'' ''a.txt'' ''/h/shr_received/a.txt'' 2 ''6869'' 0 0) (db sample_receiver)\<rparr>"

lemma sample_holder_facts:
  "cfg sample_holder = cfg sample_world" "c_received_dir (cfg sample_world) = ''/h/shr_received''"
  "holding ''t1'' ''a.txt'' ''/h/shr_received/a.txt'' 2 [] sample_holder"
  "node_inv ''/h/shr_received'' (db sample_holder)" "files sample_holder p = None"
  "socks sample_holder 0 = Some \<lparr>s_sent = [], s_consumed = 0\<rparr>"
  "dirs sample_holder = {''/h/shr_received/'', ''/h/shr_received/.'', ''/h/shr_received/..''}"
proof -
  let ?t = "inbound_record ''t1'' ''peer'' ''a.txt'' ''/h/shr_received/a.txt'' 2 ''6869'' 0 0"
  have san: "sanitize_filename ''a.txt'' = ''a.txt''"
    by (simp add: sanitize_filename_def bad_name_char_def)
  have "db_step ''/h/shr_received'' (db sample_receiver) (sql_upsert_transfer ?t (db sample_receiver))"
    by (rule db_step.offer_in [of _ _ "''a.txt''"]) (simp_all add: inbound_record_def san path_append_def)
  then show "node_inv ''/h/shr_received'' (db sample_holder)"
    using db_steps_inv [of "''/h/shr_received''" "db sample_receiver"] sample_node_inv
    by (simp add: sample_holder_def r_into_rtranclp)
  show "holding ''t1'' ''a.txt'' ''/h/shr_received/a.txt'' 2 [] sample_holder"
    using ts.lookup_same [of ?t "db sample_receiver"]
    by (simp add: holding_def sample_holder_def inbound_record_def norm_transfer_def sample_receiver_def
        sample_world_def nul_free_def)
qed (simp_all add: sample_holder_def sample_receiver_def sample_world_def)

lemma sample_path_ok: "path_ok sample_env path"
  by (simp add: path_ok_def sample_env_def)

lemma sample_node_ok [simp]: "node_ok sample_env"
  by (simp add: node_ok_def)

lemma sample_sizes:
  "length (enc_str x) = 2 * length x + 1" "length (enc_val (JStr x)) = 2 * length x + 2" "length (enc_val (JUInt n)) = 9"
  by (induction x) (simp_all add: enc_str_def)

lemma sample_ack: "length (to_cbor sample_env (ack_json ''t1'' n)) + HEADER_SIZE < 2 ^ 32"
  by (simp add: ack_json_def sample_env_def sample_sizes HEADER_SIZE_def del: enc_val.simps)

lemma sample_accept: "length (to_cbor sample_env (accept_json ''t1'')) + HEADER_SIZE < 2 ^ 32"
  by (simp add: accept_json_def sample_env_def sample_sizes HEADER_SIZE_def del: enc_val.simps)


text \<open>C4: The end of an inbound transfer. A payload that cannot be decoded, or that names an unknown
  transfer, changes neither tables nor files. Otherwise the digest of the stored content decides
  (that of a file; of nothing if the path is a directory; the empty text if there is neither): if it equals the announced one the transfer is completed with its full size, if not it has
  failed and keeps its byte count; nothing else in its record changes, no other transfer and no
  file changes, and nothing is sent.\<close>

theorem complete_checks_digest:
  assumes "digest_laws E" "sql_reliable E" and "\<forall>t p. os_readable E t p"
    and w': "w' = handle_file_complete E payload s w"
  shows "files w' = files w \<and> socks w' = socks w
    \<and> (case decode_complete E payload of
         None \<Rightarrow> db w' = db w
       | Some (i, c) \<Rightarrow>
           (case sql_get_transfer i (db w) of
              None \<Rightarrow> db w' = db w
            | Some r \<Rightarrow>
                (\<exists>now. sql_get_transfer i (db w') = Some (progress
                   (if (case stored_content w (t_filepath r) of None \<Rightarrow> [] | Some b \<Rightarrow> sha256_bytes E b) = c
                    then (t_total_bytes r, Completed, now) else (t_transferred_bytes r, Failed, now)) r))
              \<and> (\<forall>j. c_str j \<noteq> c_str i \<longrightarrow> sql_get_transfer j (db w') = sql_get_transfer j (db w))))"
proof (cases "decode_complete E payload")
  case None
  then show ?thesis by (simp add: w' handle_file_complete_def)
next
  case (Some ic)
  obtain i c where ic: "ic = (i, c)" by force
  have other: "sql_get_transfer j (sql_update_transfer i n st now T) = sql_get_transfer j T" if "c_str j \<noteq> c_str i" for j n st now T
    using ts.lookup_upd [of j i "(n, st, now)" T] that by simp
  show ?thesis
  proof (cases "sql_get_transfer i (db w)")
    case None
    with Some ic assms(2) show ?thesis by (simp add: w' handle_file_complete_def db_simps)
  next
    case (Some r)
    with \<open>decode_complete E payload = Some ic\<close> ic assms(1-3) show ?thesis
      by (auto simp: w' handle_file_complete_def db_simps sha256_file_eq ifstream_open_def stored_content_def other Let_def case_prod_beta)
  qed
qed

theorem complete_checks_digest_witness:
  "\<exists>r. sql_get_transfer ''t1'' (db (handle_file_complete sample_env
        (to_cbor sample_env (complete_json ''t1'' ''6869'')) 0
        (sample_holder\<lparr>files := [''/h/shr_received/a.txt'' \<mapsto> [104, 105]]\<rparr>))) = Some r \<and> t_state r = Completed
    \<and> t_transferred_bytes r = 2"
proof -
  let ?w = "sample_holder\<lparr>files := [''/h/shr_received/a.txt'' \<mapsto> [104, 105]]\<rparr>"
  obtain r where r: "sql_get_transfer ''t1'' (db ?w) = Some r" "t_filepath r = ''/h/shr_received/a.txt''" "t_total_bytes r = 2"
    using sample_holder_facts(3) by (auto simp: holding_def)
  have h: "sha256_bytes sample_env [104, 105] = ''6869''"
    by (simp add: sha256_bytes_def sample_env_def hex_encode_def hex2_def hex_digit_def) code_simp
  have "\<forall>t p. os_readable sample_env t p" by (simp add: sample_env_def)
  from complete_checks_digest [OF sample_digest _ this refl, of "to_cbor sample_env (complete_json ''t1'' ''6869'')" 0 ?w] r h
  show ?thesis by (auto simp: decode_complete_written progress_def)
qed

text \<open>C6: A chunk whose digest does not match, that cannot be decoded or that belongs to no known
  transfer is dropped: no file, no table and no connection changes, so it is not acknowledged.\<close>

theorem bad_chunk_ignored:
  assumes "case decode_chunk E payload of
      None \<Rightarrow> True
    | Some (i, off, b64, c) \<Rightarrow> sha256_bytes E (base64_decode E b64) \<noteq> c \<or> sql_get_transfer i (db w) = None"
    and w': "w' = handle_file_chunk E payload s w"
  shows "files w' = files w \<and> db w' = db w \<and> socks w' = socks w"
proof -
  have s: "socks (snd (get_transfer E i w)) = socks w" for i
    by (simp add: get_transfer_def sql_step_def)
  have n: "sql_get_transfer i (db w) = None \<Longrightarrow> fst (get_transfer E i w) = None" for i
    by (simp add: get_transfer_def sql_step_def)
  show ?thesis using assms(1)
    by (auto simp: w' handle_file_chunk_def n s case_prod_beta Let_def split: option.splits)
qed

theorem bad_chunk_ignored_witness:
  "db (handle_file_chunk sample_env [] 0 sample_holder) = db sample_holder
   \<and> files (handle_file_chunk sample_env (to_cbor sample_env (chunk_json sample_env ''t2'' 0 0 [1])) 0 sample_holder) = files sample_holder"
proof -
  have d: "decode_chunk sample_env [] = Some ([], 0, [], [])"
    by (simp add: decode_chunk_def sample_env_def sample_decode_def as_str_def as_u64_def)
  have n: "sql_get_transfer [] (db sample_holder) = None" "sql_get_transfer ''t2'' (db sample_holder) = None"
    by (simp_all add: sample_holder_def sql_get_transfer_def sql_upsert_transfer_def tbl_find_def tbl_replace_def
        sample_receiver_def sample_world_def transfer_to_row_def inbound_record_def c_str_def)
  have e: "decode_chunk sample_env (to_cbor sample_env (chunk_json sample_env ''t2'' 0 0 [1])) =
      Some (''t2'', 0, base64_encode sample_env [1], sha256_bytes sample_env [1])"
    by (rule decode_chunk_written) simp
  show ?thesis
    using bad_chunk_ignored [OF _ refl, where E = sample_env and payload = "[]" and w = sample_holder and s = 0]
      bad_chunk_ignored [OF _ refl, where E = sample_env and w = sample_holder and s = 0 and
        payload = "to_cbor sample_env (chunk_json sample_env ''t2'' 0 0 [1])"]
    unfolding d e by (simp add: n)
qed

text \<open>C5: A valid chunk for a known transfer is written and acknowledged. At offset 0 it becomes the
  content of the file, at any other offset it is appended to what the file holds, whatever the
  offset says; the record shows offset plus length in progress, and the acknowledgement with
  that number is the only thing sent (it has to fit below the 4 GiB a packet can have).\<close>

theorem chunk_written_and_acknowledged:
  assumes "sql_reliable E" "sockets_reliable E" "disk_reliable E" and k: "socks w s = Some k"
    and dec: "decode_chunk E payload = Some (i, off, b64, sha256_bytes E (base64_decode E b64))"
    and r: "sql_get_transfer i (db w) = Some r" "\<forall>t. os_writable E t (t_filepath r)" "t_filepath r \<notin> dirs w"
    and off: "0 \<le> sint off" and d: "d = base64_decode E b64" and w': "w' = handle_file_chunk E payload s w"
    and fit: "length (to_cbor E (ack_json i (off + word_of_nat (length d)))) + HEADER_SIZE < 2 ^ 32"
  shows "files w' = (files w)(t_filepath r \<mapsto>
        (if off = 0 then d else (case files w (t_filepath r) of None \<Rightarrow> [] | Some b \<Rightarrow> b) @ d))
    \<and> (\<exists>now. sql_get_transfer i (db w') = Some (progress (off + word_of_nat (length d), InProgress, now) r))
    \<and> socks w' = (socks w)(s \<mapsto> k\<lparr>s_sent := s_sent k @
        serialize_packet E FileChunkAck (to_cbor E (ack_json i (off + word_of_nat (length d)))) []\<rparr>)"
  using handle_file_chunk_effect [OF assms(1-3) k dec r off d w' fit] r(1)
  by (auto simp: chunk_written_def)

theorem chunk_written_and_acknowledged_witness:
  "files (handle_file_chunk sample_env (to_cbor sample_env (chunk_json sample_env ''t1'' 3 5 [7])) 0
     (sample_holder\<lparr>files := [''/h/shr_received/a.txt'' \<mapsto> [104, 105]]\<rparr>)) ''/h/shr_received/a.txt'' = Some [104, 105, 7]"
proof -
  let ?w = "sample_holder\<lparr>files := [''/h/shr_received/a.txt'' \<mapsto> [104, 105]]\<rparr>"
  obtain r where r: "sql_get_transfer ''t1'' (db ?w) = Some r" "t_filepath r = ''/h/shr_received/a.txt''"
    using sample_holder_facts(3) by (auto simp: holding_def)
  have k: "socks ?w 0 = Some \<lparr>s_sent = [], s_consumed = 0\<rparr>" using sample_holder_facts(6) by simp
  have wr: "\<forall>t. os_writable sample_env t (t_filepath r)" by (simp add: sample_env_def)
  have dir: "t_filepath r \<notin> dirs ?w" by (simp add: sample_holder_facts(7) r(2))
  have b: "base64_decode sample_env (base64_encode sample_env [7]) = [7]" by (simp add: base64_roundtrip)
  have dec: "decode_chunk sample_env (to_cbor sample_env (chunk_json sample_env ''t1'' 3 5 [7])) =
      Some (''t1'', 5, base64_encode sample_env [7], sha256_bytes sample_env (base64_decode sample_env (base64_encode sample_env [7])))"
    unfolding b by (rule decode_chunk_written) simp
  show ?thesis
    using chunk_written_and_acknowledged [OF _ _ _ k dec r(1) wr dir _ refl refl] r(2) b by (simp add: sample_ack [simplified])
qed

text \<open>C22: No transfer is ever resumed. In every state a node can reach from tables without paused
  transfers, an offer is answered with an acceptance, also for an identifier whose transfer was
  interrupted, and the stored record is replaced by a fresh one with no bytes received.\<close>

theorem offer_never_resumes:
  assumes "(node_step E)\<^sup>*\<^sup>* v w" and "node_inv (c_received_dir (cfg v)) (db v)"
    and "cbor_laws E" "sql_reliable E" "sockets_reliable E" and "socks w s = Some k"
    and "length (to_cbor E (accept_json i)) + HEADER_SIZE < 2 ^ 32"
  shows "\<exists>r. socks (handle_file_offer E (to_cbor E (offer_json i f n c sender)) s w) s =
        Some (k\<lparr>s_sent := s_sent k @ serialize_packet E FileAccept (to_cbor E (accept_json i)) []\<rparr>)
      \<and> sql_get_transfer i (db (handle_file_offer E (to_cbor E (offer_json i f n c sender)) s w)) = Some r
      \<and> t_state r = Pending \<and> t_transferred_bytes r = 0 \<and> t_total_bytes r = n"
proof -
  have "\<forall>r. sql_get_transfer i (db w) = Some r \<longrightarrow> t_state r \<noteq> Paused"
    using node_steps_inv(1) [OF assms(1,2)]
    by (auto simp: node_inv_def no_paused_def row_to_transfer_def state_of_text_def
        elim!: sql_get_transfer_row split: if_splits)
  note e = handle_file_offer_accepts [OF assms(3-7) this refl, of f n c sender]
  let ?path = "path_append (c_received_dir (cfg w)) (sanitize_filename f)"
  obtain x y where "db (handle_file_offer E (to_cbor E (offer_json i f n c sender)) s w) =
      sql_upsert_transfer (inbound_record i sender (sanitize_filename f) ?path n c x y) (db w)"
    using e(1) by blast
  with ts.lookup_same [of "inbound_record i sender (sanitize_filename f) ?path n c x y" "db w"] e(2)
  show ?thesis by (simp add: inbound_record_def norm_transfer_def)
qed

theorem offer_never_resumes_witness:
  "\<exists>r. sql_get_transfer ''t1'' (db (handle_file_offer sample_env
      (to_cbor sample_env (offer_json ''t1'' ''a.txt'' 9 ''00'' ''peer'')) 0 sample_holder)) = Some r
    \<and> t_state r = Pending \<and> t_transferred_bytes r = 0"
  using offer_never_resumes [OF rtranclp.rtrancl_refl _ sample_cbor _ _ sample_holder_facts(6), of "''t1''" "''a.txt''" 9 "''00''" "''peer''"]
    sample_holder_facts(1,2,4) by (auto simp: sample_accept [simplified])

end
