(* ===== verification/Shr_Send.thy ===== *)
theory Shr_Send
  imports Shr_Receive
begin

text \<open>
  The sending side of a transfer: what \<open>send_file\<close> puts on the wire and leaves in the database
  when the peer answers every packet.
\<close>

section \<open>The sending side\<close>

definition sender_frame :: "world \<Rightarrow> world \<Rightarrow> bool" where
  "sender_frame w w' \<longleftrightarrow> files w' = files w \<and> dirs w' = dirs w \<and> cfg w' = cfg w \<and> ident w' = ident w
     \<and> active_count w' = active_count w \<and> closed_socks w' = closed_socks w \<and> next_sock w' = next_sock w"

lemma sender_frame_refl [simp]: "sender_frame w w"
  by (simp add: sender_frame_def)

lemma sender_frame_trans: "sender_frame w w' \<Longrightarrow> sender_frame w' w'' \<Longrightarrow> sender_frame w w''"
  by (simp add: sender_frame_def)

lemma retry_send_ok: "0 < n \<Longrightarrow> fst (f w) \<Longrightarrow> retry_send n f w = f w"
  by (cases n) (auto simp: case_prod_beta prod_eq_iff)

lemma send_one_chunk_answered:
  assumes rel: "sockets_reliable E" "sql_reliable E" and k: "socks w s = Some k"
    and sent: "sent = s_sent k @ serialize_packet E FileChunk (to_cbor E (chunk_json E i x off b)) []"
    and ans: "peer_stream E s sent = prev @ serialize_packet E t p []" "s_consumed k = length prev" "length p < 2 ^ 32"
    and fit: "length (to_cbor E (chunk_json E i x off b)) + HEADER_SIZE < 2 ^ 32"
  shows "\<exists>w' now. send_one_chunk E s i sz b x off w = (Acked, off + word_of_nat (length b), w')
    \<and> socks w' = (socks w)(s \<mapsto> \<lparr>s_sent = sent, s_consumed = length (peer_stream E s sent)\<rparr>)
    \<and> db w' = sql_update_transfer i (off + word_of_nat (length b)) InProgress now (db w) \<and> sender_frame w w'"
proof -
  let ?c = "to_cbor E (chunk_json E i x off b)"
  obtain w1 where s1: "send_packet_conn E s FileChunk ?c w = (True, w1)"
    and f1: "sock_frame s w (k\<lparr>s_sent := sent\<rparr>) w1"
    using send_packet_conn_reliable [OF rel(1) k fit] sent by blast
  have av: "sock_avail E s w1 = serialize_packet E t p [] @ []"
    using sock_frame_sock [OF f1] ans by (simp add: sock_avail_def)
  let ?k1 = "k\<lparr>s_sent := sent\<rparr>"
  obtain w2 where r2: "read_packet E s no_packet w1 =
      (Some (no_packet\<lparr>k_type := packet_type_of (packet_type_code t), k_payload := p\<rparr>), w2)"
    and f2: "sock_frame s w1 (?k1\<lparr>s_consumed := s_consumed ?k1 + (HEADER_SIZE + length p)\<rparr>) w2"
    by (rule read_packet_reliable [OF rel(1) sock_frame_sock [OF f1] av ans(3)])
  have sock: "?k1\<lparr>s_consumed := s_consumed ?k1 + (HEADER_SIZE + length p)\<rparr> =
      \<lparr>s_sent = sent, s_consumed = length (peer_stream E s sent)\<rparr>"
    using ans by (simp add: serialize_length)
  have retry: "retry_send SHR_RETRY_LIMIT (send_packet_conn E s FileChunk ?c) w = (True, w1)"
    using s1 by (simp add: retry_send_ok SHR_RETRY_LIMIT_def)
  show ?thesis
    using sock_frame_trans [OF f1 f2] unfolding sock
    by (auto simp: send_one_chunk_def retry r2 db_simps rel Let_def sender_frame_def sock_frame_fields
        split: prod.split intro!: exI)
qed

text \<open>Blocks of the file as the sending loop cuts them.\<close>

lemma file_blocks_Cons:
  assumes "file_blocks SHR_CHUNK_SIZE (drop pos data) = b # bs"
  shows "b = take SHR_CHUNK_SIZE (drop pos data)" "b \<noteq> []"
    "bs = file_blocks SHR_CHUNK_SIZE (drop (pos + length b) data)" "length b = SHR_CHUNK_SIZE \<or> bs = []"
proof -
  have ne: "drop pos data \<noteq> []" and b: "b = take SHR_CHUNK_SIZE (drop pos data)"
    and bs: "bs = file_blocks SHR_CHUNK_SIZE (drop SHR_CHUNK_SIZE (drop pos data))"
    using assms by (simp_all add: file_blocks.simps [of _ "drop pos data"] split: if_splits)
  then show "b = take SHR_CHUNK_SIZE (drop pos data)" "b \<noteq> []" by auto
  have "length b = SHR_CHUNK_SIZE \<or> drop SHR_CHUNK_SIZE (drop pos data) = [] \<and> drop (pos + length b) data = []"
    using b by auto
  then show "bs = file_blocks SHR_CHUNK_SIZE (drop (pos + length b) data)" "length b = SHR_CHUNK_SIZE \<or> bs = []"
    using bs by (auto simp: add.commute file_blocks.simps [of _ "[]"])
qed

lemma file_blocks_Nil: "file_blocks SHR_CHUNK_SIZE d = [] \<longleftrightarrow> d = []"
  by (subst file_blocks.simps) (simp add: SHR_CHUNK_SIZE_def)

lemma file_blocks_nonempty: "[] \<notin> set (file_blocks k d)"
proof (induction k d rule: file_blocks.induct)
  case (1 k d)
  then show ?case by (subst file_blocks.simps) auto
qed

lemma send_chunks_answered:
  assumes rel: "sockets_reliable E" "sql_reliable E"
    and k: "socks w s = Some k" and bs: "file_blocks SHR_CHUNK_SIZE (drop pos data) = bs" and good: "good \<or> bs = []"
    and ans: "s_consumed k = length prev"
      "\<forall>j \<le> length bs. peer_stream E s (s_sent k @ frames E (chunk_packets E i x off (take j bs))) =
         prev @ frames E (ack_packets E i off (take j bs))"
    and fit: "fits (ack_packets E i off bs)" "fits (chunk_packets E i x off bs)"
  shows "\<exists>w' k'. send_chunks E s i sz data pos good x off w = (LoopDone, off + word_of_nat (length (concat bs)), w')
    \<and> socks w' = (socks w)(s \<mapsto> k') \<and> s_sent k' = s_sent k @ frames E (chunk_packets E i x off bs)
    \<and> sender_frame w w'
    \<and> (\<forall>r. sql_get_transfer i (db w) = Some r \<longrightarrow> (\<exists>a. sql_get_transfer i (db w') = Some (progress a r)))"
  using k bs good ans fit
proof (induction bs arbitrary: pos good x off w k prev)
  case Nil
  then have "drop pos data = []" by (simp only: file_blocks_Nil)
  moreover have "r = progress (t_transferred_bytes r, t_state r, t_updated_at r) r" for r :: TransferRecord
    by (simp add: progress_def)
  ultimately show ?case
    using Nil.prems(1)
    by (intro exI [of _ w] exI [of _ k])
       (auto simp: send_chunks.simps [of E s i sz data pos] fun_upd_idem Let_def intro: exI)
next
  case (Cons b bs)
  note blk = file_blocks_Cons [OF Cons.prems(2)]
  let ?off = "off + word_of_nat (length b)"
  define sent where "sent = s_sent k @ serialize_packet E FileChunk (to_cbor E (chunk_json E i x off b)) []"
  let ?ack = "serialize_packet E FileChunkAck (to_cbor E (ack_json i ?off)) []"
  have a1: "peer_stream E s sent = prev @ ?ack"
    using Cons.prems(5) [rule_format, of 1] by (simp add: sent_def)
  have fit: "length (to_cbor E (ack_json i ?off)) < 2 ^ 32" "length (to_cbor E (chunk_json E i x off b)) + HEADER_SIZE < 2 ^ 32"
    "fits (ack_packets E i ?off bs)" "fits (chunk_packets E i (x + 1) ?off bs)"
    using Cons.prems(6,7) by simp_all
  obtain w1 now where s1: "send_one_chunk E s i sz b x off w = (Acked, ?off, w1)"
    and k1: "socks w1 = (socks w)(s \<mapsto> \<lparr>s_sent = sent, s_consumed = length (peer_stream E s sent)\<rparr>)"
    and d1: "db w1 = sql_update_transfer i ?off InProgress now (db w)" and f1: "sender_frame w w1"
    using send_one_chunk_answered [OF rel Cons.prems(1) sent_def a1 Cons.prems(4) fit(1,2), of sz] by blast
  have step: "send_chunks E s i sz data pos good x off w =
      send_chunks E s i sz data (pos + length b) (length b = SHR_CHUNK_SIZE) (x + 1) ?off w1"
    using blk(1,2) Cons.prems(3) s1 by (subst send_chunks.simps) (simp add: Let_def)
  let ?k1 = "\<lparr>s_sent = sent, s_consumed = length (peer_stream E s sent)\<rparr>"
  have k1': "socks w1 s = Some ?k1" using k1 by simp
  have c1: "s_consumed ?k1 = length (prev @ ?ack)" using a1 by simp
  have ans1: "\<forall>j \<le> length bs. peer_stream E s (s_sent ?k1 @ frames E (chunk_packets E i (x + 1) ?off (take j bs))) =
      (prev @ ?ack) @ frames E (ack_packets E i ?off (take j bs))"
  proof (intro allI impI)
    fix j assume "j \<le> length bs"
    then show "peer_stream E s (s_sent ?k1 @ frames E (chunk_packets E i (x + 1) ?off (take j bs))) =
        (prev @ ?ack) @ frames E (ack_packets E i ?off (take j bs))"
      using Cons.prems(5) [rule_format, of "Suc j"] by (simp add: sent_def)
  qed
  from Cons.IH [OF k1' blk(3) [symmetric] blk(4) c1 ans1 fit(3,4)] obtain w' k' where
    "send_chunks E s i sz data (pos + length b) (length b = SHR_CHUNK_SIZE) (x + 1) ?off w1 =
      (LoopDone, ?off + word_of_nat (length (concat bs)), w')"
    "socks w' = (socks w1)(s \<mapsto> k')" "s_sent k' = s_sent ?k1 @ frames E (chunk_packets E i (x + 1) ?off bs)"
    "sender_frame w1 w'"
    "\<forall>r. sql_get_transfer i (db w1) = Some r \<longrightarrow> (\<exists>a. sql_get_transfer i (db w') = Some (progress a r))"
    by blast
  with k1 d1 sender_frame_trans [OF f1] show ?case
    unfolding step by (intro exI [of _ w'] exI [of _ k']) (auto simp: sent_def)
qed

lemma update_transfer_progress_fields:
  assumes "sql_reliable E"
  shows "socks (snd (update_transfer_progress E i n st w)) = socks w"
    "sender_frame w (snd (update_transfer_progress E i n st w))"
    "db (snd (update_transfer_progress E i n st w)) = sql_update_transfer i n st (os_now E (tick w)) (db w)"
  using assms by (simp_all add: db_simps sender_frame_def)

lemma send_body_done:
  assumes src: "\<forall>t. os_readable E t ap" "files w ap = Some data"
    and w0: "w0 = snd (update_transfer_progress E i 0 InProgress (step_tick w))"
    and loop: "send_chunks E s i sz data 0 True 0 0 (w0\<lparr>active_count := active_count w0 + 1\<rparr>) = (LoopDone, n, w2)"
    and w3: "w3 = snd (send_packet_conn E s FileComplete (to_cbor E (complete_json i c)) w2)"
    and w5: "w5 = snd (update_transfer_progress E i n Completed (close_conn s w3))"
  shows "send_body E s i ap f sz c 0 w =
      (i, print (''Transfer complete: '' @ f @ '' ('' @ format_bytes sz @ '')'' @ [CHR 0x0A])
            (w5\<lparr>active_count := active_count w5 - 1\<rparr>))"
  using src loop
  by (simp add: send_body_def ifstream_open_def w0 [symmetric] w3 [symmetric] w5 case_prod_beta Let_def)

text \<open>From the accepted offer to the end, with a peer that answers every chunk.\<close>

lemma send_body_answered:
  assumes rel: "sockets_reliable E" "sql_reliable E" and src: "\<forall>t. os_readable E t ap" "files w ap = Some data"
    and k: "socks w s = Some k" and bs: "bs = file_blocks SHR_CHUNK_SIZE data"
    and r: "sql_get_transfer i (db w) = Some r"
    and ans: "s_consumed k = length prev"
      "\<forall>j \<le> length bs. peer_stream E s (s_sent k @ frames E (chunk_packets E i 0 0 (take j bs))) =
         prev @ frames E (ack_packets E i 0 (take j bs))"
    and fit: "fits (ack_packets E i 0 bs)" "fits (chunk_packets E i 0 0 bs)" "fits [complete_packet E i c]"
  shows "\<exists>w' k' now. send_body E s i ap f sz c 0 w = (i, w')
    \<and> closed_socks w' = (closed_socks w)(s \<mapsto> k') \<and> socks w' = (socks w)(s := None)
    \<and> s_sent k' = s_sent k @ frames E (chunk_packets E i 0 0 bs @ [complete_packet E i c])
    \<and> sql_get_transfer i (db w') = Some (progress (word_of_nat (length data), Completed, now) r)
    \<and> files w' = files w \<and> active_count w' = active_count w"
proof -
  have fb: "file_blocks SHR_CHUNK_SIZE (drop 0 data) = bs" "length (concat bs) = length data"
    using bs by (simp_all add: file_blocks_concat)
  define w0 where "w0 = snd (update_transfer_progress E i 0 InProgress (step_tick w))"
  define w1 where "w1 = w0\<lparr>active_count := active_count w0 + 1\<rparr>"
  note u0 = update_transfer_progress_fields [OF rel(2), where i = i and n = 0 and st = InProgress and w = "step_tick w", folded w0_def]
  have k1: "socks w1 s = Some k" using k by (simp add: w1_def u0)
  obtain w2 k2 where
    s2: "send_chunks E s i sz data 0 True 0 0 w1 = (LoopDone, 0 + word_of_nat (length (concat bs)), w2)"
    and k2: "socks w2 = (socks w1)(s \<mapsto> k2)" "s_sent k2 = s_sent k @ frames E (chunk_packets E i 0 0 bs)"
    and f2: "sender_frame w1 w2"
    and r2: "\<forall>r. sql_get_transfer i (db w1) = Some r \<longrightarrow> (\<exists>a. sql_get_transfer i (db w2) = Some (progress a r))"
    using send_chunks_answered [OF rel k1 fb(1) _ ans fit(1,2), of True sz] by auto
  have r1: "\<exists>a. sql_get_transfer i (db w1) = Some (progress a r)"
    using r by (auto simp: w1_def u0)
  then obtain a where a: "sql_get_transfer i (db w2) = Some (progress a r)"
    using r2 by fastforce
  define w3 where "w3 = snd (send_packet_conn E s FileComplete (to_cbor E (complete_json i c)) w2)"
  have k2s: "socks w2 s = Some k2" using k2 by simp
  note s3 = send_conn_socks [OF rel(1) k2s fit(3) [unfolded complete_packet_def fits_simps, THEN conjunct1], of FileComplete, folded w3_def]
  let ?n = "word_of_nat (length data) :: u64"
  define w5 where "w5 = snd (update_transfer_progress E i ?n Completed (close_conn s w3))"
  have loop: "send_chunks E s i sz data 0 True 0 0 (w0\<lparr>active_count := active_count w0 + 1\<rparr>) = (LoopDone, ?n, w2)"
    using s2 fb(2) by (simp add: w1_def)
  note eq = send_body_done [OF src w0_def loop w3_def w5_def, of f]
  note u5 = update_transfer_progress_fields [OF rel(2), where i = i and n = ?n and st = Completed and w = "close_conn s w3", folded w5_def]
  have "sender_frame w w0" using u0(2) by (simp add: sender_frame_def)
  then have act: "active_count w5 = active_count w + 1" "files w5 = files w"
    and cl: "closed_socks w5 = (closed_socks w)(s \<mapsto> k2\<lparr>s_sent := s_sent k2 @ frames E [complete_packet E i c]\<rparr>)"
    using u5(2) f2 s3 by (simp_all add: sender_frame_def w1_def w3_def complete_packet_def)
  have sk: "socks w5 = (socks w)(s := None)"
    using u5(1) s3(1) k2(1) u0(1) by (simp add: w1_def)
  have "sql_get_transfer i (db w5) = Some (progress (?n, Completed, os_now E (tick (close_conn s w3))) r)"
    using u5(3) a by (simp add: w3_def)
  with act cl sk k2(2) show ?thesis
    unfolding eq by (intro exI conjI) (rule refl | simp add: complete_packet_def)+
qed

text \<open>Connections succeed.\<close>

definition reachable_peer :: "'x env_scheme \<Rightarrow> PeerInfo \<Rightarrow> bool" where
  "reachable_peer E p \<longleftrightarrow> p_ip p \<noteq> [] \<and> (\<forall>t. os_socket E t \<and> os_connect E t (p_ip p) (p_port p))"

lemma connect_to_ok:
  assumes "reachable_peer E p"
  shows "connect_to E (p_ip p) (p_port p) w =
    (Some (next_sock w), (step_tick (step_tick w))\<lparr>socks := (socks w)(next_sock w \<mapsto> \<lparr>s_sent = [], s_consumed = 0\<rparr>),
       next_sock := Suc (next_sock w)\<rparr>)"
  using assms by (simp add: reachable_peer_def connect_to_def Let_def step_tick_def)

lemma send_offer_accepted:
  assumes rel: "sockets_reliable E" and p: "reachable_peer E p" and s: "s = next_sock w"
    and ans: "peer_stream E s (frames E [offer_packet E i f sz c (ident w)]) = frames E [accept_packet E i]"
    and fit: "fits [accept_packet E i]" "fits [offer_packet E i f sz c (ident w)]"
  obtains w3 k3 where "send_offer E p i ap f sz c w = send_body E s i ap f sz c 0 w3"
    and "socks w3 = (socks w)(s \<mapsto> k3)" and "s_sent k3 = frames E [offer_packet E i f sz c (ident w)]"
    and "s_consumed k3 = length (frames E [accept_packet E i])" and "files w3 = files w" and "db w3 = db w"
    and "active_count w3 = active_count w" and "closed_socks w3 = closed_socks w"
proof -
  let ?o = "to_cbor E (offer_json i f sz c (ident w))"
  let ?a = "to_cbor E (accept_json i)"
  define w1 where "w1 = (step_tick (step_tick w))\<lparr>socks := (socks w)(s \<mapsto> \<lparr>s_sent = [], s_consumed = 0\<rparr>),
       next_sock := Suc s\<rparr>"
  let ?k1 = "\<lparr>s_sent = [], s_consumed = 0\<rparr>"
  have c1: "connect_to E (p_ip p) (p_port p) w = (Some s, w1)"
    using connect_to_ok [OF p] by (simp add: w1_def s)
  have k1: "socks w1 s = Some ?k1" by (simp add: w1_def)
  obtain w2 where s2: "send_packet_conn E s FileOffer ?o w1 = (True, w2)"
    and f2: "sock_frame s w1 (?k1\<lparr>s_sent := s_sent ?k1 @ serialize_packet E FileOffer ?o []\<rparr>) w2"
    using send_packet_conn_reliable [OF rel k1] fit(2) by (auto simp: offer_packet_def)
  let ?k2 = "?k1\<lparr>s_sent := s_sent ?k1 @ serialize_packet E FileOffer ?o []\<rparr>"
  have av: "sock_avail E s w2 = serialize_packet E FileAccept ?a [] @ []"
    using sock_frame_sock [OF f2] ans by (simp add: sock_avail_def offer_packet_def accept_packet_def)
  have la: "length ?a < 2 ^ 32" using fit(1) by (simp add: accept_packet_def)
  obtain w3 where r3: "read_packet E s no_packet w2 =
      (Some (no_packet\<lparr>k_type := packet_type_of (packet_type_code FileAccept), k_payload := ?a\<rparr>), w3)"
    and f3: "sock_frame s w2 (?k2\<lparr>s_consumed := s_consumed ?k2 + (HEADER_SIZE + length ?a)\<rparr>) w3"
    by (rule read_packet_reliable [OF rel sock_frame_sock [OF f2] av la])
  define k3 where "k3 = ?k2\<lparr>s_consumed := s_consumed ?k2 + (HEADER_SIZE + length ?a)\<rparr>"
  have "send_offer E p i ap f sz c w = send_body E s i ap f sz c 0 w3"
    using c1 s2 r3 by (simp add: send_offer_def Let_def)
  then show ?thesis
    by (rule that [of w3 k3])
       (simp_all add: sock_frame_fields [OF f3] sock_frame_fields [OF f2] w1_def k3_def offer_packet_def
          accept_packet_def serialize_length)
qed

lemma send_offer_answered:
  assumes rel: "sockets_reliable E" "sql_reliable E" and src: "\<forall>t. os_readable E t ap" "files w ap = Some data"
    and p: "reachable_peer E p" and s: "s = next_sock w" and bs: "bs = file_blocks SHR_CHUNK_SIZE data"
    and r: "sql_get_transfer i (db w) = Some r"
    and ans: "\<forall>j \<le> length bs. peer_stream E s (frames E (offered E i f sz c (ident w) (take j bs))) =
         frames E (answered E i (take j bs))"
    and fit: "fits (answered E i bs)" "fits (offered E i f sz c (ident w) bs @ [complete_packet E i c])"
  shows "\<exists>w' k' now. send_offer E p i ap f sz c w = (i, w')
    \<and> closed_socks w' = (closed_socks w)(s \<mapsto> k') \<and> socks w' = (socks w)(s := None)
    \<and> s_sent k' = frames E (offered E i f sz c (ident w) bs @ [complete_packet E i c])
    \<and> sql_get_transfer i (db w') = Some (progress (word_of_nat (length data), Completed, now) r)
    \<and> files w' = files w \<and> active_count w' = active_count w"
proof -
  have a0: "peer_stream E s (frames E [offer_packet E i f sz c (ident w)]) = frames E [accept_packet E i]"
    using ans [rule_format, of 0] by (simp add: offered_def answered_def)
  have f0: "fits [accept_packet E i]" "fits (ack_packets E i 0 bs)" "fits [offer_packet E i f sz c (ident w)]"
    "fits (chunk_packets E i 0 0 bs)" "fits [complete_packet E i c]"
    using fit by (simp_all add: answered_def accept_packet_def offered_def offer_packet_def)
  obtain w3 k3 where eq: "send_offer E p i ap f sz c w = send_body E s i ap f sz c 0 w3"
    and k3: "socks w3 = (socks w)(s \<mapsto> k3)" "s_sent k3 = frames E [offer_packet E i f sz c (ident w)]"
      "s_consumed k3 = length (frames E [accept_packet E i])"
    and fr: "files w3 = files w" "db w3 = db w" "active_count w3 = active_count w" "closed_socks w3 = closed_socks w"
    by (rule send_offer_accepted [OF rel(1) p s a0 f0(1,3)])
  have ans3: "\<forall>j \<le> length bs. peer_stream E s (s_sent k3 @ frames E (chunk_packets E i 0 0 (take j bs))) =
         frames E [accept_packet E i] @ frames E (ack_packets E i 0 (take j bs))"
    using ans by (simp add: k3(2) offered_def answered_def offer_packet_def accept_packet_def)
  have "files w3 ap = Some data" "socks w3 s = Some k3" "sql_get_transfer i (db w3) = Some r" using fr src r k3 by simp_all
  from send_body_answered [OF rel src(1) this(1,2) bs this(3) k3(3) ans3 f0(2,4,5), of f sz]
  obtain w' k' now where b: "send_body E s i ap f sz c 0 w3 = (i, w')"
    "closed_socks w' = (closed_socks w3)(s \<mapsto> k')" "socks w' = (socks w3)(s := None)"
    "s_sent k' = s_sent k3 @ frames E (chunk_packets E i 0 0 bs @ [complete_packet E i c])"
    "sql_get_transfer i (db w') = Some (progress (word_of_nat (length data), Completed, now) r)"
    "files w' = files w3" "active_count w' = active_count w3" by blast
  show ?thesis unfolding eq
    by (rule exI [of _ w'], rule exI [of _ k'], rule exI [of _ now])
       (simp add: b fr k3 offered_def offer_packet_def)
qed

definition transfer_id :: "'x env_scheme \<Rightarrow> world \<Rightarrow> string" where
  "transfer_id E w = fst (generate_uuid E (w\<lparr>tick := tick w + 2\<rparr>))"

definition outbound_record :: "string \<Rightarrow> string \<Rightarrow> string \<Rightarrow> string \<Rightarrow> u64 \<Rightarrow> string \<Rightarrow> int \<Rightarrow> int \<Rightarrow> TransferRecord" where
  "outbound_record i peer f path n c created updated =
     \<lparr>t_id = i, t_peer_id = peer, t_filename = f, t_filepath = path, t_total_bytes = n,
      t_transferred_bytes = 0, t_state = Pending, t_checksum = c, t_created_at = created,
      t_updated_at = updated, t_outbound = True\<rparr>"

text \<open>The guards of \<open>send_file\<close> all pass.\<close>

definition may_send :: "'x env_scheme \<Rightarrow> string \<Rightarrow> string \<Rightarrow> string \<Rightarrow> bytes \<Rightarrow> PeerInfo \<Rightarrow> world \<Rightarrow> bool" where
  "may_send E filepath rid ap data p w \<longleftrightarrow>
     is_valid_uuid rid \<and> os_canonical E filepath = Some ap \<and> files w ap = Some data
   \<and> (\<forall>t. os_readable E t ap) \<and> sql_get_peer rid (db w) = Some p \<and> reachable_peer E p
   \<and> active_count w < SHR_MAX_CONCURRENT"

lemma generate_uuid_tick: "tick w = tick w' \<Longrightarrow> fst (generate_uuid E w) = fst (generate_uuid E w')"
  by (simp add: generate_uuid_def rand_bytes_def Let_def)

lemma send_file_offers:
  assumes rel: "sql_reliable E" "digest_laws E" and may: "may_send E filepath rid ap data p w"
  obtains w1 x y where "send_file E filepath rid w =
      send_offer E p (transfer_id E w) ap (path_filename ap) (word_of_nat (length data)) (sha256_bytes E data) w1"
    and "db w1 = sql_upsert_transfer (outbound_record (transfer_id E w) rid (path_filename ap) ap
        (word_of_nat (length data)) (sha256_bytes E data) x y) (db w)"
    and "quiet w (w1\<lparr>db := db w\<rparr>)" and "socks w1 = socks w" and "next_sock w1 = next_sock w"
    and "closed_socks w1 = closed_socks w"
proof -
  let ?w = "step_tick (step_tick w)"
  have sh: "sha256_file E ap (step_tick w) = (sha256_bytes E data, ?w)"
    using may rel(2) by (simp add: sha256_file_eq ifstream_open_def may_send_def)
  have id: "fst (generate_uuid E ?w) = transfer_id E w"
    unfolding transfer_id_def by (rule generate_uuid_tick) simp
  let ?rec = "outbound_record (transfer_id E w) rid (path_filename ap) ap (word_of_nat (length data))
     (sha256_bytes E data) (os_now E (tick w + 3)) (os_now E (tick w + 4))"
  let ?w1 = "(step_tick (step_tick (step_tick (step_tick ?w))))\<lparr>db := sql_upsert_transfer ?rec (db w)\<rparr>"
  have "send_file E filepath rid w =
      send_offer E p (transfer_id E w) ap (path_filename ap) (word_of_nat (length data)) (sha256_bytes E data) ?w1"
    using may sh
    by (simp add: send_file_def may_send_def reachable_peer_def find_peer_def db_simps rel(1) id now_unix_def
        generate_uuid_world upsert_methods outbound_record_def file_size_def case_prod_beta Let_def numeral_eq_Suc)
  then show ?thesis by (rule that) (simp_all add: quiet_def)
qed

lemma send_file_answered:
  assumes rel: "sockets_reliable E" "sql_reliable E" "digest_laws E"
    and may: "may_send E filepath rid ap data p w"
    and defs: "s = next_sock w" "i = transfer_id E w" "bs = file_blocks SHR_CHUNK_SIZE data"
      "f = path_filename ap" "n = word_of_nat (length data)" "c = sha256_bytes E data"
    and ans: "\<forall>j \<le> length bs. peer_stream E s (frames E (offered E i f n c (ident w) (take j bs))) =
         frames E (answered E i (take j bs))"
    and fit: "fits (answered E i bs)" "fits (offered E i f n c (ident w) bs @ [complete_packet E i c])"
  shows "\<exists>w' k' r. send_file E filepath rid w = (i, w')
    \<and> closed_socks w' s = Some k' \<and> socks w' = (socks w)(s := None)
    \<and> s_sent k' = frames E (offered E i f n c (ident w) bs @ [complete_packet E i c])
    \<and> sql_get_transfer i (db w') = Some r \<and> t_state r = Completed \<and> t_transferred_bytes r = n
    \<and> t_total_bytes r = n \<and> t_outbound r \<and> files w' = files w \<and> active_count w' = active_count w"
proof -
  obtain w1 x y where eq: "send_file E filepath rid w = send_offer E p i ap f n c w1"
    and d1: "db w1 = sql_upsert_transfer (outbound_record i rid f ap n c x y) (db w)"
    and q1: "quiet w (w1\<lparr>db := db w\<rparr>)" and s1: "socks w1 = socks w" "next_sock w1 = next_sock w"
      "closed_socks w1 = closed_socks w"
    using send_file_offers [OF rel(2,3) may] unfolding defs by metis
  let ?r = "norm_transfer (outbound_record i rid f ap n c x y)"
  have r: "sql_get_transfer i (db w1) = Some ?r"
    using ts.lookup_same [of "outbound_record i rid f ap n c x y" "db w"] d1 by (simp add: outbound_record_def)
  have fr: "files w1 = files w" "ident w1 = ident w" "active_count w1 = active_count w"
    using q1 by (simp_all add: quiet_def)
  have src: "\<forall>t. os_readable E t ap" "files w1 ap = Some data" "reachable_peer E p"
    using may fr by (simp_all add: may_send_def)
  have sn: "s = next_sock w1" using defs s1 by simp
  from send_offer_answered [OF rel(1,2) src sn defs(3) r, of f n c, unfolded fr, OF ans fit]
  obtain w' k' now where b: "send_offer E p i ap f n c w1 = (i, w')"
    "closed_socks w' = (closed_socks w1)(s \<mapsto> k')" "socks w' = (socks w1)(s := None)"
    "s_sent k' = frames E (offered E i f n c (ident w) bs @ [complete_packet E i c])"
    "sql_get_transfer i (db w') = Some (progress (n, Completed, now) ?r)"
    "files w' = files w" "active_count w' = active_count w" unfolding defs by blast
  show ?thesis unfolding eq
    by (rule exI [of _ w'], rule exI [of _ k'], rule exI [of _ "progress (n, Completed, now) ?r"])
       (simp add: b s1 progress_def norm_transfer_def outbound_record_def)
qed

lemma read_packet_silent:
  assumes k: "socks w s = Some k" and av: "sock_avail E s w = []"
  obtains w' where "read_packet E s out w = (None, w')" and "sock_frame s w k w'"
proof -
  obtain r w1 where r: "read_packet E s out w = (r, w1)" by fastforce
  from read_packet_consumes [OF k r] av obtain n where
    n: "sock_frame s w (k\<lparr>s_consumed := s_consumed k + n\<rparr>) w1" "n \<le> 0" "r \<noteq> None \<longrightarrow> HEADER_SIZE \<le> n" by auto
  then have "r = None" by (cases r) (auto simp: HEADER_SIZE_def)
  with n r that show ?thesis by simp
qed

lemma send_body_unanswered:
  assumes rel: "sockets_reliable E" "sql_reliable E" and src: "\<forall>t. os_readable E t ap" "files w ap = Some data"
    and k: "socks w s = Some k" and data: "data \<noteq> []" and r: "sql_get_transfer i (db w) = Some r"
    and ans: "\<forall>d. peer_stream E s d = prev" "s_consumed k = length prev"
    and fit: "length (to_cbor E (chunk_json E i 0 0 (take SHR_CHUNK_SIZE data))) + HEADER_SIZE < 2 ^ 32"
  shows "\<exists>w' now. send_body E s i ap f sz c 0 w = (i, w')
    \<and> sql_get_transfer i (db w') = Some (progress (0, Completed, now) r)"
proof -
  define w0 where "w0 = snd (update_transfer_progress E i 0 InProgress (step_tick w))"
  define w1 where "w1 = w0\<lparr>active_count := active_count w0 + 1\<rparr>"
  note u0 = update_transfer_progress_fields [OF rel(2), where i = i and n = 0 and st = InProgress and w = "step_tick w", folded w0_def]
  let ?b = "take SHR_CHUNK_SIZE data"
  let ?p = "to_cbor E (chunk_json E i 0 0 ?b)"
  have k1: "socks w1 s = Some k" using k by (simp add: w1_def u0)
  obtain w2 where s2: "send_packet_conn E s FileChunk ?p w1 = (True, w2)"
    and f2: "sock_frame s w1 (k\<lparr>s_sent := s_sent k @ serialize_packet E FileChunk ?p []\<rparr>) w2"
    by (rule send_packet_conn_reliable [OF rel(1) k1 fit])
  have av: "sock_avail E s w2 = []" using sock_frame_sock [OF f2] ans by (simp add: sock_avail_def)
  obtain w3 where r3: "read_packet E s no_packet w2 = (None, w3)"
    and f3: "sock_frame s w2 (k\<lparr>s_sent := s_sent k @ serialize_packet E FileChunk ?p []\<rparr>) w3"
    by (rule read_packet_silent [OF sock_frame_sock [OF f2] av])
  have retry: "retry_send SHR_RETRY_LIMIT (send_packet_conn E s FileChunk ?p) w1 = (True, w2)"
    using s2 by (simp add: retry_send_ok SHR_RETRY_LIMIT_def)
  define w4 where "w4 = eprint ([CHR 0x0A] @ ''error: no chunk ack'' @ [CHR 0x0A]) w3"
  have "send_one_chunk E s i sz ?b 0 0 w1 = (NoAck, 0, w4)"
    by (simp add: send_one_chunk_def retry r3 w4_def Let_def)
  then have loop: "send_chunks E s i sz data 0 True 0 0 w1 = (LoopDone, 0, w4)"
    using data by (subst send_chunks.simps) (simp add: Let_def)
  have d4: "sql_get_transfer i (db w4) = Some (progress (0, InProgress, os_now E (tick (step_tick w))) r)"
    using r by (simp add: w4_def sock_frame_fields [OF f3] sock_frame_fields [OF f2] w1_def u0)
  define w5 where "w5 = snd (send_packet_conn E s FileComplete (to_cbor E (complete_json i c)) w4)"
  define w6 where "w6 = snd (update_transfer_progress E i 0 Completed (close_conn s w5))"
  have "sql_get_transfer i (db w6) = Some (progress (0, Completed, os_now E (tick (close_conn s w5))) r)"
    using d4 by (simp only: w6_def update_transfer_progress_fields [OF rel(2)]) (simp add: w5_def)
  with send_body_done [OF src w0_def loop [unfolded w1_def] w5_def w6_def, of f] show ?thesis by auto
qed

section \<open>What sending leaves behind\<close>

lemma update_transfer_frame [simp]:
  "socks (snd (update_transfer_progress E i n st w)) = socks w"
  "next_sock (snd (update_transfer_progress E i n st w)) = next_sock w"
  "active_count (snd (update_transfer_progress E i n st w)) = active_count w"
  by (simp_all add: update_transfer_progress_def now_unix_def Let_def)

lemma reads_socks [simp]:
  "socks (snd (find_peer E i w)) = socks w" "socks (snd (sha256_file E p w)) = socks w"
  "socks (snd (generate_uuid E w)) = socks w" "socks (snd (now_unix E w)) = socks w"
  "next_sock (snd (find_peer E i w)) = next_sock w" "next_sock (snd (sha256_file E p w)) = next_sock w"
  "next_sock (snd (generate_uuid E w)) = next_sock w" "next_sock (snd (now_unix E w)) = next_sock w"
  by (simp_all add: find_peer_def get_peer_def sql_step_def sha256_file_def ifstream_open_def generate_uuid_world
      now_unix_def Let_def split: option.split)

lemma others_send_one_chunk: "others s w w' \<Longrightarrow> others s w (snd (snd (send_one_chunk E s i sz b x off w')))"
  by (simp add: send_one_chunk_def update_transfer_progress_def now_unix_def case_prod_beta Let_def others_traffic
      split: option.split)

lemma active_send_one_chunk: "active_count (snd (snd (send_one_chunk E s i sz b x off w))) = active_count w"
  using quiet_retry_send [of "send_packet_conn E s t p" w n for t p n]
  by (simp add: send_one_chunk_def case_prod_beta Let_def quiet_def split: option.split)

lemma send_chunks_frame:
  "others s w w' \<Longrightarrow> others s w (snd (snd (send_chunks E s i sz data pos good x off w')))"
  "active_count (snd (snd (send_chunks E s i sz data pos good x off w))) = active_count w"
  by (erule send_chunks_invariant [where P = "others s w", rotated], erule others_send_one_chunk)
     (rule send_chunks_invariant [where P = "\<lambda>w'. active_count w' = active_count w"], simp_all add: active_send_one_chunk)

lemma send_failed_frame [simp]:
  "socks (snd (send_failed E i n w)) = socks w" "active_count (snd (send_failed E i n w)) = active_count w"
  by (simp_all add: send_failed_def case_prod_beta Let_def)

lemma send_body_frame:
  "others s w (snd (send_body E s i ap f sz c off w)) \<and> socks (snd (send_body E s i ap f sz c off w)) s = None
   \<and> active_count (snd (send_body E s i ap f sz c off w)) = active_count w"
proof -
  obtain fl w1 where f: "ifstream_open E ap w = (fl, w1)" and w1: "w1 = step_tick w"
    by (simp add: ifstream_open_def)
  show ?thesis
  proof (cases fl)
    case None
    with f w1 show ?thesis by (simp add: send_body_def others_def)
  next
    case (Some data)
    define w2 where "w2 = (snd (update_transfer_progress E i off InProgress w1))\<lparr>active_count := active_count w + 1\<rparr>"
    obtain out n w3 where s: "send_chunks E s i sz data (unat off) (0 \<le> sint off) (off div word_of_nat SHR_CHUNK_SIZE) off w2 = (out, n, w3)"
      by (metis prod_cases3)
    have o: "others s w w3" "active_count w3 = active_count w + 1"
      using send_chunks_frame(1) [of s w w2 E i sz data "unat off" "0 \<le> sint off" "off div word_of_nat SHR_CHUNK_SIZE" off]
        send_chunks_frame(2) [of E s i sz data "unat off" "0 \<le> sint off" "off div word_of_nat SHR_CHUNK_SIZE" off w2] s
      by (simp_all add: w2_def w1 others_def)
    have "others s w (snd (send_packet_conn E s t p w3))" for t p using o(1) by (rule others_send)
    with o show ?thesis
      using f w1 Some s
      by (cases out) (simp_all add: send_body_def w2_def case_prod_beta Let_def others_def)
  qed
qed

lemma send_offer_frame:
  assumes fresh: "socks w (next_sock w) = None"
  shows "socks (snd (send_offer E p i ap f sz c w)) = socks w
    \<and> active_count (snd (send_offer E p i ap f sz c w)) = active_count w"
proof -
  obtain m w1 where c: "connect_to E (p_ip p) (p_port p) w = (m, w1)" by fastforce
  have a1: "active_count w1 = active_count w" using quiet_connect_to [of w E "p_ip p" "p_port p"] c by (simp add: quiet_def)
  show ?thesis
  proof (cases m)
    case None
    with c have "socks w1 = socks w" by (auto simp: connect_to_def Let_def split: if_splits)
    with c None a1 show ?thesis by (simp add: send_offer_def)
  next
    case (Some s)
    then have s: "s = next_sock w" and o1: "others s w w1"
      using c by (auto simp: connect_to_def Let_def others_def split: if_splits)
    define w2 where "w2 = snd (send_packet_conn E s FileOffer (to_cbor E (offer_json i f sz c (ident w))) w1)"
    define w3 where "w3 = snd (read_packet E s no_packet w2)"
    have o3: "others s w w3" "active_count w3 = active_count w"
      using o1 a1 by (simp_all add: w2_def w3_def others_traffic)
    have trans: "others s w w'" if "others s w3 w'" for w' using that o3(1) by (simp add: others_def)
    have eqI: "socks w' = socks w" if "others s w w'" "socks w' s = None" for w'
    proof
      fix x show "socks w' x = socks w x"
        using that fresh s by (cases "x = s") (simp_all add: others_def)
    qed
    have "others s w (close_conn s w3)" using o3(1) by simp
    then have cl: "(socks w3)(s := None) = socks w" using eqI [of "close_conn s w3"] by simp
    have body: "socks (snd (send_body E s i ap f sz c off w3)) = socks w"
      "active_count (snd (send_body E s i ap f sz c off w3)) = active_count w" for off
      using send_body_frame [of s w3 E i ap f sz c off] trans eqI o3(2) by auto
    show ?thesis
      using c Some o3(2) cl body
      by (simp add: send_offer_def case_prod_beta Let_def w2_def [symmetric] w3_def [symmetric] split: option.split)
  qed
qed

section \<open>Properties\<close>

text \<open>C18: Whatever the environment and the peer do, \<open>send_file\<close> returns with the connections the node
  had before (its own is closed on every path), the count of running transfers restored and every
  file untouched.\<close>

theorem send_file_cleans_up:
  assumes "socks w (next_sock w) = None"
  shows "socks (snd (send_file E path rid w)) = socks w
    \<and> active_count (snd (send_file E path rid w)) = active_count w
    \<and> files (snd (send_file E path rid w)) = files w"
  using assms
  by (simp add: send_file_def upsert_methods send_offer_frame case_prod_beta Let_def split: option.split)

theorem send_file_cleans_up_witness:
  "socks (snd (send_file sample_env ''/h/a.txt'' sample_id sample_sender)) = Map.empty
   \<and> active_count (snd (send_file sample_env ''/h/a.txt'' sample_id sample_sender)) = 0"
  using send_file_cleans_up [of sample_sender sample_env "''/h/a.txt''" sample_id]
  by (simp add: sample_sender_def sample_world_def)

text \<open>C19: A transfer starts only when every precondition holds: with an invalid recipient, a path that
  does not resolve, something that is not a regular file, an unknown peer or one without
  address, or five transfers already running, \<open>send_file\<close> returns the empty identifier after
  one line on the error stream, with the tables, the files and all connections unchanged.\<close>

theorem send_file_refuses:
  assumes "\<not> is_valid_uuid rid \<or> os_canonical E path = None
    \<or> (\<exists>ap. os_canonical E path = Some ap \<and> files w ap = None)
    \<or> sql_get_peer rid (db w) = None \<or> (\<exists>p. sql_get_peer rid (db w) = Some p \<and> p_ip p = [])
    \<or> SHR_MAX_CONCURRENT \<le> active_count w"
  shows "fst (send_file E path rid w) = [] \<and> db (snd (send_file E path rid w)) = db w
    \<and> files (snd (send_file E path rid w)) = files w \<and> socks (snd (send_file E path rid w)) = socks w
    \<and> closed_socks (snd (send_file E path rid w)) = closed_socks w
    \<and> (\<exists>line. line \<noteq> [] \<and> cerr (snd (send_file E path rid w)) = cerr w @ line)"
proof -
  have g: "fst (find_peer E rid w) = None \<or> fst (find_peer E rid w) = sql_get_peer rid (db w)"
    "cerr (snd (find_peer E rid w)) = cerr w" "closed_socks (snd (find_peer E rid w)) = closed_socks w"
    by (simp_all add: find_peer_def get_peer_def sql_step_def)
  show ?thesis
    using assms g by (auto simp: send_file_def case_prod_beta Let_def split: option.split)
qed

theorem send_file_refuses_witness:
  "fst (send_file sample_env ''/h/none'' sample_id sample_sender) = []
   \<and> db (snd (send_file sample_env ''/h/none'' sample_id sample_sender)) = db sample_sender"
  using send_file_refuses [of sample_id sample_env "''/h/none''" sample_sender]
  by (simp add: sample_env_def sample_sender_def)

end
