(* ===== verification/Shr_EndToEnd.thy ===== *)
theory Shr_EndToEnd
  imports Shr_Send
begin

text \<open>
  Two nodes connected: the bytes one node sends are the input of the dispatch loop of the
  other, and its answers are what the first node reads.
\<close>

section \<open>Two nodes\<close>

text \<open>The receiving node whose peer has sent the bytes \<open>d\<close>, and what it has answered by then.\<close>

definition with_stream :: "'x env_scheme \<Rightarrow> bytes \<Rightarrow> 'x env_scheme" where
  "with_stream R d = R\<lparr>peer_stream := \<lambda>_ _. d\<rparr>"

definition reply :: "'x env_scheme \<Rightarrow> nat \<Rightarrow> string \<Rightarrow> world \<Rightarrow> bytes \<Rightarrow> bytes" where
  "reply R s ip v d =
     (case conn_loop (with_stream R d) (app_handlers (with_stream R d)) s
             \<lparr>k_type = Unlisted 0, k_payload = [], k_peer_ip = ip, k_peer_port = 0\<rparr> v of
        None \<Rightarrow> []
      | Some v' \<Rightarrow> (case socks v' s of None \<Rightarrow> [] | Some k \<Rightarrow> s_sent k))"

lemma with_stream_member [simp]: "member_ok (with_stream R d) j k v = member_ok R j k v"
  by (simp add: member_ok_def with_stream_def split: option.split json.split)

lemma with_stream_laws [simp]:
  "node_ok (with_stream R d) = node_ok R" "path_ok (with_stream R d) path = path_ok R path"
  "peer_stream (with_stream R d) s x = d" "lib.truncate (with_stream R d) = lib.truncate R"
proof -
  have "cbor_laws (with_stream R d) = cbor_laws R"
    unfolding cbor_laws_def with_stream_member by (simp add: with_stream_def)
  then show "node_ok (with_stream R d) = node_ok R"
    unfolding node_ok_def
    by (simp add: with_stream_def base64_laws_def digest_laws_def sql_reliable_def sockets_reliable_def
        disk_reliable_def)
qed (simp_all add: with_stream_def path_ok_def lib.truncate_def)

lemma same_lib:
  assumes "lib.truncate E = lib.truncate R"
  shows "to_cbor E = to_cbor R" "b64_write E = b64_write R" "md_init E = md_init R"
    "md_update E = md_update R" "md_final E = md_final R" "value_i64 E = value_i64 R"
  using assms by (simp_all add: lib.truncate_def)

lemma same_packets:
  assumes "lib.truncate E = lib.truncate R"
  shows "sha256_bytes E = sha256_bytes R" "chunk_packets E = chunk_packets R" "ack_packets E = ack_packets R"
    "offered E = offered R" "answered E = answered R" "complete_packet E = complete_packet R" "frames E = frames R"
proof -
  note l = same_lib [OF assms]
  show s: "sha256_bytes E = sha256_bytes R" by (simp add: sha256_bytes_def l fun_eq_iff)
  have "chunk_packets E i x off bs = chunk_packets R i x off bs" for i x off bs
    by (induction bs arbitrary: x off) (simp_all add: l chunk_json_def s base64_encode_def)
  then show c: "chunk_packets E = chunk_packets R" by (simp add: fun_eq_iff)
  have "ack_packets E i off bs = ack_packets R i off bs" for i off bs
    by (induction bs arbitrary: off) (simp_all add: l)
  then show a: "ack_packets E = ack_packets R" by (simp add: fun_eq_iff)
  show "offered E = offered R" "answered E = answered R" "complete_packet E = complete_packet R"
    by (simp_all add: fun_eq_iff offered_def answered_def offer_packet_def accept_packet_def
        complete_packet_def c a l)
  show "frames E = frames R"
    by (simp add: fun_eq_iff frames_def serialize_packet_split packet_header_def)
qed

lemma with_stream_lib:
  "to_cbor (with_stream R d) = to_cbor R" "sha256_bytes (with_stream R d) = sha256_bytes R"
  "base64_encode (with_stream R d) = base64_encode R"
  by (simp_all add: with_stream_def fun_eq_iff sha256_bytes_def base64_encode_def)

lemma chunk_packets_take: "chunk_packets L i x off (take j bs) = take j (chunk_packets L i x off bs)"
  by (induction bs arbitrary: j x off) (auto simp: take_Cons split: nat.split)

lemma ack_packets_take: "ack_packets L i off (take j bs) = take j (ack_packets L i off bs)"
  by (induction bs arbitrary: j off) (auto simp: take_Cons split: nat.split)

lemma fits_take: "fits ps \<Longrightarrow> fits (take j ps)"
  by (simp add: fits_def list_all_iff) (meson in_set_takeD)

lemma fits_offered_take: "fits (offered L i f n c m bs) \<Longrightarrow> fits (offered L i f n c m (take j bs))"
  by (simp add: offered_def offer_packet_def chunk_packets_take fits_take)

text \<open>The destination a receiving node chooses for a file name.\<close>

lemma fits_answered_take: "fits (answered L i bs) \<Longrightarrow> fits (answered L i (take j bs))"
  by (simp add: answered_def accept_packet_def ack_packets_take fits_take)

definition destination :: "world \<Rightarrow> string \<Rightarrow> string" where
  "destination v f = path_append (c_received_dir (cfg v)) (sanitize_filename f)"

text \<open>The receiving node is ready for a transfer: a fresh connection, no paused transfer under
  this identifier, and a usable destination.\<close>

definition may_receive :: "'x env_scheme \<Rightarrow> string \<Rightarrow> string \<Rightarrow> nat \<Rightarrow> world \<Rightarrow> bool" where
  "may_receive R i path s v \<longleftrightarrow>
     socks v s = Some \<lparr>s_sent = [], s_consumed = 0\<rparr>
   \<and> (\<forall>r. sql_get_transfer i (db v) = Some r \<longrightarrow> t_state r \<noteq> Paused)
   \<and> path_ok R path \<and> path \<notin> dirs v \<and> nul_free path"

lemma served:
  assumes ok: "node_ok R" and may: "may_receive R i (destination v f) s v"
    and fit: "fits (offered R i f n c sender bs)" "fits (answered R i bs)" and bs: "length (concat bs) < 2 ^ 63" "[] \<notin> set bs"
    and stream: "stream = frames R (offered R i f n c sender bs) @ rest" and R': "R' = with_stream R stream"
  shows "\<exists>out' w' k'. conn_loop R' (app_handlers R') s out v = conn_loop R' (app_handlers R') s out' w'
    \<and> holding i (c_str (sanitize_filename f)) (destination v f) n (concat bs) w' \<and> socks w' s = Some k'
    \<and> sock_avail R' s w' = rest \<and> s_sent k' = frames R (answered R i bs)"
proof -
  have lib: "lib.truncate R' = lib.truncate R" by (simp add: R')
  have ok': "node_ok R'" "path_ok R' (destination v f)" using ok may by (simp_all add: R' may_receive_def)
  have const: "\<forall>d. peer_stream R' s d = stream" by (simp add: R')
  have k: "socks v s = Some \<lparr>s_sent = [], s_consumed = 0\<rparr>"
    and path: "destination v f = path_append (c_received_dir (cfg v)) (sanitize_filename f)"
      "destination v f \<notin> dirs v" "nul_free (destination v f)"
    and new: "\<forall>r. sql_get_transfer i (db v) = Some r \<longrightarrow> t_state r \<noteq> Paused"
    using may by (simp_all add: may_receive_def destination_def)
  have av: "sock_avail R' s v = frames R' (offered R' i f n c sender bs) @ rest"
    using sock_avail_const [OF const k] by (simp add: stream same_packets [OF lib])
  have fit': "fits (offered R' i f n c sender bs)" "fits (answered R' i bs)" using fit by (simp_all add: same_packets [OF lib])
  from serve_offered [OF ok' const k av path new fit' bs, of out]
  show ?thesis by (simp add: same_packets [OF lib])
qed

lemma reply_offered:
  assumes "node_ok R" and "may_receive R i (destination v f) s v"
    and "fits (offered R i f n c sender bs)" "fits (answered R i bs)" and "length (concat bs) < 2 ^ 63" "[] \<notin> set bs"
  shows "reply R s ip v (frames R (offered R i f n c sender bs)) = frames R (answered R i bs)"
proof -
  let ?d = "frames R (offered R i f n c sender bs)"
  let ?R = "with_stream R ?d"
  let ?out = "\<lparr>k_type = Unlisted 0, k_payload = [], k_peer_ip = ip, k_peer_port = 0\<rparr>"
  have st: "?d = ?d @ []" by simp
  from served [OF assms st refl, of ?out] obtain out' w' k' where
    l: "conn_loop ?R (app_handlers ?R) s ?out v = conn_loop ?R (app_handlers ?R) s out' w'"
    and k': "socks w' s = Some k'" "sock_avail ?R s w' = []" "s_sent k' = frames R (answered R i bs)" by auto
  from conn_loop_end [OF k'(1,2), of "app_handlers ?R" out'] obtain w'' where
    "conn_loop ?R (app_handlers ?R) s out' w' = Some w''" "socks w'' s = Some k'" by auto
  with l k'(3) show ?thesis by (simp add: reply_def)
qed

lemma served_complete:
  assumes ok: "node_ok R" and may: "may_receive R i (destination v f) s v"
    and c: "c = sha256_bytes R (concat bs)"
    and fit: "fits (offered R i f n c sender bs @ [complete_packet R i c])" "fits (answered R i bs)"
    and bs: "length (concat bs) < 2 ^ 63" "[] \<notin> set bs" "bs \<noteq> []"
    and stream: "stream = frames R (offered R i f n c sender bs @ [complete_packet R i c])"
    and R': "R' = with_stream R stream"
  shows "\<exists>w' r. handle_conn R' (app_handlers R') s ip v = Some w' \<and> socks w' s = None
    \<and> files w' (destination v f) = Some (concat bs) \<and> sql_get_transfer i (db w') = Some r
    \<and> t_state r = Completed \<and> t_transferred_bytes r = n \<and> t_total_bytes r = n
    \<and> t_filepath r = destination v f \<and> \<not> t_outbound r"
proof -
  let ?out = "\<lparr>k_type = Unlisted 0, k_payload = [], k_peer_ip = ip, k_peer_port = 0\<rparr>"
  have fits: "fits (offered R i f n c sender bs)" "fits [complete_packet R i c]" using fit(1) by simp_all
  have lib: "lib.truncate R' = lib.truncate R" by (simp add: R')
  have st: "stream = frames R (offered R i f n c sender bs) @ frames R [complete_packet R i c]"
    by (simp add: stream)
  from served [OF ok may fits(1) fit(2) bs(1,2) st R', of ?out] obtain out' w1 k1 where
    l: "conn_loop R' (app_handlers R') s ?out v = conn_loop R' (app_handlers R') s out' w1"
    and h: "holding i (c_str (sanitize_filename f)) (destination v f) n (concat bs) w1"
    and k1: "socks w1 s = Some k1" and av: "sock_avail R' s w1 = frames R [complete_packet R i c]" by blast
  have ok': "node_ok R'" "path_ok R' (destination v f)" using ok may by (simp_all add: R' may_receive_def)
  have ne: "concat bs \<noteq> []" using bs(2,3) by (cases bs) auto
  have av': "sock_avail R' s w1 = frames R' [complete_packet R' i (sha256_bytes R' (concat bs))] @ []"
    using av c by (simp add: same_packets [OF lib])
  have fit': "fits [complete_packet R' i (sha256_bytes R' (concat bs))]"
    using fits(2) c by (simp add: same_packets [OF lib])
  from serve_complete [OF ok' k1 h ne av' fit', of out'] l show ?thesis
    by (fastforce simp: handle_conn_def)
qed

text \<open>An offer of an empty file: no chunk ever creates the file at the destination, and the digest of
  the missing file is the empty text.\<close>

lemma served_empty:
  assumes ok: "node_ok R" and may: "may_receive R i (destination v f) s v"
    and c: "c \<noteq> []" and none: "files v (destination v f) = None"
    and fit: "fits [offer_packet R i f 0 c sender, complete_packet R i c]" "fits [accept_packet R i]"
    and R': "R' = with_stream R (frames R [offer_packet R i f 0 c sender, complete_packet R i c])"
  shows "\<exists>w' r. handle_conn R' (app_handlers R') s ip v = Some w' \<and> files w' (destination v f) = None
    \<and> sql_get_transfer i (db w') = Some r \<and> t_state r = Failed \<and> \<not> t_outbound r"
proof -
  let ?out = "\<lparr>k_type = Unlisted 0, k_payload = [], k_peer_ip = ip, k_peer_port = 0\<rparr>"
  let ?stream = "frames R [offer_packet R i f 0 c sender, complete_packet R i c]"
  let ?p = "to_cbor R' (complete_json i c)"
  have lib: "to_cbor R' = to_cbor R" "frames R' = frames R" "offer_packet R' = offer_packet R"
    using same_lib(1) [of R' R] same_packets(7) [of R' R] by (simp_all add: R' offer_packet_def fun_eq_iff)
  have ok': "node_ok R'" "path_ok R' (destination v f)" using ok may by (simp_all add: R' may_receive_def)
  have const: "\<forall>d. peer_stream R' s d = ?stream" by (simp add: R')
  have k: "socks v s = Some \<lparr>s_sent = [], s_consumed = 0\<rparr>"
    and path: "destination v f = path_append (c_received_dir (cfg v)) (sanitize_filename f)"
      "destination v f \<notin> dirs v" "nul_free (destination v f)"
    and new: "\<forall>r. sql_get_transfer i (db v) = Some r \<longrightarrow> t_state r \<noteq> Paused"
    using may by (simp_all add: may_receive_def destination_def)
  have av: "sock_avail R' s v = frames R' [offer_packet R' i f 0 c sender] @ frames R [complete_packet R i c]"
    using sock_avail_const [OF const k] frames_Cons [of R "offer_packet R i f 0 c sender" "[complete_packet R i c]"] by (simp add: lib)
  have fit1: "fits [offer_packet R' i f 0 c sender]" "length ?p < 2 ^ 32" "fits [accept_packet R' i]"
    using fit by (simp_all add: lib complete_packet_def accept_packet_def fits_def)
  from serve_offer [OF ok'(1) const k av path new fit1(1,3), of ?out] obtain out1 w1 k1 where
    l1: "conn_loop R' (app_handlers R') s ?out v = conn_loop R' (app_handlers R') s out1 w1"
    and h1: "holding i (c_str (sanitize_filename f)) (destination v f) 0 [] w1" and k1: "socks w1 s = Some k1"
    and av1: "sock_avail R' s w1 = frames R [complete_packet R i c]" and f1: "files w1 = files v" by blast
  have av1': "sock_avail R' s w1 = serialize_packet R FileComplete ?p [] @ []"
    using av1 by (simp add: lib complete_packet_def frames_def)
  from conn_loop_packet [OF node_okD(5) [OF ok'(1)] k1 av1' fit1(2) listed_mem(5), of "app_handlers R'" out1]
  obtain w2 where f2: "sock_frame s w1 (k1\<lparr>s_consumed := s_consumed k1 + (HEADER_SIZE + length ?p)\<rparr>) w2"
    and l2: "conn_loop R' (app_handlers R') s out1 w1 = Some (handle_file_complete R' ?p s w2)"
    by (auto simp: closing_type_def app_handler_simps)
  from holding_frame [OF h1 f2] obtain r where
    r: "sql_get_transfer i (db w2) = Some r" "t_filepath r = destination v f" "\<not> t_outbound r" by (auto simp: holding_def)
  have rd: "\<forall>t. os_readable R' t (t_filepath r)" using ok'(2) r(2) by (simp add: path_ok_def)
  define w3 where "w3 = handle_file_complete R' ?p s w2"
  note e = handle_file_complete_effect [OF node_okD(1,3,4) [OF ok'(1)] r(1) rd w3_def]
  have f3: "files w2 (t_filepath r) = None" using none f1 sock_frame_fields(1) [OF f2] r(2) by simp
  moreover have "t_filepath r \<notin> dirs w2" using path(2) holding_frame [OF h1 f2] r(2) by (simp add: holding_def)
  ultimately obtain now where "db w3 = sql_update_transfer i (t_transferred_bytes r) Failed now (db w2)"
    using e(1) c by (auto simp: stored_nothing)
  then have "sql_get_transfer i (db w3) = Some (progress (t_transferred_bytes r, Failed, now) r)"
    using ts.lookup_upd [of i i "(t_transferred_bytes r, Failed, now)" "db w2"] r(1) by simp
  then show ?thesis
    using r(2,3) e(2) f3
    by (intro exI [of _ "close_conn s w3"] exI [of _ "progress (t_transferred_bytes r, Failed, now) r"])
       (simp add: handle_conn_def l1 l2 w3_def [symmetric] progress_def)
qed

section \<open>The sample nodes connected\<close>

definition sender_env :: env where
  "sender_env = sample_env\<lparr>peer_stream := \<lambda>_. reply sample_env 0 ''10.0.0.5'' sample_receiver\<rparr>"

lemma length_enc [simp]:
  "length (enc_str s) = 2 * length s + 1" "length (sample_encode (JObj kvs)) = length (enc_members kvs)"
  by (induction s) (auto simp: enc_str_def)

lemma sample_lengths [simp]:
  "to_cbor sample_env = sample_encode" "length (sha256_bytes sample_env d) = 2 * length d"
  "length (base64_encode sample_env d) = length d"
  by (simp_all add: sample_env_def sha256_bytes_def base64_encode_def hex_encode_length)

lemma sender_env_ok [simp]: "node_ok sender_env" "lib.truncate sender_env = lib.truncate sample_env"
proof -
  have "member_ok sender_env j k v = member_ok sample_env j k v" for j k v
    by (simp add: member_ok_def sender_env_def split: option.split json.split)
  moreover have "node_ok sample_env" by simp
  ultimately show "node_ok sender_env"
    unfolding node_ok_def cbor_laws_def
    by (simp add: sender_env_def base64_laws_def digest_laws_def sql_reliable_def sockets_reliable_def
        disk_reliable_def)
  show "lib.truncate sender_env = lib.truncate sample_env" by (simp add: sender_env_def lib.truncate_def)
qed

lemma sample_may_send: "may_send sender_env ''/h/a.txt'' sample_id ''/h/a.txt'' [104, 105] sample_peer sample_sender"
proof -
  have "nul_free sample_id" by (simp add: nul_free_def sample_id_def)
  then have "norm_peer sample_peer = sample_peer"
    by (simp add: norm_peer_def sample_peer_def nul_free_def)
  then have "sql_get_peer sample_id (db sample_sender) = Some sample_peer"
    using ps.lookup_same [of sample_peer "db sample_world"] by (simp add: sample_sender_def sample_peer_def)
  then show ?thesis
    by (simp add: may_send_def reachable_peer_def sender_env_def sample_env_def sample_sender_def sample_peer_def
        sample_world_def SHR_MAX_CONCURRENT_def)
qed

lemma sample_blocks: "file_blocks SHR_CHUNK_SIZE [104, 105] = [[104, 105]]"
  by (simp add: SHR_CHUNK_SIZE_def file_blocks.simps)

lemma sample_transfer_id: "length (transfer_id E w) = 36"
  unfolding transfer_id_def generate_uuid_def
  by (simp add: case_prod_beta Let_def is_valid_uuid_length uuid_text_valid)

lemma sample_fits:
  "fits (offered sample_env (transfer_id E w) ''a.txt'' 2 (sha256_bytes sample_env [104, 105]) ''node'' [[104, 105]]
     @ [complete_packet sample_env (transfer_id E w) (sha256_bytes sample_env [104, 105])])"
  "fits (answered sample_env (transfer_id E w) [[104, 105]])"
  by (simp_all add: offered_def answered_def offer_packet_def complete_packet_def accept_packet_def
     offer_json_def complete_json_def accept_json_def chunk_json_def ack_json_def sample_transfer_id HEADER_SIZE_def)

lemma sample_may_receive:
  "may_receive sample_env i (destination sample_receiver ''a.txt'') 0 sample_receiver"
  by (simp add: may_receive_def sample_receiver_def sample_world_def sql_get_transfer_def tbl_find_Nil
      path_ok_def sample_env_def destination_def sanitize_filename_def bad_name_char_def path_append_def nul_free_def)

text \<open>The sample nodes with a digest that is one byte longer than its input.\<close>

definition digest_env :: env where
  "digest_env = sample_env\<lparr>md_final := \<lambda>c. 0 # c\<rparr>"

definition digest_sender_env :: env where
  "digest_sender_env = digest_env\<lparr>peer_stream := \<lambda>_. reply digest_env 0 ''10.0.0.5'' sample_receiver\<rparr>"

lemma digest_env_ok [simp]: "node_ok digest_env" "node_ok digest_sender_env" "lib.truncate digest_sender_env = lib.truncate digest_env"
proof -
  have "member_ok digest_env j k v = member_ok sample_env j k v" "member_ok digest_sender_env j k v = member_ok sample_env j k v" for j k v
    by (simp_all add: member_ok_def digest_env_def digest_sender_env_def split: option.split json.split)
  moreover have "node_ok sample_env" by simp
  ultimately show "node_ok digest_env" "node_ok digest_sender_env"
    unfolding node_ok_def cbor_laws_def
    by (simp_all add: digest_env_def digest_sender_env_def base64_laws_def digest_laws_def sql_reliable_def sockets_reliable_def
        disk_reliable_def) (simp_all add: sample_env_def)
  show "lib.truncate digest_sender_env = lib.truncate digest_env" by (simp add: digest_sender_env_def lib.truncate_def)
qed

section \<open>Properties\<close>

text \<open>C1: A file that is sent to a peer arrives. When both nodes work (faithful codecs, digests that
  do not depend on how the input is cut, a database, sockets and a disk that do their job, however
  the sockets fragment the stream), the recipient is a known reachable peer, and the sender
  reads what the receiving node answers to the bytes sent so far, then \<open>send_file\<close> on a
  non-empty file returns the identifier of the transfer, both databases record it as
  completed with the full size, and after the receiving node has processed the bytes of the
  connection, its file in the received directory, under the sanitised name, has the content of
  the file sent. The sender's files and its count of running transfers are as before.\<close>

theorem transfer_end_to_end:
  assumes "node_ok E" and "node_ok R" and "lib.truncate E = lib.truncate R"
    and may: "may_send E filepath rid ap data p w" and data: "data \<noteq> []" "length data < 2 ^ 63"
    and defs: "i = transfer_id E w" "f = path_filename ap" "n = word_of_nat (length data)"
      "c = sha256_bytes E data" "bs = file_blocks SHR_CHUNK_SIZE data"
    and recv: "may_receive R i (destination v f) s v"
    and link: "\<forall>d. peer_stream E (next_sock w) d = reply R s ip v d"
    and fit: "fits (offered E i f n c (ident w) bs @ [complete_packet E i c])" "fits (answered E i bs)"
  shows "\<exists>w' k v' q r.
     send_file E filepath rid w = (i, w') \<and> closed_socks w' (next_sock w) = Some k
   \<and> handle_conn (with_stream R (s_sent k)) (app_handlers (with_stream R (s_sent k))) s ip v = Some v'
   \<and> files v' (destination v f) = Some data
   \<and> sql_get_transfer i (db w') = Some q \<and> t_outbound q \<and> t_state q = Completed \<and> t_transferred_bytes q = n
   \<and> sql_get_transfer i (db v') = Some r \<and> \<not> t_outbound r \<and> t_state r = Completed \<and> t_transferred_bytes r = n
   \<and> t_filepath r = destination v f
   \<and> files w' = files w \<and> active_count w' = active_count w"
proof -
  note same = same_packets [OF assms(3)]
  have bs: "concat bs = data" "[] \<notin> set bs" "bs \<noteq> []"
    using data(1) by (simp_all add: defs(5) file_blocks_concat file_blocks_nonempty file_blocks_Nil)
  have "peer_stream E (next_sock w) (frames E (offered E i f n c (ident w) (take j bs))) =
      frames E (answered E i (take j bs))" for j
  proof -
    have "length (concat (take j bs)) \<le> length (concat bs)"
      by (metis append_take_drop_id concat_append le_add1 length_append)
    then show ?thesis
      using link reply_offered [OF assms(2) recv fits_offered_take fits_answered_take, of n c "ident w" bs j ip] fit data(2) bs
      by (auto simp: same dest: in_set_takeD)
  qed
  then obtain w' k q where
    snd: "send_file E filepath rid w = (i, w')" "closed_socks w' (next_sock w) = Some k"
      "s_sent k = frames E (offered E i f n c (ident w) bs @ [complete_packet E i c])"
      "sql_get_transfer i (db w') = Some q" "t_state q = Completed" "t_transferred_bytes q = n" "t_outbound q"
      "files w' = files w" "active_count w' = active_count w"
    using send_file_answered [OF _ _ _ may refl defs(1,5,2,3,4) _ fit(2,1)] node_okD [OF assms(1)] by blast
  have c: "c = sha256_bytes R (concat bs)" using bs(1) defs(4) same(1) by simp
  have fitR: "fits (offered R i f n c (ident w) bs @ [complete_packet R i c])" "fits (answered R i bs)"
    using fit by (simp_all add: same)
  have st: "s_sent k = frames R (offered R i f n c (ident w) bs @ [complete_packet R i c])"
    using snd(3) by (simp add: same)
  from served_complete [OF assms(2) recv c fitR _ bs(2,3) st refl, of ip] data(2) bs(1)
  show ?thesis using snd by auto
qed

theorem transfer_end_to_end_witness:
  "\<exists>w' k v'. send_file sender_env ''/h/a.txt'' sample_id sample_sender = (transfer_id sender_env sample_sender, w')
   \<and> closed_socks w' 0 = Some k
   \<and> handle_conn (with_stream sample_env (s_sent k)) (app_handlers (with_stream sample_env (s_sent k))) 0
       ''10.0.0.5'' sample_receiver = Some v'
   \<and> files v' ''/h/shr_received/a.txt'' = Some [104, 105]"
proof -
  have d: "path_filename ''/h/a.txt'' = ''a.txt''" "destination sample_receiver ''a.txt'' = ''/h/shr_received/a.txt''"
    "next_sock sample_sender = 0" "ident sample_sender = ''node''"
    by (simp_all add: path_filename_def destination_def sample_receiver_def sample_world_def sanitize_filename_def
        bad_name_char_def path_append_def sample_sender_def)
  note same = same_packets [OF sender_env_ok(2)]
  have link: "\<forall>d. peer_stream sender_env (next_sock sample_sender) d = reply sample_env 0 ''10.0.0.5'' sample_receiver d"
    by (simp add: sender_env_def)
  show ?thesis
    using transfer_end_to_end [OF sender_env_ok(1) sample_node_ok sender_env_ok(2) sample_may_send _ _ refl
        d(1) [symmetric] _ refl sample_blocks [symmetric] sample_may_receive link, of 2]
      sample_fits [of sender_env sample_sender]
    by (simp add: same d) blast
qed

text \<open>C20: A peer that accepts an offer and then never acknowledges a chunk: the sender sends one
  chunk, gives up waiting, and still reports success. \<open>send_file\<close> returns the identifier and
  the record says completed, with no byte counted of a non-empty file.\<close>

theorem missing_ack_still_completes:
  assumes rel: "sockets_reliable E" "sql_reliable E" "digest_laws E"
    and may: "may_send E filepath rid ap data p w" and data: "data \<noteq> []"
    and i: "i = transfer_id E w" and ans: "\<forall>d. peer_stream E (next_sock w) d = frames E [accept_packet E i]"
    and fit: "fits [accept_packet E i]" "fits [offer_packet E i (path_filename ap) (word_of_nat (length data)) (sha256_bytes E data) (ident w)]"
      "fits (chunk_packets E i 0 0 [take SHR_CHUNK_SIZE data])"
  shows "\<exists>w' r. send_file E filepath rid w = (i, w') \<and> sql_get_transfer i (db w') = Some r
    \<and> t_state r = Completed \<and> t_transferred_bytes r = 0 \<and> t_total_bytes r = word_of_nat (length data)"
proof -
  let ?f = "path_filename ap" and ?n = "word_of_nat (length data) :: u64" and ?c = "sha256_bytes E data"
  let ?s = "next_sock w"
  obtain w1 x y where eq: "send_file E filepath rid w = send_offer E p i ap ?f ?n ?c w1"
    and d1: "db w1 = sql_upsert_transfer (outbound_record i rid ?f ap ?n ?c x y) (db w)"
    and q1: "quiet w (w1\<lparr>db := db w\<rparr>)" and s1: "next_sock w1 = next_sock w"
    using send_file_offers [OF rel(2,3) may] unfolding i by metis
  have r: "sql_get_transfer i (db w1) = Some (norm_transfer (outbound_record i rid ?f ap ?n ?c x y))"
    using ts.lookup_same [of "outbound_record i rid ?f ap ?n ?c x y" "db w"] d1 by (simp add: outbound_record_def)
  have src: "\<forall>t. os_readable E t ap" "files w1 ap = Some data" "reachable_peer E p"
    using may q1 by (simp_all add: may_send_def quiet_def)
  have id: "ident w1 = ident w" using q1 by (simp add: quiet_def)
  have chunk: "length (to_cbor E (chunk_json E i 0 0 (take SHR_CHUNK_SIZE data))) + HEADER_SIZE < 2 ^ 32" using fit(3) by simp
  obtain w3 k3 where eq3: "send_offer E p i ap ?f ?n ?c w1 = send_body E ?s i ap ?f ?n ?c 0 w3"
    and k3: "socks w3 = (socks w1)(?s \<mapsto> k3)" "s_consumed k3 = length (frames E [accept_packet E i])"
    and fr: "files w3 = files w1" "db w3 = db w1"
    using send_offer_accepted [OF rel(1) src(3) s1 [symmetric] _ fit(1)] fit(2) ans id by metis
  have w3: "files w3 ap = Some data" "socks w3 ?s = Some k3"
    "sql_get_transfer i (db w3) = Some (norm_transfer (outbound_record i rid ?f ap ?n ?c x y))"
    using src(2) fr k3(1) r by simp_all
  from send_body_unanswered [OF rel(1,2) src(1) w3(1,2) data w3(3) ans k3(2) chunk, of ?f ?n ?c]
  show ?thesis unfolding eq eq3 by (fastforce simp: norm_transfer_def outbound_record_def progress_def)
qed

theorem missing_ack_still_completes_witness:
  "\<exists>w' r. send_file (with_stream sample_env (frames sample_env [accept_packet sample_env (transfer_id sample_env sample_sender)]))
       ''/h/a.txt'' sample_id sample_sender = (transfer_id sample_env sample_sender, w')
     \<and> sql_get_transfer (transfer_id sample_env sample_sender) (db w') = Some r \<and> t_state r = Completed \<and> t_transferred_bytes r = 0"
proof -
  let ?i = "transfer_id sample_env sample_sender"
  let ?E = "with_stream sample_env (frames sample_env [accept_packet sample_env ?i])"
  have lib: "lib.truncate ?E = lib.truncate sample_env" by simp
  have i: "transfer_id ?E sample_sender = ?i"
    by (simp add: transfer_id_def generate_uuid_def rand_bytes_def with_stream_def Let_def)
  have ok: "node_ok ?E" by simp
  have may: "may_send ?E ''/h/a.txt'' sample_id ''/h/a.txt'' [104, 105] sample_peer sample_sender"
    using sample_may_send by (simp add: may_send_def reachable_peer_def with_stream_def sender_env_def)
  have n: "ident sample_sender = ''node''" by (simp add: sample_sender_def sample_world_def)
  have a: "accept_packet ?E ?i = accept_packet sample_env ?i"
    by (simp add: accept_packet_def with_stream_def)
  have fit: "fits [accept_packet ?E ?i]"
    "fits [offer_packet ?E ?i (path_filename ''/h/a.txt'') (word_of_nat (length [104 :: byte, 105])) (sha256_bytes ?E [104, 105]) (ident sample_sender)]"
    "fits (chunk_packets ?E ?i 0 0 [take SHR_CHUNK_SIZE [104, 105]])"
    by (simp_all add: with_stream_lib offer_packet_def accept_packet_def offer_json_def
        accept_json_def chunk_json_def n sample_transfer_id path_filename_def SHR_CHUNK_SIZE_def HEADER_SIZE_def)
  have ans: "\<forall>d. peer_stream ?E (next_sock sample_sender) d = frames ?E [accept_packet ?E ?i]"
    by (simp add: a same_packets [OF lib])
  show ?thesis
    using missing_ack_still_completes [OF node_okD(5,4,3) [OF ok] may _ i [symmetric] ans fit] by auto
qed

text \<open>C21: An empty file is never received. With two working nodes and a digest that is never the
  empty text, sending an empty file ends with the sender's record completed and the receiver's
  record failed, and no file has appeared at the destination: without a chunk nothing creates it.\<close>

theorem empty_file_disagreement:
  assumes nodes: "node_ok E" "node_ok R" "lib.truncate E = lib.truncate R"
    and may: "may_send E filepath rid ap [] p w"
    and defs: "i = transfer_id E w" "f = path_filename ap" "c = sha256_bytes E []" and c: "c \<noteq> []"
    and recv: "may_receive R i (destination v f) s v" "files v (destination v f) = None"
    and link: "\<forall>d. peer_stream E (next_sock w) d = reply R s ip v d"
    and fit: "fits [offer_packet E i f 0 c (ident w), complete_packet E i c]" "fits [accept_packet E i]"
  shows "\<exists>w' k v' q r. send_file E filepath rid w = (i, w') \<and> closed_socks w' (next_sock w) = Some k
   \<and> sql_get_transfer i (db w') = Some q \<and> t_state q = Completed
   \<and> handle_conn (with_stream R (s_sent k)) (app_handlers (with_stream R (s_sent k))) s ip v = Some v'
   \<and> sql_get_transfer i (db v') = Some r \<and> t_state r = Failed \<and> files v' (destination v f) = None"
proof -
  note same = same_packets [OF nodes(3)]
  have o: "offered L i f 0 c m [] = [offer_packet L i f 0 c m]" "answered L i [] = [accept_packet L i]" for L :: "'x lib_scheme" and m
    by (simp_all add: offered_def answered_def)
  have b: "[] = file_blocks SHR_CHUNK_SIZE []" by (simp add: file_blocks.simps)
  have packets: "offer_packet E = offer_packet R" "accept_packet E = accept_packet R"
    using same_lib(1) [OF nodes(3)] by (simp_all add: fun_eq_iff offer_packet_def accept_packet_def)
  have fitR: "fits (offered R i f 0 c (ident w) [])" "fits (answered R i [])"
    using fit by (simp_all add: offered_def answered_def packets fits_def)
  have "peer_stream E (next_sock w) (frames E (offered E i f 0 c (ident w) [])) = frames E (answered E i [])"
    using link reply_offered [OF nodes(2) recv(1) fitR, of ip] by (simp add: same)
  then obtain w' k q where
    snd: "send_file E filepath rid w = (i, w')" "closed_socks w' (next_sock w) = Some k"
      "s_sent k = frames E (offered E i f 0 c (ident w) [] @ [complete_packet E i c])"
      "sql_get_transfer i (db w') = Some q" "t_state q = Completed"
    using send_file_answered [OF node_okD(5,4,3) [OF nodes(1)] may refl defs(1) b defs(2) _ defs(3), of 0] fit
    by (auto simp: answered_def offered_def offer_packet_def)
  have st: "s_sent k = frames R [offer_packet R i f 0 c (ident w), complete_packet R i c]"
    using snd(3) by (simp add: same offered_def packets)
  have fit': "fits [offer_packet R i f 0 c (ident w), complete_packet R i c]" "fits [accept_packet R i]"
    using fit by (simp_all add: packets same)
  from served_empty [OF nodes(2) recv(1) c recv(2) fit' refl, of ip] snd show ?thesis unfolding st [symmetric] by blast
qed

theorem empty_file_disagreement_witness:
  "\<exists>w' k v' r. send_file digest_sender_env ''/h/a.txt'' sample_id (sample_sender\<lparr>files := [''/h/a.txt'' \<mapsto> []]\<rparr>) =
       (transfer_id digest_sender_env (sample_sender\<lparr>files := [''/h/a.txt'' \<mapsto> []]\<rparr>), w') \<and> closed_socks w' 0 = Some k
     \<and> handle_conn (with_stream digest_env (s_sent k)) (app_handlers (with_stream digest_env (s_sent k))) 0 ''10.0.0.5'' sample_receiver = Some v'
     \<and> sql_get_transfer (transfer_id digest_sender_env (sample_sender\<lparr>files := [''/h/a.txt'' \<mapsto> []]\<rparr>)) (db v') = Some r \<and> t_state r = Failed"
proof -
  let ?w = "sample_sender\<lparr>files := [''/h/a.txt'' \<mapsto> []]\<rparr>" and ?E = digest_sender_env
  have may: "may_send ?E ''/h/a.txt'' sample_id ''/h/a.txt'' [] sample_peer ?w"
    using sample_may_send by (simp add: may_send_def reachable_peer_def sender_env_def digest_sender_env_def digest_env_def)
  have f: "path_filename ''/h/a.txt'' = ''a.txt''" by (simp add: path_filename_def)
  have recv: "may_receive digest_env (transfer_id ?E ?w) (destination sample_receiver ''a.txt'') 0 sample_receiver"
    "files sample_receiver (destination sample_receiver ''a.txt'') = None"
    using sample_may_receive by (simp_all add: may_receive_def path_ok_def digest_env_def) (simp add: sample_receiver_def sample_world_def)
  have c: "sha256_bytes ?E [] = ''00''"
    by (simp add: digest_sender_env_def digest_env_def sample_env_def sha256_bytes_def hex_encode_def hex2_def hex_digit_def char_of_eq_iff)
  have link: "\<forall>d. peer_stream ?E (next_sock ?w) d = reply digest_env 0 ''10.0.0.5'' sample_receiver d"
    by (simp add: digest_sender_env_def)
  have e: "to_cbor ?E = sample_encode" "ident ?w = ''node''" "next_sock ?w = 0"
    by (simp_all add: digest_sender_env_def digest_env_def sample_env_def sample_sender_def sample_world_def)
  have fit: "fits [offer_packet ?E (transfer_id ?E ?w) ''a.txt'' 0 ''00'' (ident ?w), complete_packet ?E (transfer_id ?E ?w) ''00'']"
    "fits [accept_packet ?E (transfer_id ?E ?w)]"
    by (simp_all add: offer_packet_def complete_packet_def accept_packet_def e offer_json_def complete_json_def accept_json_def sample_transfer_id
        HEADER_SIZE_def)
  from empty_file_disagreement [OF digest_env_ok(2,1,3) may refl f [symmetric] c [symmetric] _ recv link fit]
  show ?thesis by (simp add: e) blast
qed

end
