(* ===== verification/Shr_Delivery.thy ===== *)
theory Shr_Delivery
  imports Shr_EndToEnd
begin

text \<open>
  Messages and announcements between nodes: what the decoders read from a payload that another
  node has written, a text message from \<open>send_msg\<close> on one node to the table of the other, and
  the effect of an announcement on the peer table.
\<close>

section \<open>Payloads\<close>

lemma decode_announce_written:
  assumes "cbor_laws L"
  shows "decode_announce L (to_cbor L (announce_json i port)) = Some (i, port)"
proof -
  let ?kvs = "[(''id'', JStr i), (''port'', JUInt (ucast port))]"
  have d: "distinct (map fst ?kvs)" by simp
  from cbor_lawsD [OF assms d] obtain j where
    j: "from_cbor L (to_cbor L (announce_json i port)) = Some j" and m: "\<And>k. member_ok L j k (map_of ?kvs k)"
    unfolding announce_json_def by blast
  have u: "ucast (ucast x :: u64) = x" for x :: u16 by (rule bit_word_eqI) (simp add: bit_simps)
  show ?thesis using j m [of "''id''"] m [of "''port''"] by (simp add: member_ok_def decode_announce_def u)
qed

lemma message_members:
  assumes "cbor_laws L" and "- (2 ^ 63) \<le> ts" "ts < 2 ^ 63"
  obtains j where "from_cbor L (to_cbor L (message_json i a b c ts)) = Some j"
    and "\<And>d. value_str L j ''id'' d = Some i" "\<And>d. value_str L j ''sender_id'' d = Some a"
    and "\<And>d. value_str L j ''recipient_id'' d = Some b" "\<And>d. value_str L j ''content'' d = Some c"
    and "\<And>d. value_i64 L j ''timestamp'' d = Some ts"
proof -
  let ?kvs = "[(''id'', JStr i), (''sender_id'', JStr a), (''recipient_id'', JStr b),
           (''content'', JStr c), (''timestamp'', JInt ts)]"
  have d: "distinct (map fst ?kvs)" by simp
  from cbor_lawsD [OF assms(1) d] obtain j where
    j: "from_cbor L (to_cbor L (message_json i a b c ts)) = Some j" and m: "\<And>k. member_ok L j k (map_of ?kvs k)"
    unfolding message_json_def by blast
  show ?thesis
    by (rule that [OF j])
       (use m [of "''id''"] m [of "''sender_id''"] m [of "''recipient_id''"] m [of "''content''"] m [of "''timestamp''"] assms(2,3)
        in \<open>simp_all add: member_ok_def\<close>)
qed

lemma handle_msg_receive_stores:
  assumes "cbor_laws E" "sql_reliable E" and "- (2 ^ 63) \<le> ts" "ts < 2 ^ 63"
  shows "db (handle_msg_receive E (to_cbor E (message_json i a b c ts)) w) =
    sql_insert_message \<lparr>m_id = i, m_sender_id = a, m_recipient_id = b, m_content = c, m_timestamp = ts, m_read = False\<rparr> (db w)"
proof -
  obtain j where j: "from_cbor E (to_cbor E (message_json i a b c ts)) = Some j"
    and "\<And>d. value_str E j ''id'' d = Some i" "\<And>d. value_str E j ''sender_id'' d = Some a"
    and "\<And>d. value_str E j ''recipient_id'' d = Some b" "\<And>d. value_str E j ''content'' d = Some c"
    and "\<And>d. value_i64 E j ''timestamp'' d = Some ts"
    using message_members [OF assms(1,3,4)] by metis
  then show ?thesis
    using assms(2) by (simp add: handle_msg_receive_def upsert_methods db_simps case_prod_beta Let_def)
qed

text \<open>A message text of one packet, served by a node.\<close>

lemma serve_message:
  assumes ok: "node_ok R" and const: "\<forall>d. peer_stream R s d = serialize_packet L MsgSend (to_cbor R (message_json i a b c ts)) []"
    and k: "socks v s = Some \<lparr>s_sent = [], s_consumed = 0\<rparr>" and ts: "- (2 ^ 63) \<le> ts" "ts < 2 ^ 63"
    and len: "length (to_cbor R (message_json i a b c ts)) < 2 ^ 32"
  shows "\<exists>v'. handle_conn R (app_handlers R) s ip v = Some v' \<and>
    db v' = sql_insert_message \<lparr>m_id = i, m_sender_id = a, m_recipient_id = b, m_content = c, m_timestamp = ts, m_read = False\<rparr> (db v)"
proof -
  let ?p = "to_cbor R (message_json i a b c ts)"
  let ?out = "\<lparr>k_type = Unlisted 0, k_payload = [], k_peer_ip = ip, k_peer_port = 0\<rparr>"
  let ?pkt = "?out\<lparr>k_type := MsgSend, k_payload := ?p\<rparr>"
  let ?m = "\<lparr>m_id = i, m_sender_id = a, m_recipient_id = b, m_content = c, m_timestamp = ts, m_read = False\<rparr>"
  have av: "sock_avail R s v = serialize_packet L MsgSend ?p [] @ []"
    using sock_avail_const [OF const k] by simp
  obtain w1 where f1: "sock_frame s v (\<lparr>s_sent = [], s_consumed = 0\<rparr>\<lparr>s_consumed := s_consumed \<lparr>s_sent = [], s_consumed = 0\<rparr> + (HEADER_SIZE + length ?p)\<rparr>) w1"
    and l1: "conn_loop R (app_handlers R) s ?out v = (if closing_type MsgSend then Some (dispatch (app_handlers R) ?pkt s w1)
       else conn_loop R (app_handlers R) s ?pkt (dispatch (app_handlers R) ?pkt s w1))"
    by (rule conn_loop_packet [OF node_okD(5) [OF ok] k av len listed_mem(6), of "app_handlers R" ?out])
  define w2 where "w2 = dispatch (app_handlers R) ?pkt s w1"
  have w2: "w2 = on_msg_send R ?pkt s w1" unfolding w2_def by (simp add: app_handler_simps)
  have d2: "db w2 = sql_insert_message ?m (db v)"
    using handle_msg_receive_stores [OF node_okD(1,4) [OF ok] ts] sock_frame_fields [OF f1] by (simp add: w2 on_msg_send_def)
  obtain k2 where k2: "socks w2 s = Some k2" "s_consumed k2 = HEADER_SIZE + length ?p"
    using dispatch_app [of s w1 R ?pkt] sock_frame_sock [OF f1] unfolding conn_only_def w2_def by auto
  have "sock_avail R s w2 = []"
    using sock_avail_const [OF const k2(1)] k2(2) serialize_length [of "[]" L MsgSend ?p] by simp
  from conn_loop_end [OF k2(1) this, of "app_handlers R" ?pkt] obtain w3 where
    w3: "conn_loop R (app_handlers R) s ?pkt w2 = Some w3" "sock_frame s w2 k2 w3" by blast
  from l1 w3(1) have "conn_loop R (app_handlers R) s ?out v = Some w3" by (simp add: closing_type_def w2_def)
  with d2 sock_frame_fields [OF w3(2)] show ?thesis by (intro exI [of _ "close_conn s w3"]) (simp add: handle_conn_def)
qed

lemma send_packet_reachable:
  assumes "sockets_reliable E" "reachable_peer E p" and fit: "length d + HEADER_SIZE < 2 ^ 32"
  obtains w' where "send_packet E (p_ip p) (p_port p) t d w = (True, w')" and "quiet w w'"
    and "closed_socks w' = (closed_socks w)(next_sock w \<mapsto> \<lparr>s_sent = serialize_packet E t d [], s_consumed = 0\<rparr>)"
proof -
  let ?s = "next_sock w" and ?k = "\<lparr>s_sent = [], s_consumed = 0\<rparr>"
  obtain w1 where c: "connect_to E (p_ip p) (p_port p) w = (Some ?s, w1)" "socks w1 ?s = Some ?k" "closed_socks w1 = closed_socks w"
    using connect_to_ok [OF assms(2), of w] by simp
  obtain w2 where s: "send_packet_conn E ?s t d w1 = (True, w2)"
    and f: "sock_frame ?s w1 (?k\<lparr>s_sent := s_sent ?k @ serialize_packet E t d []\<rparr>) w2"
    by (rule send_packet_conn_reliable [OF assms(1) c(2) fit])
  have "quiet w (snd (send_packet E (p_ip p) (p_port p) t d w))" by simp
  then show ?thesis
    using c s sock_frame_fields [OF f] by (intro that [of "close_conn ?s w2"]) (simp_all add: send_packet_def)
qed

lemma send_msg_stores:
  assumes rel: "sockets_reliable E" "sql_reliable E" and p: "sql_get_peer rid (db w) = Some p" "reachable_peer E p"
    and "is_valid_uuid rid" "content \<noteq> []"
    and defs: "i = fst (generate_uuid E (step_tick w))" "ts = os_now E (tick w + 2)"
    and fit: "length (to_cbor E (message_json i (ident w) rid content ts)) + HEADER_SIZE < 2 ^ 32"
  shows "\<exists>w'. send_msg E rid content w = (True, w') \<and> closed_socks w' (next_sock w) =
        Some \<lparr>s_sent = serialize_packet E MsgSend (to_cbor E (message_json i (ident w) rid content ts)) [], s_consumed = 0\<rparr>
    \<and> db w' = sql_insert_message \<lparr>m_id = i, m_sender_id = ident w, m_recipient_id = rid, m_content = content,
         m_timestamp = ts, m_read = True\<rparr> (db w)"
proof -
  let ?w = "step_tick (step_tick (step_tick w))"
  obtain w1 where s: "send_packet E (p_ip p) (p_port p) MsgSend (to_cbor E (message_json i (ident w) rid content ts)) ?w = (True, w1)"
    and q: "quiet ?w w1" and c: "closed_socks w1 = (closed_socks ?w)(next_sock ?w \<mapsto>
      \<lparr>s_sent = serialize_packet E MsgSend (to_cbor E (message_json i (ident w) rid content ts)) [], s_consumed = 0\<rparr>)"
    by (rule send_packet_reachable [OF rel(1) p(2) fit])
  have r: "retry_send SHR_RETRY_LIMIT (send_packet E (p_ip p) (p_port p) MsgSend (to_cbor E (message_json i (ident w) rid content ts))) ?w = (True, w1)"
    using s by (simp add: retry_send_ok SHR_RETRY_LIMIT_def)
  have ne: "p_ip p \<noteq> []" using p(2) by (simp add: reachable_peer_def)
  show ?thesis
    using assms(3-6) rel(2) ne r q c defs
    by (simp add: send_msg_def find_peer_def db_simps generate_uuid_world now_unix_def upsert_methods case_prod_beta Let_def
        quiet_def)
qed

lemma retry_send_packet_fields [simp]:
  "db (snd (retry_send n (send_packet E ip port t p) w)) = db w" "ident (snd (retry_send n (send_packet E ip port t p) w)) = ident w"
  using quiet_retry_send [of "send_packet E ip port t p" w n] by (simp_all add: quiet_def)

lemma retry_send_unreachable:
  assumes "\<forall>t. \<not> os_connect E t ip port"
  shows "\<not> fst (retry_send n (send_packet E ip port t p) w)"
proof (induction n arbitrary: w)
  case (Suc n)
  have "\<not> fst (send_packet E ip port t p w)"
    using assms by (simp add: send_packet_def connect_to_def Let_def)
  with Suc show ?case by (simp add: case_prod_beta)
qed simp

section \<open>Properties\<close>

text \<open>C7: A message that is sent arrives. When both nodes work, the recipient is a known reachable
  peer and the text is not empty, \<open>send_msg\<close> succeeds at the first attempt, and when the
  receiving node has served the bytes of the connection, its table holds the message with the
  sender, recipient, text and time of sending, unread, under the identifier the sender drew; the
  sender's own table holds the same message as read.\<close>

theorem message_delivered:
  assumes nodes: "node_ok E" "node_ok R" "lib.truncate E = lib.truncate R"
    and p: "sql_get_peer rid (db w) = Some p" "reachable_peer E p" and valid: "is_valid_uuid rid" "content \<noteq> []"
    and defs: "i = fst (generate_uuid E (step_tick w))" "ts = os_now E (tick w + 2)"
    and ts: "- (2 ^ 63) \<le> ts" "ts < 2 ^ 63" and len: "length (to_cbor E (message_json i (ident w) rid content ts)) + HEADER_SIZE < 2 ^ 32"
    and v: "socks v s = Some \<lparr>s_sent = [], s_consumed = 0\<rparr>" "message_at i (db v) = None" "message_at i (db w) = None"
  shows "\<exists>w' k v' m. send_msg E rid content w = (True, w') \<and> closed_socks w' (next_sock w) = Some k
    \<and> handle_conn (with_stream R (s_sent k)) (app_handlers (with_stream R (s_sent k))) s ip v = Some v'
    \<and> m = norm_message \<lparr>m_id = i, m_sender_id = ident w, m_recipient_id = rid, m_content = content, m_timestamp = ts, m_read = False\<rparr>
    \<and> message_at i (db v') = Some m \<and> message_at i (db w') = Some (m\<lparr>m_read := True\<rparr>)"
proof -
  let ?m = "\<lambda>r. \<lparr>m_id = i, m_sender_id = ident w, m_recipient_id = rid, m_content = content, m_timestamp = ts, m_read = r\<rparr>"
  let ?d = "serialize_packet E MsgSend (to_cbor E (message_json i (ident w) rid content ts)) []"
  let ?R = "with_stream R ?d"
  from send_msg_stores [OF node_okD(5,4) [OF nodes(1)] p valid defs len] obtain w' where
    w': "send_msg E rid content w = (True, w')" "closed_socks w' (next_sock w) = Some \<lparr>s_sent = ?d, s_consumed = 0\<rparr>"
    "db w' = sql_insert_message (?m True) (db w)" by blast
  have c: "to_cbor ?R = to_cbor E" using same_lib(1) [OF nodes(3)] by (simp add: with_stream_def)
  have const: "\<forall>x. peer_stream ?R s x = serialize_packet E MsgSend (to_cbor ?R (message_json i (ident w) rid content ts)) []"
    by (simp add: c)
  have ok: "node_ok ?R" using nodes(2) by simp
  have len': "length (to_cbor ?R (message_json i (ident w) rid content ts)) < 2 ^ 32" using len by (simp add: c)
  from serve_message [OF ok const v(1) ts len', of ip] obtain v' where
    v': "handle_conn ?R (app_handlers ?R) s ip v = Some v'" "db v' = sql_insert_message (?m False) (db v)" by blast
  have "message_at i (db v') = Some (norm_message (?m False))" "message_at i (db w') = Some (norm_message (?m True))"
    using ms.lookup_add [of i "?m False" "db v"] ms.lookup_add [of i "?m True" "db w"] v(2,3) by (simp_all add: v'(2) w'(3))
  with w' v'(1) show ?thesis by (fastforce simp: norm_message_def)
qed


lemma sample_recipient:
  "sql_get_peer sample_id (db sample_sender) = Some sample_peer" "reachable_peer sample_env sample_peer"
  using sample_may_send by (simp_all add: may_send_def reachable_peer_def sender_env_def)

lemma sample_message_fits:
  "length (to_cbor sample_env (message_json (fst (generate_uuid sample_env (step_tick sample_sender))) (ident sample_sender) sample_id ''hello'' ts))
     + HEADER_SIZE < 2 ^ 32"
proof -
  have "length (fst (generate_uuid sample_env (step_tick sample_sender))) = 36"
    by (simp add: generate_uuid_def case_prod_beta Let_def is_valid_uuid_length uuid_text_valid)
  moreover have "ident sample_sender = ''node''" by (simp add: sample_sender_def sample_world_def)
  ultimately show ?thesis by (simp add: message_json_def sample_id_def HEADER_SIZE_def)
qed

lemma sample_sends: "\<exists>w'. send_msg sample_env sample_id ''hello'' sample_sender = (True, w')"
  using send_msg_stores [OF _ _ sample_recipient sample_id_valid _ refl refl sample_message_fits] by auto

theorem message_delivered_witness:
  "\<exists>w' k v' m. send_msg sample_env sample_id ''hello'' sample_sender = (True, w') \<and> closed_socks w' 0 = Some k
    \<and> handle_conn (with_stream sample_env (s_sent k)) (app_handlers (with_stream sample_env (s_sent k))) 0 ''10.0.0.5'' sample_receiver = Some v'
    \<and> message_at (fst (generate_uuid sample_env (step_tick sample_sender))) (db v') = Some m \<and> m_content m = ''hello'' \<and> \<not> m_read m"
proof -
  have facts: "os_now sample_env (tick sample_sender + 2) = 1002" "next_sock sample_sender = 0"
    "socks sample_receiver 0 = Some \<lparr>s_sent = [], s_consumed = 0\<rparr>" "tb_messages (db sample_receiver) = []" "tb_messages (db sample_sender) = []"
    by (simp_all add: sample_env_def sample_sender_def sample_receiver_def sample_world_def sql_upsert_peer_def)
  have new: "message_at i (db sample_receiver) = None" "message_at i (db sample_sender) = None" for i
    by (simp_all add: message_at_def facts tbl_find_Nil)
  have "c_str ''hello'' = ''hello''" by (simp add: nul_free_def)
  then show ?thesis
    using message_delivered [OF sample_node_ok sample_node_ok refl sample_recipient sample_id_valid _ refl facts(1) [symmetric] _ _
        sample_message_fits facts(3) new, of "''10.0.0.5''"]
    by (fastforce simp: norm_message_def facts)
qed

text \<open>C27: Sending a message either succeeds and stores it, or fails and stores nothing. When the
  statements run, a successful \<open>send_msg\<close> had a valid recipient, a non-empty text and a peer with
  an address, and the tables are the old ones with exactly the message inserted: the text with
  the node as its sender, the recipient, the time of sending and the identifier just drawn,
  marked as read, so it is found under that identifier if the identifier is new. A failed one
  leaves the tables as they were, and without a connection it fails.\<close>

theorem send_msg_outcome:
  assumes "sql_reliable E" and i: "i = fst (generate_uuid E (step_tick w))"
    and m: "m = \<lparr>m_id = i, m_sender_id = ident w, m_recipient_id = rid, m_content = content,
      m_timestamp = os_now E (tick w + 2), m_read = True\<rparr>"
    and sent: "send_msg E rid content w = (ok, w')"
  shows "if ok
    then db w' = sql_insert_message m (db w) \<and> (message_at i (db w) = None \<longrightarrow> message_at i (db w') = Some (norm_message m))
      \<and> is_valid_uuid rid \<and> content \<noteq> [] \<and> is_valid_uuid i
      \<and> (\<exists>p t. sql_get_peer rid (db w) = Some p \<and> p_ip p \<noteq> [] \<and> os_connect E t (p_ip p) (p_port p))
    else db w' = db w"
proof (cases "is_valid_uuid rid \<and> content \<noteq> [] \<and> (\<exists>p. sql_get_peer rid (db w) = Some p \<and> p_ip p \<noteq> [])")
  case False
  then have "ok = False \<and> db w' = db w"
    using sent assms(1) by (auto simp: send_msg_def find_peer_def db_simps split: if_splits option.splits)
  then show ?thesis by simp
next
  case True
  then obtain p where p: "sql_get_peer rid (db w) = Some p" "p_ip p \<noteq> []" by blast
  let ?w = "step_tick (step_tick (step_tick w))"
  define ts where "ts = os_now E (tick w + 2)"
  have ts: "os_now E (Suc (Suc (tick w))) = ts" by (simp add: ts_def)
  define r where "r = retry_send SHR_RETRY_LIMIT (send_packet E (p_ip p) (p_port p) MsgSend
      (to_cbor E (message_json i (ident w) rid content ts))) ?w"
  have r: "db (snd r) = db w" "ident (snd r) = ident w" by (simp_all add: r_def)
  have s: "ok = fst r" "db w' = (if fst r then sql_insert_message m (db w) else db w)"
    using True p sent r assms(1)
    by (auto simp: send_msg_def find_peer_def db_simps generate_uuid_world now_unix_def upsert_methods case_prod_beta Let_def
        i [symmetric] m ts r_def [symmetric] split: if_splits)
  have "message_at i (db w) = None \<Longrightarrow> message_at i (sql_insert_message m (db w)) = Some (norm_message m)"
    using ms.lookup_add [of i m "db w"] by (simp add: m)
  moreover have "fst r \<Longrightarrow> \<exists>t. os_connect E t (p_ip p) (p_port p)"
    unfolding r_def using retry_send_unreachable by blast
  ultimately show ?thesis using True p s by (auto simp: i generate_uuid_valid)
qed

theorem send_msg_outcome_witness:
  "\<exists>w' v'. send_msg sample_env sample_id ''hello'' sample_sender = (True, w')
   \<and> map_option m_content (message_at (fst (generate_uuid sample_env (step_tick sample_sender))) (db w')) = Some ''hello''
   \<and> send_msg (sample_env\<lparr>os_connect := \<lambda>_ _ _. False\<rparr>) sample_id ''hello'' sample_sender = (False, v')
   \<and> db v' = db sample_sender"
proof -
  let ?C = "sample_env\<lparr>os_connect := \<lambda>_ _ _. False\<rparr>"
  obtain w' where w': "send_msg sample_env sample_id ''hello'' sample_sender = (True, w')"
    using sample_sends by blast
  obtain ok v' where v': "send_msg ?C sample_id ''hello'' sample_sender = (ok, v')" by fastforce
  have rel: "sql_reliable ?C" using sample_reliable(1) by (simp add: sql_reliable_def)
  have new: "message_at i (db sample_sender) = None" for i
    by (simp add: message_at_def sample_sender_def sample_world_def sql_upsert_peer_def tbl_find_Nil)
  have "map_option m_content (message_at (fst (generate_uuid sample_env (step_tick sample_sender))) (db w')) = Some ''hello''"
    using send_msg_outcome [OF sample_reliable(1) refl refl w', unfolded if_True, THEN conjunct2, THEN conjunct1] new
    by (simp add: norm_message_def nul_free_def)
  moreover have "\<not> ok \<and> db v' = db sample_sender"
    using send_msg_outcome [OF rel refl refl v'] by (cases ok) simp_all
  ultimately show ?thesis using w' v' by auto
qed

text \<open>C26: An announcement erases the address of a known peer. After \<open>handle_announce\<close> has stored the
  announcement of another node, the peer table has that node with an empty address, whatever was
  stored before, so a message to it is refused as unreachable; a discovery packet with the same
  content leaves the entry of a known peer as it is.\<close>

theorem announce_erases_address:
  assumes "sql_reliable E" and "decode_announce E payload = Some (i, port)" and "is_valid_uuid i" and "i \<noteq> ident w"
  shows "sql_get_peer i (db (handle_announce E payload s w)) =
      Some \<lparr>p_id = i, p_ip = [], p_port = port, p_online = True, p_last_seen = os_now E (tick w), p_alias = []\<rparr>
    \<and> \<not> fst (send_msg E i content (handle_announce E payload s w))
    \<and> (sql_get_peer i (db w) \<noteq> None \<longrightarrow> db (handle_discover E payload s w) = db w)"
proof -
  let ?p = "\<lparr>p_id = i, p_ip = [], p_port = port, p_online = True, p_last_seen = os_now E (tick w), p_alias = []\<rparr>"
  have "norm_peer ?p = ?p" using is_valid_uuid_nul_free [OF assms(3)] by (simp add: norm_peer_def)
  then have p: "sql_get_peer i (sql_upsert_peer ?p (db w)) = Some ?p" using ps.lookup_same [of ?p "db w"] by simp
  have a: "db (handle_announce E payload s w) = sql_upsert_peer ?p (db w)"
    using assms by (simp add: handle_announce_def now_unix_def upsert_methods db_simps)
  show ?thesis
    using p a assms
    by (simp add: send_msg_def find_peer_def handle_discover_def db_simps case_prod_beta Let_def split: option.split)
qed

theorem announce_erases_address_witness:
  "map_option p_ip (sql_get_peer sample_id (db sample_sender)) = Some ''10.0.0.7''
   \<and> map_option p_ip (sql_get_peer sample_id (db (handle_announce sample_env (to_cbor sample_env (announce_json sample_id 60000)) 0 sample_sender))) = Some []
   \<and> \<not> fst (send_msg sample_env sample_id ''hello'' (handle_announce sample_env (to_cbor sample_env (announce_json sample_id 60000)) 0 sample_sender))"
proof -
  have p: "sql_get_peer sample_id (db sample_sender) = Some sample_peer"
    using sample_may_send by (simp add: may_send_def)
  have "sample_id \<noteq> ident sample_sender" by (simp add: sample_id_def sample_sender_def sample_world_def)
  from announce_erases_address [OF sample_reliable(1) decode_announce_written [OF sample_cbor] sample_id_valid this, of 60000 0 "''hello''"] p
  show ?thesis by (simp add: sample_peer_def)
qed
end
