(* ===== verification/Shr_Commands.thy ===== *)
theory Shr_Commands
  imports Shr_Node
begin

text \<open>
  The commands of \<open>main.cxx\<close> as a whole: what start-up and every command leave of the network
  state, and the effect of the inbox command on the message table.
\<close>

section \<open>Start-up and the listener\<close>

text \<open>Two worlds with the same listener and no change of the background tasks.\<close>

definition net_same :: "world \<Rightarrow> world \<Rightarrow> bool" where
  "net_same w w' \<longleftrightarrow> net_running w' = net_running w \<and> listen_sock w' = listen_sock w"

lemma net_same_refl [simp]: "net_same w w"
  by (simp add: net_same_def)

lemma net_same_trans: "net_same w w' \<Longrightarrow> net_same w' w'' \<Longrightarrow> net_same w w''"
  by (simp add: net_same_def)

lemma net_same_evolves: "net_same w w' \<Longrightarrow> evolves w' w'' \<Longrightarrow> net_same w w''"
  by (simp add: net_same_def evolves_def)

lemma net_same_basic [simp]:
  "net_same w (step_tick w') \<longleftrightarrow> net_same w w'" "net_same w (print t w') \<longleftrightarrow> net_same w w'"
  "net_same w (eprint t w') \<longleftrightarrow> net_same w w'" "net_same w (log E l m w') \<longleftrightarrow> net_same w w'"
  "net_same w (w'\<lparr>cfg := c\<rparr>) \<longleftrightarrow> net_same w w'" "net_same w (w'\<lparr>files := f\<rparr>) \<longleftrightarrow> net_same w w'"
  "net_same w (w'\<lparr>logger := g\<rparr>) \<longleftrightarrow> net_same w w'" "net_same w (w'\<lparr>ident := i\<rparr>) \<longleftrightarrow> net_same w w'"
  "net_same w (w'\<lparr>db_open := b\<rparr>) \<longleftrightarrow> net_same w w'" "net_same w (w'\<lparr>keypair := kp\<rparr>) \<longleftrightarrow> net_same w w'"
  "net_same w (w'\<lparr>keypair := kp, key_loaded := b\<rparr>) \<longleftrightarrow> net_same w w'" "net_same w (w'\<lparr>key_loaded := b\<rparr>) \<longleftrightarrow> net_same w w'"
  "net_same w (create_directories d w') \<longleftrightarrow> net_same w w'" "net_same w (w'\<lparr>files := f, dirs := ds\<rparr>) \<longleftrightarrow> net_same w w'"
  by (simp_all add: net_same_def create_directories_def)

lemma net_same_system [simp]:
  "net_same w (snd (ofstream_open E p m w')) \<longleftrightarrow> net_same w w'" "net_same w (snd (ofstream_write E p m n d w')) \<longleftrightarrow> net_same w w'"
  "net_same w (snd (ifstream_open E p w')) \<longleftrightarrow> net_same w w'" "net_same w (snd (rand_bytes E k w')) \<longleftrightarrow> net_same w w'"
  "net_same w (snd (shr_config_dir E w')) \<longleftrightarrow> net_same w w'" "net_same w (snd (shr_received_dir E w')) \<longleftrightarrow> net_same w w'"
  "net_same w (snd (sql_step E w')) \<longleftrightarrow> net_same w w'" "net_same w (snd (generate_uuid E w')) \<longleftrightarrow> net_same w w'"
  by (simp_all add: ofstream_open_def ofstream_write_def ifstream_open_def rand_bytes_def shr_config_dir_def
      shr_received_dir_def sql_step_def generate_uuid_world Let_def)

lemma net_same_config [simp]:
  "net_same w (set_defaults E w') \<longleftrightarrow> net_same w w'" "net_same w (snd (cfg_file_path E w')) \<longleftrightarrow> net_same w w'"
  "net_same w (snd (config_load E w')) \<longleftrightarrow> net_same w w'" "net_same w (snd (config_save E w')) \<longleftrightarrow> net_same w w'"
  by (simp_all add: set_defaults_def cfg_file_path_def config_load_def config_save_def case_prod_beta Let_def split: option.split)

lemma net_same_keys [simp]:
  "net_same w (snd (generate_keypair E w')) \<longleftrightarrow> net_same w w'" "net_same w (snd (load_or_generate_keypair E d w')) \<longleftrightarrow> net_same w w'"
  by (simp_all add: generate_keypair_def load_or_generate_keypair_def case_prod_beta Let_def split: option.split)

lemma net_same_start [simp]:
  "net_same w (logger_init E p l w') \<longleftrightarrow> net_same w w'" "net_same w (snd (database_open E p w')) \<longleftrightarrow> net_same w w'"
  "net_same w (snd (identity_load w')) \<longleftrightarrow> net_same w w'" "net_same w (snd (crypto_init E d w')) \<longleftrightarrow> net_same w w'"
  by (simp_all add: logger_init_def database_open_def identity_load_def crypto_init_def case_prod_beta Let_def)

lemma net_same_install [simp]: "net_same w (snd (identity_install E w')) \<longleftrightarrow> net_same w w'"
  by (simp add: identity_install_def case_prod_beta Let_def split: option.split bool.split)

lemma net_same_init [simp]: "net_same w (snd (init_app E b w')) \<longleftrightarrow> net_same w w'"
  by (simp add: init_app_def case_prod_beta Let_def split: option.split bool.split)

lemma net_same_with_app:
  assumes "\<And>v. net_same v (snd (body v))"
  shows "net_same w (snd (with_app E body w))"
proof -
  have "net_same w (snd (body (snd (init_app E True w))))" by (rule net_same_trans [OF _ assms]) simp
  then show ?thesis by (simp add: with_app_def case_prod_beta split: option.split bool.split)
qed

lemma net_same_queries [simp]:
  "net_same w (snd (all_peers E w')) \<longleftrightarrow> net_same w w'" "net_same w (snd (list_peers E w')) \<longleftrightarrow> net_same w w'"
  "net_same w (snd (get_inbox E page n w')) \<longleftrightarrow> net_same w w'" "net_same w (snd (unread_count E w')) \<longleftrightarrow> net_same w w'"
  "net_same w (snd (pending_inbound E w')) \<longleftrightarrow> net_same w w'" "net_same w (snd (active_transfers E w')) \<longleftrightarrow> net_same w w'"
  "net_same w (snd (storage_used_bytes E w')) \<longleftrightarrow> net_same w w'" "net_same w (snd (run_sql E f w')) \<longleftrightarrow> net_same w w'"
  "net_same w (snd (remove_all E d w')) \<longleftrightarrow> net_same w w'"
  by (simp_all add: all_peers_def list_peers_def get_inbox_def unread_count_def pending_inbound_def active_transfers_def
      storage_used_bytes_def remove_all_def case_prod_beta Let_def split: option.split) (simp_all add: net_same_def)

lemma net_same_inbox_loop [simp]: "net_same w (inbox_loop E ms w') \<longleftrightarrow> net_same w w'"
  by (induction ms arbitrary: w') (simp_all add: mark_message_read_def Let_def)

lemmas evolving = evolves_send_file evolves_messaging evolves_discover evolves_add_remove evolves_ping_peer

lemma net_same_network:
  "net_same w w' \<Longrightarrow> net_same w (snd (send_file E path i w'))" "net_same w w' \<Longrightarrow> net_same w (snd (send_msg E i c w'))"
  "net_same w w' \<Longrightarrow> net_same w (discover E w')" "net_same w w' \<Longrightarrow> net_same w (snd (add_peer E i ip port w'))"
  "net_same w w' \<Longrightarrow> net_same w (snd (ping_peer E i w'))"
  by (erule net_same_evolves, rule evolving)+

lemma net_same_commands:
  "net_same w (snd (cmd_install E w))" "net_same w (snd (cmd_whoami E w))" "net_same w (snd (cmd_send E path i w))"
  "net_same w (snd (cmd_receive E b w))" "net_same w (snd (cmd_msg E i m w))" "net_same w (snd (cmd_inbox E page w))"
  "net_same w (snd (cmd_peers E w))" "net_same w (snd (cmd_discover E w))" "net_same w (snd (cmd_connect E i ip port w))"
  "net_same w (snd (cmd_status E w))" "net_same w (snd (cmd_config E w))" "net_same w (snd (cmd_clean E w))"
  unfolding cmd_whoami_def cmd_send_def cmd_receive_def cmd_msg_def cmd_inbox_def cmd_peers_def cmd_discover_def
    cmd_connect_def cmd_status_def cmd_clean_def
  by (auto simp: cmd_install_def cmd_config_def receive_pending_def messaging_get_inbox_def messaging_unread_count_def
      list_active_def delete_stale_transfers_def now_unix_def case_prod_beta Let_def net_same_network
      intro!: net_same_with_app split: option.split bool.split)

text \<open>The body of a command runs on an open database: a start-up that requires an installation and
  succeeds has opened it.\<close>

lemma db_open_system [simp]:
  "db_open (snd (ofstream_open E p m w)) = db_open w" "db_open (snd (ofstream_write E p m n d w)) = db_open w"
  "db_open (snd (ifstream_open E p w)) = db_open w" "db_open (snd (sql_step E w)) = db_open w"
  "db_open (snd (rand_bytes E n w)) = db_open w"
  by (simp_all add: ofstream_open_def ofstream_write_def ifstream_open_def sql_step_def rand_bytes_def Let_def)

lemma db_open_generate [simp]: "db_open (snd (generate_keypair E w)) = db_open w"
  by (simp add: generate_keypair_def case_prod_beta Let_def)

lemma db_open_crypto [simp]: "db_open (snd (crypto_init E dir w)) = db_open w"
  by (simp add: crypto_init_def load_or_generate_keypair_def case_prod_beta Let_def split: option.split)

lemma db_open_database: "fst (database_open E p w) \<Longrightarrow> db_open (snd (database_open E p w))"
  by (simp add: database_open_def case_prod_beta Let_def split: if_splits)

lemma init_app_opens_db:
  assumes "init_app E True w = (Some True, w1)"
  shows "db_open w1"
proof -
  have "w1 = snd (init_app E True w)" "fst (init_app E True w) = Some True" using assms by simp_all
  then show ?thesis
    by (auto simp: init_app_def db_open_database case_prod_beta Let_def split: if_splits option.splits bool.splits)
qed

section \<open>The inbox\<close>

lemma inbox_loop_messages:
  assumes "sql_reliable E"
  shows "message_at i (db (inbox_loop E ms w)) =
    (if \<exists>m \<in> set ms. \<not> m_read m \<and> c_str i = c_str (m_id m) then map_option (\<lambda>m. m\<lparr>m_read := True\<rparr>) (message_at i (db w))
     else message_at i (db w))"
proof (induction ms arbitrary: w)
  case (Cons m ms)
  show ?case
    using assms
    by (auto simp: Let_def Cons mark_message_read_def db_simps message_at_mark_read option.map_comp comp_def)
qed simp

definition sample_inbox :: world where
  "sample_inbox = sample_world\<lparr>db := sql_insert_message
     \<lparr>m_id = ''m'', m_sender_id = ''a'', m_recipient_id = ''node'', m_content = ''hi'', m_timestamp = 3, m_read = False\<rparr> (db sample_world)\<rparr>"

lemma sample_init: "fst (init_app sample_env True sample_inbox) = Some True" "db (snd (init_app sample_env True sample_inbox)) = db sample_inbox"
  by (simp_all add: init_app_def config_load_def set_defaults_def shr_config_dir_def shr_received_dir_def cfg_file_path_def
     create_directories_def file_exists_def logger_init_def ofstream_open_def config_is_installed_def identity_load_def database_open_def
     sql_step_def crypto_init_def load_or_generate_keypair_def generate_keypair_def rand_bytes_def ofstream_write_def apply_env_overrides_def
     sample_inbox_def sample_world_def sample_env_def path_append_def home_dir_def Let_def)

section \<open>Properties\<close>

text \<open>C25: No command ever listens. Whatever the arguments, the environment and the handler table, \<open>main\<close>
  ends with the listener and its running flag as they were: a process started from the command
  line has no listening socket, so it never receives an offer or a message.\<close>

theorem no_command_listens:
  "net_running (snd (snd (main E args hs w))) = net_running w \<and> listen_sock (snd (snd (main E args hs w))) = listen_sock w"
proof -
  have "net_same w (snd (snd (main E args hs w)))"
    by (auto simp: main_def usage_def net_same_commands case_prod_beta Let_def split: list.split)
  then show ?thesis by (simp add: net_same_def)
qed

text \<open>C28: The inbox command marks exactly the messages of the page it has shown: after it, every
  message of the page is read, and every other message has the mark it had.\<close>

theorem inbox_marks_page_read:
  assumes "sql_reliable E" and "init_app E True w = (Some True, w1)" and "fst (get_inbox E page 20 w1) = Some ms"
  shows "\<exists>w'. cmd_inbox E page w = (Some 0, w') \<and> (\<forall>i. message_at i (db w') =
    (if \<exists>m \<in> set ms. \<not> m_read m \<and> c_str i = c_str (m_id m) then map_option (\<lambda>m. m\<lparr>m_read := True\<rparr>) (message_at i (db w1))
     else message_at i (db w1)))"
proof -
  obtain w2 where g: "get_inbox E page 20 w1 = (Some ms, w2)" using assms(3) by (cases "get_inbox E page 20 w1") auto
  then have d: "db w2 = db w1" by (auto simp: get_inbox_def Let_def split: if_splits)
  show ?thesis
    using assms(2) g d inbox_loop_messages [OF assms(1)]
    by (auto simp: cmd_inbox_def with_app_def messaging_get_inbox_def messaging_unread_count_def unread_count_def
        sql_step_def case_prod_beta Let_def)
qed

theorem inbox_marks_page_read_witness:
  "\<exists>w'. cmd_inbox sample_env 1 sample_inbox = (Some 0, w')
     \<and> map_option m_read (message_at ''m'' (db sample_inbox)) = Some False \<and> map_option m_read (message_at ''m'' (db w')) = Some True"
proof -
  let ?m = "\<lparr>m_id = ''m'', m_sender_id = ''a'', m_recipient_id = ''node'', m_content = ''hi'', m_timestamp = 3, m_read = False\<rparr>"
  obtain w1 where i: "init_app sample_env True sample_inbox = (Some True, w1)" and d: "db w1 = db sample_inbox"
    using sample_init by (cases "init_app sample_env True sample_inbox") auto
  have n: "norm_message ?m = ?m" by (simp add: norm_message_def nul_free_def)
  have m: "message_at ''m'' (db sample_inbox) = Some ?m"
    using ms.lookup_add [of "''m''" ?m "db sample_world"] n
    by (simp add: sample_inbox_def message_at_def sample_world_def tbl_find_Nil)
  have r: "tb_messages (db sample_inbox) = [message_to_row ?m]"
    by (simp add: sample_inbox_def sample_world_def sql_insert_message_def tbl_ignore_def tbl_find_Nil)
  have "fst (get_inbox sample_env 1 20 w1) = Some [?m]"
    using n row_to_message_to_row [of ?m]
    by (simp add: get_inbox_def int32_range_def d r scan_def sql_limit_def Let_def sample_env_def)
  from inbox_marks_page_read [OF sample_reliable(1) i this] m show ?thesis by (auto simp: d)
qed
end
