(* ===== verification/Spec2Isabelle.thy ===== *)
theory Spec2Isabelle
  imports Shr_Delivery Shr_Commands
begin

text \<open>
  A verification of \<open>shr\<close>, a peer-to-peer program for file transfer and messages written in
  C++17 (\<open>src/src/*.cxx\<close>, \<open>src/include/*.h\<close>).

  \<^bold>\<open>The program.\<close> A node has an identifier, a configuration file, a key pair, a SQLite database
  with the tables of peers, messages and transfers, and a directory for received files. Nodes
  exchange framed packets over TCP: a file is offered, sent in chunks that are acknowledged one
  by one and closed with the digest of the whole file; a text message is one packet. A
  connection is served by a loop that reads packets and calls the handler registered for their
  type. The command line (\<open>main.cxx\<close>) starts one operation per process.

  \<^bold>\<open>How it is modelled.\<close> The singletons of the program are one record \<open>world\<close> (theory
  \<open>Shr_World\<close>): files and directories, console output, logger, configuration, identity,
  database tables, key pair, sockets, listener. An operation is a function from \<open>world\<close> to its
  result and the next \<open>world\<close>. What the program gets from outside is a record \<open>env\<close>: OpenSSL,
  nlohmann::json and Base64 as functions (its part \<open>lib\<close>), and the clock, the random source,
  the kernel's answers to socket and file calls and SQLite's return codes as functions of the
  number \<open>tick\<close> of calls made so far. A theorem holds for every \<open>env\<close>, or names what it needs of
  it: \<open>cbor_laws\<close>, \<open>json_text_laws\<close>, \<open>digest_laws\<close>, \<open>base64_laws\<close>, \<open>gcm_laws\<close> for the libraries,
  \<open>sql_reliable\<close>, \<open>sql_scans_all\<close>, \<open>sockets_reliable\<close>, \<open>disk_reliable\<close> for the system. None of
  these fixes how much a socket call moves. What a peer sends is \<open>peer_stream\<close>, a function of
  the socket and of the bytes written to it so far. The laws say what the libraries document:
  JSON text is written for UTF-8 texts only and parses back, other texts raise an exception;
  AES-256-GCM opens what it sealed with a key of 32 bytes, a nonce of 12 and at most \<open>INT_MAX\<close>
  bytes; Base64, CBOR and incremental digests invert or agree. Exceptions, failed calls and
  undefined behaviour are values of option and sum types; a command that ends with an exception
  nobody catches, or in undefined behaviour, has the exit code \<open>None\<close>.

  \<^bold>\<open>Theories.\<close>
  \<^item> \<open>Shr_Prelude\<close>: word sizes, texts of numbers, C strings, tables with a primary key and their
    lemmas. \<open>Shr_Types\<close>: \<open>include/types.h\<close>. \<open>Shr_World\<close>: state, environment, file streams.
    \<open>Shr_Sample\<close>, \<open>Shr_Samples\<close>: one concrete environment that satisfies all laws and a few
    concrete nodes; they occur in instances of theorems only.
  \<^item> \<open>Shr_Utils\<close> (\<open>utils.cxx\<close>): version 4 identifiers, hexadecimal round trip, block-wise digests,
    accuracy of sizes and durations with the rounding of doubles written out, sanitised names,
    \<open>path_is_safe\<close>, and the port search, which is a partial function because it can loop.
  \<^item> \<open>Shr_Logger\<close> (\<open>logger.cxx\<close>), \<open>Shr_Crypto\<close> (\<open>crypto.cxx\<close>): key files and encryption round trips.
    \<open>Shr_Config\<close> (\<open>config.cxx\<close>, \<open>identity.cxx\<close>): saving, loading and precedence of settings.
  \<^item> \<open>Shr_Database\<close> (\<open>database.cxx\<close>): the statements as functions on tables. The locales
    \<open>keyed_store\<close>, \<open>keyed_store_del\<close>, \<open>keyed_store_upd\<close> and \<open>first_wins_store\<close> state what clients
    rely on; the peer, transfer and message tables interpret them.
  \<^item> \<open>Shr_Network\<close> (\<open>network.cxx\<close>): packet codec, read and write loops, connections, the dispatch
    loop \<open>conn_loop\<close> as a partial function. The locale \<open>handler_table\<close> is the contract between
    the loop and the handlers; under it the loop returns for finite input.
  \<^item> \<open>Shr_Peers\<close>, \<open>Shr_Messaging\<close>, \<open>Shr_Transfer\<close>, \<open>Shr_App\<close> (\<open>peers.cxx\<close>, \<open>messaging.cxx\<close>,
    \<open>transfer.cxx\<close>, \<open>main.cxx\<close>): every operation, handler and command. The sending loop is a
    total function, its measure is the rest of the file.
  \<^item> \<open>Shr_Frame\<close>: what traffic leaves alone. \<open>Shr_Node\<close>: a node as a transition system
    (\<open>db_step\<close>, \<open>node_step\<close>) with its invariants by rule induction, and the interpretation of
    \<open>handler_table\<close> on the handlers of \<open>main.cxx\<close>.
  \<^item> \<open>Shr_Receive\<close>, \<open>Shr_Send\<close>: the two sides of a transfer, on every branch.
    \<open>Shr_EndToEnd\<close>, \<open>Shr_Delivery\<close>: two nodes connected, the bytes written by one being the
    stream of the other. \<open>Shr_Commands\<close>: the commands as a whole.

  \<^bold>\<open>What is shown.\<close> A non-empty file sent between working nodes arrives with its content and is
  recorded as completed on both sides, for every fragmentation of the streams; a message
  arrives unread; a message is stored once, sending stores exactly the message sent, and cleaning
  goes by the last progress of a record. In every state a running node can reach, the tables are
  well formed, no transfer is paused, an inbound path is the received directory with one more
  component, and files change only in the received directory, under a proper name, or at the
  path of an outbound transfer. The steps of a node are packets, connections, the beacon and the
  operations commands call after start-up; start-up, installation and the removal of temporary
  files are outside that system and are modelled as functions only. Serving a connection ends
  for every finite input. Codecs, tables, key files and settings have their round trips. Some
  theorems record behaviour that differs from the documentation or from what the code means to
  do: a missing acknowledgement still completes the transfer, an empty file is never received,
  nothing is resumed, packets are not authenticated, no command listens, an announcement erases a
  known address, a port search up to 65535 can run forever, a NUL byte in an offered name makes
  the stored path that of a directory, and a log level that is not UTF-8 empties the
  configuration file.

  \<^bold>\<open>Bounds.\<close> Words have the width of the source (\<open>u16\<close>, \<open>u32\<close>, \<open>u64\<close>); SQLite integers are
  signed 64-bit values; \<open>int\<close> arithmetic that overflows gives \<open>None\<close>. No definition of the
  program uses fuel (the decoder of the sample environment does, with the length of its input).
  The theorems on traffic ask for packets that stay, with their header, below 4 GiB: that is the
  range of the length field, and a longer buffer loses its upper bits in the casts to \<open>int\<close> of
  \<open>write_raw\<close> and \<open>read_raw\<close>, which the model follows.

  \<^bold>\<open>Not modelled.\<close> Threads and mutexes: the accept loop, the beacon and each connection are
  sequences of atomic steps. Delays between attempts and socket timeouts: only their outcome is
  an answer of the environment. The progress callback, which no caller passes, and the measured
  speed, an answer of the environment. Texts that went to the log are kept in the logger's
  state, not in the file table. The signal \<open>SIGPIPE\<close> of a write to a closed connection, failing
  allocations (a header may ask for a buffer of 4 GiB), and exceptions of \<open>create_directories\<close> and
  \<open>exists\<close>. A database method on a handle that is not open counts as a failed statement; no command
  gets there, since \<open>init_app_opens_db\<close> shows that a start-up that requires an installation has
  opened the database. The branches for Windows, the build files and the scripts.
\<close>

end
